theory Spec2Isabelle
  imports Main "HOL-Library.Sublist" "HOL-Library.Log_Nat" "HOL-Library.Monad_Syntax"
    "HOL-Library.Product_Lexorder"
begin

section \<open>Gym Habit: the database layer (database.py)\<close>

text \<open>
  The in-memory gym store of \<^verbatim>\<open>GymDatabase\<close>, its CSV backing file, the distance function
  \<^verbatim>\<open>haversine_distance\<close>, the nearest-gym ranking, the subscription plan calculator and the
  subscription request log.

  Python floats that are stored and handed to the \<^verbatim>\<open>math\<close> module (coordinates, distances)
  are values of a type parameter \<open>'f\<close>, and the operations of the Python runtime on them are
  parameters; the arithmetic of \<^verbatim>\<open>calculate_subscription_plans\<close>, an integer times a double
  constant and then \<^verbatim>\<open>int()\<close>, is modelled exactly (section \<open>Subscription plans\<close>).
  Strings are \<open>char list\<close>.
\<close>

subsection \<open>Records\<close>

text \<open>The exceptions that leave a function of this module.\<close>

datatype error = KeyError | OSError | OverflowError | ValueError

text \<open>Sequencing of two steps of which the first may raise.\<close>

definition bind_err :: "error + 'a \<Rightarrow> ('a \<Rightarrow> error + 'b) \<Rightarrow> error + 'b" where
  "bind_err x f = (case x of Inl e \<Rightarrow> Inl e | Inr v \<Rightarrow> f v)"

text \<open>The dictionary \<^verbatim>\<open>gym_data\<close> that \<^verbatim>\<open>add_gym\<close> receives (the fields of GymAddRequest).\<close>

record 'f gym_data =
  partner_name :: string
  gym_name :: string
  address :: string
  pincode :: string
  latitude :: 'f
  longitude :: 'f
  subscription_amount :: int
  amenities :: string

text \<open>A stored gym: the same keys and \<^verbatim>\<open>'id'\<close> (named \<open>id'\<close>: \<open>id\<close> is the identity of HOL).\<close>

record 'f gym = "'f gym_data" +
  id' :: int

text \<open>The per-call copy made by \<^verbatim>\<open>get_nearby_gyms\<close>: a gym and the key \<^verbatim>\<open>'distance'\<close>.\<close>

record 'f gym_with_distance = "'f gym" +
  distance :: 'f

subsection \<open>The Python runtime\<close>

text \<open>
  The functions of the Python runtime that the module calls are not code of this repository
  and are parameters: the conversions between texts and numbers, \<^verbatim>\<open>float(s)\<close>, \<^verbatim>\<open>int(s)\<close>
  (\<open>None\<close> when they raise \<^verbatim>\<open>ValueError\<close>) and \<^verbatim>\<open>str(x)\<close> as the csv writer applies it,
  and the string methods \<^verbatim>\<open>str.strip()\<close> and \<^verbatim>\<open>str.lower()\<close>.
\<close>

record 'f pylib =
  float_of_str :: "string \<Rightarrow> 'f option"
  int_of_str :: "string \<Rightarrow> int option"
  str_of_float :: "'f \<Rightarrow> string"
  str_of_int :: "int \<Rightarrow> string"
  str_strip :: "string \<Rightarrow> string"
  str_lower :: "string \<Rightarrow> string"

text \<open>
  The float operations that \<^verbatim>\<open>haversine_distance\<close> and \<^verbatim>\<open>list.sort\<close> use.
  \<^verbatim>\<open>math.sin\<close>, \<^verbatim>\<open>math.cos\<close>, \<^verbatim>\<open>math.sqrt\<close> and \<^verbatim>\<open>math.asin\<close> raise \<^verbatim>\<open>ValueError\<close>
  outside their domain (the sine of an infinity, the root of a negative number): \<open>None\<close>.
  \<^verbatim>\<open>x ** y\<close> raises \<^verbatim>\<open>OverflowError\<close> when the result is out of range: \<open>None\<close>.
  \<^verbatim>\<open>math.radians\<close>, \<^verbatim>\<open>+\<close>, \<^verbatim>\<open>-\<close>, \<^verbatim>\<open>*\<close>, \<^verbatim>\<open>round(x, 2)\<close> and the division by the
  constant 2 return a float for all floats. The integer literal \<^verbatim>\<open>2\<close> that meets a float
  is converted to the float \<open>float_2\<close>.

  Floats are compared by \<^verbatim>\<open><\<close>, which orders all of them but NaN: \<open>fkey x\<close> is the place
  of \<open>x\<close> in that order, \<open>None\<close> for a NaN. \<^verbatim>\<open>list.sort(key=...)\<close> is a stable sort by key
  when the keys are ordered, as \<open>sort_key\<close> is; on keys some of which are NaN, the order it
  leaves is that of its merge strategy, the parameters \<open>sort_with_nan\<close> (on dictionaries)
  and \<open>sort_refs_with_nan\<close> (on addresses of dictionaries paired with their keys).
\<close>

type_synonym ref = nat

record ('f, 'k) pymath =
  radians :: "'f \<Rightarrow> 'f"
  msin :: "'f \<Rightarrow> 'f option"
  mcos :: "'f \<Rightarrow> 'f option"
  msqrt :: "'f \<Rightarrow> 'f option"
  masin :: "'f \<Rightarrow> 'f option"
  fadd :: "'f \<Rightarrow> 'f \<Rightarrow> 'f"
  fsub :: "'f \<Rightarrow> 'f \<Rightarrow> 'f"
  fmul :: "'f \<Rightarrow> 'f \<Rightarrow> 'f"
  fdiv :: "'f \<Rightarrow> 'f \<Rightarrow> 'f"
  fpow :: "'f \<Rightarrow> 'f \<Rightarrow> 'f option"
  round2 :: "'f \<Rightarrow> 'f"
  float_2 :: 'f
  float_6371 :: 'f
  fkey :: "'f \<Rightarrow> 'k option"
  sort_with_nan :: "'f gym_with_distance list \<Rightarrow> 'f gym_with_distance list"
  sort_refs_with_nan :: "('f \<times> ref) list \<Rightarrow> ref list"

text \<open>A call of the runtime that raises \<open>e\<close> when it has no value.\<close>

definition or_raise :: "error \<Rightarrow> 'a option \<Rightarrow> error + 'a" where
  "or_raise e x = (case x of None \<Rightarrow> Inl e | Some v \<Rightarrow> Inr v)"

subsection \<open>The backing CSV file\<close>

text \<open>
  A row as \<^verbatim>\<open>csv.DictReader\<close> yields it: a dictionary from column names to cell texts.
  A column that the header lacks (\<^verbatim>\<open>KeyError\<close> on access) and a cell that a short line
  lacks (the value \<^verbatim>\<open>None\<close>, an \<^verbatim>\<open>AttributeError\<close> or \<^verbatim>\<open>TypeError\<close> on use) are
  both an undefined key here: either one raises inside the \<^verbatim>\<open>try\<close> of \<^verbatim>\<open>load_gyms\<close>.

  The file is described by what \<^verbatim>\<open>load_gyms\<close> gets from it, opened as it opens it
  (\<^verbatim>\<open>open(path, 'r', encoding='utf-8')\<close>, universal newlines): no file, a file on which
  opening or the reader raises, or the rows that the reader yields.
\<close>

type_synonym row = "string \<rightharpoonup> string"

datatype csv_file = Missing | Unreadable | Content "row list"

text \<open>
  The state of a \<^verbatim>\<open>GymDatabase\<close>: the list \<^verbatim>\<open>self.gyms\<close>, the file at \<^verbatim>\<open>self.csv_path\<close>,
  and whether opening that file for writing succeeds.
\<close>

record 'f GymDatabase =
  gyms :: "'f gym list"
  csv :: csv_file
  writable :: bool

subsection \<open>load\_gyms\<close>

text \<open>
  One iteration of the loop of \<^verbatim>\<open>load_gyms\<close>: the dictionary built from a row, or \<open>None\<close>
  when building it raises (a missing cell, a latitude or longitude that \<^verbatim>\<open>float\<close> rejects,
  an amount that \<^verbatim>\<open>int\<close> rejects).
\<close>

definition gym_of_row :: "'f pylib \<Rightarrow> int \<Rightarrow> row \<Rightarrow> 'f gym option" where
  "gym_of_row L idx r =
     do {
       pn \<leftarrow> r ''PartnerName'';
       gn \<leftarrow> r ''GymName'';
       ad \<leftarrow> r ''Address'';
       pc \<leftarrow> r ''Pincode'';
       lat_s \<leftarrow> r ''Latitude'';
       lat \<leftarrow> float_of_str L lat_s;
       lon_s \<leftarrow> r ''Longitude'';
       lon \<leftarrow> float_of_str L lon_s;
       amt_s \<leftarrow> r ''SubscriptionAmount'';
       amt \<leftarrow> int_of_str L amt_s;
       am \<leftarrow> r ''Amenities'';
       Some \<lparr> partner_name = str_strip L pn, gym_name = str_strip L gn,
              address = str_strip L ad, pincode = str_strip L pc, latitude = lat,
              longitude = lon, subscription_amount = amt, amenities = str_strip L am,
              id' = idx \<rparr>
     }"

text \<open>The loop \<^verbatim>\<open>for idx, row in enumerate(reader, start=1)\<close>; \<open>None\<close> when a row raises.\<close>

fun load_rows :: "'f pylib \<Rightarrow> int \<Rightarrow> row list \<Rightarrow> 'f gym list option" where
  "load_rows L idx [] = Some []"
| "load_rows L idx (r # rs) =
     (case gym_of_row L idx r of
        None \<Rightarrow> None
      | Some g \<Rightarrow> (case load_rows L (idx + 1) rs of None \<Rightarrow> None | Some gs \<Rightarrow> Some (g # gs)))"

text \<open>
  \<^verbatim>\<open>load_gyms\<close>: both handlers (\<^verbatim>\<open>FileNotFoundError\<close>, \<^verbatim>\<open>Exception\<close>) set
  \<^verbatim>\<open>self.gyms = []\<close>, so the function returns a state in every case.
\<close>

definition load_gyms :: "'f pylib \<Rightarrow> 'f GymDatabase \<Rightarrow> 'f GymDatabase" where
  "load_gyms L s =
     (case csv s of
        Missing \<Rightarrow> s\<lparr>gyms := []\<rparr>
      | Unreadable \<Rightarrow> s\<lparr>gyms := []\<rparr>
      | Content rows \<Rightarrow>
          (case load_rows L 1 rows of None \<Rightarrow> s\<lparr>gyms := []\<rparr> | Some gs \<Rightarrow> s\<lparr>gyms := gs\<rparr>))"

subsection \<open>Reads\<close>

definition get_gyms_by_partner :: "'f pylib \<Rightarrow> 'f GymDatabase \<Rightarrow> string \<Rightarrow> 'f gym list" where
  "get_gyms_by_partner L s partner =
     (if partner = [] then gyms s
      else filter (\<lambda>g. str_lower L (partner_name g) = str_lower L partner) (gyms s))"

definition get_gym_by_id :: "'f GymDatabase \<Rightarrow> int \<Rightarrow> 'f gym option" where
  "get_gym_by_id s gym_id = find (\<lambda>g. id' g = gym_id) (gyms s)"

subsection \<open>Writes\<close>

text \<open>
  The cells of the line that \<^verbatim>\<open>writer.writerow\<close> is given for a gym, by column; the csv
  writer applies \<^verbatim>\<open>str\<close> to the numbers.
\<close>

definition row_of_gym :: "'f pylib \<Rightarrow> 'f gym \<Rightarrow> (string \<times> string) list" where
  "row_of_gym L g =
     [ (''PartnerName'', partner_name g),
       (''GymName'', gym_name g),
       (''Address'', address g),
       (''Pincode'', pincode g),
       (''Latitude'', str_of_float L (latitude g)),
       (''Longitude'', str_of_float L (longitude g)),
       (''SubscriptionAmount'', str_of_int L (subscription_amount g)),
       (''Amenities'', amenities g) ]"

text \<open>
  The file is written through \<^verbatim>\<open>open(path, 'w', newline='', encoding='utf-8')\<close>, so a
  carriage return inside a cell reaches the file as it is, and read through
  \<^verbatim>\<open>open(path, 'r', encoding='utf-8')\<close>, which translates \<^verbatim>\<open>\r\n\<close> and \<^verbatim>\<open>\r\<close> to
  \<^verbatim>\<open>\n\<close> before the reader sees the text, also inside a quoted cell.
\<close>

fun universal_newlines :: "string \<Rightarrow> string" where
  "universal_newlines [] = []"
| "universal_newlines [c] = (if c = CHR 0x0D then [CHR 0x0A] else [c])"
| "universal_newlines (c # d # cs) =
     (if c = CHR 0x0D \<and> d = CHR 0x0A then CHR 0x0A # universal_newlines cs
      else if c = CHR 0x0D then CHR 0x0A # universal_newlines (d # cs)
      else c # universal_newlines (d # cs))"

text \<open>
  The reader raises \<^verbatim>\<open>_csv.Error\<close> on a cell of more than \<^verbatim>\<open>csv.field_size_limit()\<close>
  characters, 131072 unless it is changed, which this program does not do. Every other
  cell comes back as the writer was given it, up to the translation of newlines (the
  reader of Python 3.11 and later; an earlier one also raises on a NUL character).
\<close>

definition csv_field_limit :: nat where
  "csv_field_limit = 131072"

text \<open>What the reader yields for a cell that was written (\<open>None\<close>: it raises).\<close>

definition read_cell :: "string \<Rightarrow> string option" where
  "read_cell c =
     (let t = universal_newlines c in if length t \<le> csv_field_limit then Some t else None)"

text \<open>The row that the reader yields for a written line, and the file for the written lines.\<close>

definition read_row :: "(string \<times> string) list \<Rightarrow> row option" where
  "read_row cells =
     map_option map_of (those (map (\<lambda>(k, c). map_option (Pair k) (read_cell c)) cells))"

definition read_file :: "(string \<times> string) list list \<Rightarrow> csv_file" where
  "read_file lines = (case those (map read_row lines) of None \<Rightarrow> Unreadable | Some rs \<Rightarrow> Content rs)"

text \<open>
  \<^verbatim>\<open>_save_to_csv\<close>: the whole collection is written; when the file cannot be opened the
  exception is caught and printed, and the file stays as it was.
\<close>

definition save_to_csv :: "'f pylib \<Rightarrow> 'f GymDatabase \<Rightarrow> 'f GymDatabase" where
  "save_to_csv L s =
     (if writable s then s\<lparr>csv := read_file (map (row_of_gym L) (gyms s))\<rparr> else s)"

text \<open>\<^verbatim>\<open>max(xs, default=d)\<close>.\<close>

definition py_max :: "int list \<Rightarrow> int \<Rightarrow> int" where
  "py_max xs d = (case xs of [] \<Rightarrow> d | y # ys \<Rightarrow> fold max ys y)"

definition add_gym :: "'f pylib \<Rightarrow> 'f GymDatabase \<Rightarrow> 'f gym_data \<Rightarrow> int \<times> 'f GymDatabase" where
  "add_gym L s gym_data =
     (let new_id = py_max (map id' (gyms s)) 0 + 1;
          new_gym = \<lparr> partner_name = partner_name gym_data, gym_name = gym_name gym_data,
                      address = address gym_data, pincode = pincode gym_data,
                      latitude = latitude gym_data, longitude = longitude gym_data,
                      subscription_amount = subscription_amount gym_data,
                      amenities = amenities gym_data, id' = new_id \<rparr>
      in (new_id, save_to_csv L (s\<lparr>gyms := gyms s @ [new_gym]\<rparr>)))"

definition delete_gym :: "'f pylib \<Rightarrow> 'f GymDatabase \<Rightarrow> int \<Rightarrow> bool \<times> 'f GymDatabase" where
  "delete_gym L s gym_id =
     (let original_count = length (gyms s);
          s' = s\<lparr>gyms := filter (\<lambda>g. id' g \<noteq> gym_id) (gyms s)\<rparr>
      in if length (gyms s') < original_count then (True, save_to_csv L s') else (False, s'))"

subsection \<open>haversine\_distance\<close>

text \<open>
  The function in the order in which Python evaluates it: the first operation that raises
  ends the call with its exception.
\<close>

definition haversine_distance ::
  "('f, 'k) pymath \<Rightarrow> 'f \<Rightarrow> 'f \<Rightarrow> 'f \<Rightarrow> 'f \<Rightarrow> error + 'f" where
  "haversine_distance M lat1 lon1 lat2 lon2 =
     (let R = float_6371 M;
          lat1_rad = radians M lat1;
          lon1_rad = radians M lon1;
          lat2_rad = radians M lat2;
          lon2_rad = radians M lon2;
          dlat = fsub M lat2_rad lat1_rad;
          dlon = fsub M lon2_rad lon1_rad
      in bind_err (or_raise ValueError (msin M (fdiv M dlat (float_2 M)))) (\<lambda>sin_dlat.
         bind_err (or_raise OverflowError (fpow M sin_dlat (float_2 M))) (\<lambda>sin_dlat_2.
         bind_err (or_raise ValueError (mcos M lat1_rad)) (\<lambda>cos_lat1.
         bind_err (or_raise ValueError (mcos M lat2_rad)) (\<lambda>cos_lat2.
         bind_err (or_raise ValueError (msin M (fdiv M dlon (float_2 M)))) (\<lambda>sin_dlon.
         bind_err (or_raise OverflowError (fpow M sin_dlon (float_2 M))) (\<lambda>sin_dlon_2.
         let a = fadd M sin_dlat_2 (fmul M (fmul M cos_lat1 cos_lat2) sin_dlon_2) in
         bind_err (or_raise ValueError (msqrt M a)) (\<lambda>sqrt_a.
         bind_err (or_raise ValueError (masin M sqrt_a)) (\<lambda>asin_sqrt_a.
         let c = fmul M (float_2 M) asin_sqrt_a;
             distance = fmul M R c
         in Inr (round2 M distance))))))))))"

subsection \<open>get\_nearby\_gyms\<close>

text \<open>
  \<^verbatim>\<open>xs[:limit]\<close>: a negative limit counts from the end of the list.
\<close>

definition py_slice_to :: "'a list \<Rightarrow> int \<Rightarrow> 'a list" where
  "py_slice_to xs limit =
     (if 0 \<le> limit then take (nat limit) xs else take (length xs - nat (- limit)) xs)"

text \<open>\<^verbatim>\<open>gym_copy = gym.copy(); gym_copy['distance'] = distance\<close>.\<close>

definition with_distance :: "'f gym \<Rightarrow> 'f \<Rightarrow> 'f gym_with_distance" where
  "with_distance g d = gym.extend g (gym_with_distance.fields d)"

text \<open>
  The loop over the gyms: the list \<^verbatim>\<open>gyms_with_distance\<close>, or the exception of the first
  distance that raises (the list built so far is local and lost).
\<close>

fun gyms_with_distance ::
  "('f, 'k) pymath \<Rightarrow> 'f \<Rightarrow> 'f \<Rightarrow> 'f gym list \<Rightarrow> error + 'f gym_with_distance list" where
  "gyms_with_distance M user_lat user_lon [] = Inr []"
| "gyms_with_distance M user_lat user_lon (g # gs) =
     (case haversine_distance M user_lat user_lon (latitude g) (longitude g) of
        Inl e \<Rightarrow> Inl e
      | Inr d \<Rightarrow>
          (case gyms_with_distance M user_lat user_lon gs of
             Inl e \<Rightarrow> Inl e
           | Inr rest \<Rightarrow> Inr (with_distance g d # rest)))"

text \<open>\<^verbatim>\<open>xs.sort(key=lambda x: x['distance'])\<close> on a list of dictionaries that have the key.\<close>

definition sort_by_distance ::
  "('f, 'k::linorder) pymath \<Rightarrow> 'f gym_with_distance list \<Rightarrow> 'f gym_with_distance list" where
  "sort_by_distance M xs =
     (if list_all (\<lambda>x. fkey M (distance x) \<noteq> None) xs
      then sort_key (\<lambda>x. the (fkey M (distance x))) xs
      else sort_with_nan M xs)"

definition get_nearby_gyms ::
  "('f, 'k::linorder) pymath \<Rightarrow> 'f pylib \<Rightarrow> 'f GymDatabase \<Rightarrow> 'f \<Rightarrow> 'f \<Rightarrow> string option \<Rightarrow> int
     \<Rightarrow> error + 'f gym_with_distance list" where
  "get_nearby_gyms M L s user_lat user_lon partner limit =
     (let gs = (case partner of
                  None \<Rightarrow> gyms s
                | Some p \<Rightarrow> if p \<noteq> [] then get_gyms_by_partner L s p else gyms s)
      in case gyms_with_distance M user_lat user_lon gs of
           Inl e \<Rightarrow> Inl e
         | Inr xs \<Rightarrow> Inr (py_slice_to (sort_by_distance M xs) limit))"

subsection \<open>Object identity\<close>

text \<open>
  What the reads hand out is a reference, so the same operations are given once more on a
  store of objects: dictionaries and lists live at addresses (their index in \<open>dict_objs\<close> and
  \<open>list_objs\<close>, objects are never freed), a list holds addresses of dictionaries, and
  \<^verbatim>\<open>self.gyms\<close> is the address of a list.
\<close>

datatype 'f dict_obj = Gym "'f gym" | GymWithDistance "'f gym_with_distance"

record 'f heap =
  dict_objs :: "'f dict_obj list"
  list_objs :: "ref list list"
  self_gyms :: ref

text \<open>The keys every gym dictionary has, and the key \<^verbatim>\<open>'distance'\<close> (\<open>None\<close>: \<^verbatim>\<open>KeyError\<close>).\<close>

definition obj_gym :: "'f dict_obj \<Rightarrow> 'f gym" where
  "obj_gym ob = (case ob of Gym g \<Rightarrow> g | GymWithDistance r \<Rightarrow> gym.truncate r)"

definition obj_distance :: "'f dict_obj \<Rightarrow> 'f option" where
  "obj_distance ob = (case ob of Gym g \<Rightarrow> None | GymWithDistance r \<Rightarrow> Some (distance r))"

text \<open>\<^verbatim>\<open>c = ob.copy(); c['distance'] = d\<close>, as a value.\<close>

definition copy_with_distance :: "'f dict_obj \<Rightarrow> 'f \<Rightarrow> 'f dict_obj" where
  "copy_with_distance ob d =
     GymWithDistance (case ob of Gym g \<Rightarrow> with_distance g d | GymWithDistance r \<Rightarrow> r\<lparr>distance := d\<rparr>)"

definition new_dict :: "'f heap \<Rightarrow> 'f dict_obj \<Rightarrow> 'f heap \<times> ref" where
  "new_dict h ob = (h\<lparr>dict_objs := dict_objs h @ [ob]\<rparr>, length (dict_objs h))"

definition new_list :: "'f heap \<Rightarrow> ref list \<Rightarrow> 'f heap \<times> ref" where
  "new_list h xs = (h\<lparr>list_objs := list_objs h @ [xs]\<rparr>, length (list_objs h))"

definition list_append :: "'f heap \<Rightarrow> ref \<Rightarrow> ref \<Rightarrow> 'f heap" where
  "list_append h l a = h\<lparr>list_objs := (list_objs h)[l := list_objs h ! l @ [a]]\<rparr>"

text \<open>Every address held is the address of an object (Python has no dangling reference).\<close>

definition wf_heap :: "'f heap \<Rightarrow> bool" where
  "wf_heap h =
     (self_gyms h < length (list_objs h) \<and> (\<forall>l \<in> set (list_objs h). \<forall>a \<in> set l. a < length (dict_objs h)))"

text \<open>The records the store holds, in order: what \<^verbatim>\<open>self.gyms\<close> shows when it is read.\<close>

definition stored_gyms :: "'f heap \<Rightarrow> 'f dict_obj list" where
  "stored_gyms h = map (\<lambda>a. dict_objs h ! a) (list_objs h ! self_gyms h)"

text \<open>
  \<^verbatim>\<open>get_gyms_by_partner\<close> returns \<^verbatim>\<open>self.gyms\<close> itself for an empty filter and a new list
  of the same dictionaries otherwise; \<^verbatim>\<open>get_gym_by_id\<close> returns the dictionary it found.
\<close>

definition get_gyms_by_partner_obj :: "'f pylib \<Rightarrow> 'f heap \<Rightarrow> string \<Rightarrow> 'f heap \<times> ref" where
  "get_gyms_by_partner_obj L h partner =
     (if partner = [] then (h, self_gyms h)
      else new_list h (filter (\<lambda>a. str_lower L (partner_name (obj_gym (dict_objs h ! a)))
                                     = str_lower L partner)
                              (list_objs h ! self_gyms h)))"

definition get_gym_by_id_obj :: "'f heap \<Rightarrow> int \<Rightarrow> ref option" where
  "get_gym_by_id_obj h gym_id =
     find (\<lambda>a. id' (obj_gym (dict_objs h ! a)) = gym_id) (list_objs h ! self_gyms h)"

text \<open>What a caller can do with a reference it was given: assign to the object behind it.\<close>

definition caller_sets_dict :: "'f heap \<Rightarrow> ref \<Rightarrow> 'f dict_obj \<Rightarrow> 'f heap" where
  "caller_sets_dict h a ob = h\<lparr>dict_objs := (dict_objs h)[a := ob]\<rparr>"

definition caller_sets_list :: "'f heap \<Rightarrow> ref \<Rightarrow> ref list \<Rightarrow> 'f heap" where
  "caller_sets_list h l xs = h\<lparr>list_objs := (list_objs h)[l := xs]\<rparr>"

text \<open>
  The loop of \<^verbatim>\<open>get_nearby_gyms\<close> over the addresses \<open>as\<close>: the distance of the gym at an
  address, a copy of it with that distance, appended to the list \<^verbatim>\<open>gyms_with_distance\<close> at
  address \<open>gwd\<close>. A distance that raises ends the loop: the exception leaves the function,
  and the objects made so far stay in the store of objects (as garbage).
\<close>

fun nearby_loop ::
  "('f, 'k) pymath \<Rightarrow> 'f \<Rightarrow> 'f \<Rightarrow> ref \<Rightarrow> ref list \<Rightarrow> 'f heap \<Rightarrow> 'f heap \<times> error option" where
  "nearby_loop M user_lat user_lon gwd [] h = (h, None)"
| "nearby_loop M user_lat user_lon gwd (a # as) h =
     (let gym_ob = dict_objs h ! a in
      case haversine_distance M user_lat user_lon
             (latitude (obj_gym gym_ob)) (longitude (obj_gym gym_ob)) of
        Inl e \<Rightarrow> (h, Some e)
      | Inr d \<Rightarrow>
          (let (h', gym_copy) = new_dict h (copy_with_distance gym_ob d)
           in nearby_loop M user_lat user_lon gwd as (list_append h' gwd gym_copy)))"

text \<open>
  \<^verbatim>\<open>xs.sort(key=lambda x: x['distance'])\<close> in place: the keys are computed first (a
  dictionary without the key raises \<^verbatim>\<open>KeyError\<close>), then the list is sorted by key.
\<close>

definition sort_refs :: "('f, 'k::linorder) pymath \<Rightarrow> ('f \<times> ref) list \<Rightarrow> ref list" where
  "sort_refs M kcs =
     (if list_all (\<lambda>(k, c). fkey M k \<noteq> None) kcs
      then map snd (sort_key (\<lambda>(k, c). the (fkey M k)) kcs)
      else sort_refs_with_nan M kcs)"

definition sort_by_distance_obj ::
  "('f, 'k::linorder) pymath \<Rightarrow> 'f heap \<Rightarrow> ref \<Rightarrow> 'f heap \<times> error option" where
  "sort_by_distance_obj M h l =
     (case those (map (\<lambda>c. obj_distance (dict_objs h ! c)) (list_objs h ! l)) of
        None \<Rightarrow> (h, Some KeyError)
      | Some ks \<Rightarrow>
          (h\<lparr>list_objs := (list_objs h)[l := sort_refs M (zip ks (list_objs h ! l))]\<rparr>, None))"

text \<open>The function returns the store of objects as it leaves it, and an address or an exception.\<close>

definition get_nearby_gyms_obj ::
  "('f, 'k::linorder) pymath \<Rightarrow> 'f pylib \<Rightarrow> 'f heap \<Rightarrow> 'f \<Rightarrow> 'f \<Rightarrow> string option \<Rightarrow> int
     \<Rightarrow> 'f heap \<times> (error + ref)" where
  "get_nearby_gyms_obj M L h user_lat user_lon partner limit =
     (let (h1, gs) = (case partner of
                        None \<Rightarrow> (h, self_gyms h)
                      | Some p \<Rightarrow> if p \<noteq> [] then get_gyms_by_partner_obj L h p else (h, self_gyms h));
          (h2, gwd) = new_list h1 []
      in case nearby_loop M user_lat user_lon gwd (list_objs h2 ! gs) h2 of
           (h3, Some e) \<Rightarrow> (h3, Inl e)
         | (h3, None) \<Rightarrow>
             (case sort_by_distance_obj M h3 gwd of
                (h4, Some e) \<Rightarrow> (h4, Inl e)
              | (h4, None) \<Rightarrow>
                  (let (h5, r) = new_list h4 (py_slice_to (list_objs h4 ! gwd) limit)
                   in (h5, Inr r))))"

subsection \<open>Subscription plans\<close>

text \<open>
  \<^verbatim>\<open>int(base_monthly * 3 * 0.93)\<close> is an integer product, its conversion to a double, a
  double multiplication and a truncation. A finite double is written \<open>Dyadic m k\<close>, the
  number \<open>m / 2 ^ k\<close>; \<open>Infinite\<close> is an overflowed product.

  \<open>round53\<close> rounds an integer to the nearest one with at most 53 significant bits, ties
  to even: the rounding of IEEE 754 binary64 (results in the subnormal range, which no
  product of an integer and one of the four constants below reaches, are not treated).
\<close>

datatype pyfloat = Dyadic int nat | Infinite

definition round53 :: "int \<Rightarrow> int" where
  "round53 n =
     (let a = \<bar>n\<bar>; b = bitlen a
      in if b \<le> 53 then n
         else (let s = nat (b - 53);
                   q = a div 2 ^ s;
                   r = a mod 2 ^ s;
                   half = 2 ^ (s - 1);
                   q' = (if half < r \<or> (r = half \<and> odd q) then q + 1 else q)
               in sgn n * (q' * 2 ^ s)))"

text \<open>\<^verbatim>\<open>float(n)\<close>, which raises \<^verbatim>\<open>OverflowError\<close> beyond the range of a double.\<close>

definition float_of_int :: "int \<Rightarrow> error + pyfloat" where
  "float_of_int n =
     (let r = round53 n in if 2 ^ 1024 \<le> \<bar>r\<bar> then Inl OverflowError else Inr (Dyadic r 0))"

fun float_mul :: "pyfloat \<Rightarrow> pyfloat \<Rightarrow> pyfloat" where
  "float_mul (Dyadic m1 k1) (Dyadic m2 k2) =
     (let r = round53 (m1 * m2)
      in if 2 ^ (1024 + k1 + k2) \<le> \<bar>r\<bar> then Infinite else Dyadic r (k1 + k2))"
| "float_mul _ _ = Infinite"

text \<open>\<^verbatim>\<open>int(x)\<close> truncates towards zero and raises \<^verbatim>\<open>OverflowError\<close> on an infinity.\<close>

fun int_of_float :: "pyfloat \<Rightarrow> error + int" where
  "int_of_float (Dyadic m k) = Inr (sgn m * (\<bar>m\<bar> div 2 ^ k))"
| "int_of_float Infinite = Inl OverflowError"

text \<open>\<^verbatim>\<open>int(n * c)\<close> for an integer \<open>n\<close> and a double \<open>c\<close>.\<close>

definition int_mul_float :: "int \<Rightarrow> pyfloat \<Rightarrow> error + int" where
  "int_mul_float n c =
     (case float_of_int n of Inl e \<Rightarrow> Inl e | Inr x \<Rightarrow> int_of_float (float_mul x c))"

text \<open>The doubles nearest to 0.93, 0.83, 0.07 and 0.17.\<close>

definition c_0_93 :: pyfloat where "c_0_93 = Dyadic 8376695306909123 53"
definition c_0_83 :: pyfloat where "c_0_83 = Dyadic 7475975381435023 53"
definition c_0_07 :: pyfloat where "c_0_07 = Dyadic 1261007895663739 54"
definition c_0_17 :: pyfloat where "c_0_17 = Dyadic 6124895493223875 55"

record plan =
  duration :: string
  total :: int
  monthly :: int
  savings :: int

text \<open>The dictionary of plans, in the order of its keys; an exception of an entry leaves the function.\<close>

definition calculate_subscription_plans :: "int \<Rightarrow> error + (string \<times> plan) list" where
  "calculate_subscription_plans base_monthly =
     bind_err (int_mul_float (base_monthly * 3) c_0_93) (\<lambda>total3.
     bind_err (int_mul_float base_monthly c_0_93) (\<lambda>monthly3.
     bind_err (int_mul_float (base_monthly * 3) c_0_07) (\<lambda>savings3.
     bind_err (int_mul_float (base_monthly * 12) c_0_83) (\<lambda>total12.
     bind_err (int_mul_float base_monthly c_0_83) (\<lambda>monthly12.
     bind_err (int_mul_float (base_monthly * 12) c_0_17) (\<lambda>savings12.
       Inr [ (''1-month'', \<lparr> duration = ''1 month'', total = base_monthly,
                             monthly = base_monthly, savings = 0 \<rparr>),
             (''3-month'', \<lparr> duration = ''3 months'', total = total3,
                             monthly = monthly3, savings = savings3 \<rparr>),
             (''12-month'', \<lparr> duration = ''12 months'', total = total12,
                              monthly = monthly12, savings = savings12 \<rparr>) ]))))))"

subsection \<open>The subscription request log\<close>

text \<open>Decimal digits: \<^verbatim>\<open>str(n)\<close> and \<^verbatim>\<open>f"{n:03d}"\<close> for a natural number, and the number read back.\<close>

definition digit_char :: "nat \<Rightarrow> char" where
  "digit_char d = ''0123456789'' ! (d mod 10)"

fun str_of_nat :: "nat \<Rightarrow> string" where
  "str_of_nat n = (if n < 10 then [digit_char n] else str_of_nat (n div 10) @ [digit_char (n mod 10)])"

definition format_03d :: "nat \<Rightarrow> string" where
  "format_03d n = replicate (3 - length (str_of_nat n)) (CHR ''0'') @ str_of_nat n"

definition digit_val :: "char \<Rightarrow> nat" where
  "digit_val c = of_char c - 48"

definition nat_of_str :: "string \<Rightarrow> nat" where
  "nat_of_str s = foldl (\<lambda>acc c. 10 * acc + digit_val c) 0 s"

text \<open>
  The dictionary \<^verbatim>\<open>request_data\<close> (the fields of SubscriptionRequest). A key read with
  \<^verbatim>\<open>.get\<close> may be absent (\<open>None\<close>); the value of \<^verbatim>\<open>message\<close> may itself be \<^verbatim>\<open>None\<close>.
\<close>

record 'f request_data =
  rd_gym_id :: int
  rd_gym_name :: string
  rd_partner_name :: string
  rd_full_name :: string
  rd_email :: string
  rd_phone :: string
  rd_preferred_plan :: string
  rd_billing_address :: "string option"
  rd_message :: "string option option"
  rd_user_latitude :: "'f option"
  rd_user_longitude :: "'f option"
  rd_user_city :: "string option"

record 'f request =
  request_id :: string
  timestamp :: string
  req_gym_id :: int
  req_gym_name :: string
  req_partner_name :: string
  full_name :: string
  email :: string
  phone :: string
  preferred_plan :: string
  billing_address :: string
  message :: "string option"
  user_latitude :: "'f option"
  user_longitude :: "'f option"
  user_city :: "string option"
  status :: string

text \<open>
  The state of a \<^verbatim>\<open>SubscriptionManager\<close>: the list under \<^verbatim>\<open>"requests"\<close> in the JSON file
  (\<open>None\<close> when the file is missing, unreadable or holds no such list), and whether
  opening the file for writing succeeds.
\<close>

record 'f SubscriptionManager =
  json :: "'f request list option"
  json_writable :: bool

definition get_all_requests :: "'f SubscriptionManager \<Rightarrow> 'f request list" where
  "get_all_requests m = (case json m of None \<Rightarrow> [] | Some rs \<Rightarrow> rs)"

text \<open>
  \<^verbatim>\<open>save_request\<close>; \<open>date_str\<close> and \<open>now\<close> are what \<^verbatim>\<open>datetime.now()\<close> gives the call
  (\<^verbatim>\<open>strftime('%Y%m%d')\<close> and \<^verbatim>\<open>isoformat()\<close>). The \<^verbatim>\<open>open\<close> for writing is outside any
  \<^verbatim>\<open>try\<close>: its failure leaves the function.
\<close>

definition save_request ::
  "string \<Rightarrow> string \<Rightarrow> 'f SubscriptionManager \<Rightarrow> 'f request_data
     \<Rightarrow> error + string \<times> 'f SubscriptionManager" where
  "save_request date_str now m request_data =
     (let requests = get_all_requests m;
          request_count =
            length (filter (\<lambda>r. prefix (''REQ_'' @ date_str) (request_id r)) requests) + 1;
          new_id = ''REQ_'' @ date_str @ ''_'' @ format_03d request_count;
          new_request =
            \<lparr> request_id = new_id, timestamp = now,
              req_gym_id = rd_gym_id request_data, req_gym_name = rd_gym_name request_data,
              req_partner_name = rd_partner_name request_data,
              full_name = rd_full_name request_data, email = rd_email request_data,
              phone = rd_phone request_data, preferred_plan = rd_preferred_plan request_data,
              billing_address = (case rd_billing_address request_data of None \<Rightarrow> [] | Some v \<Rightarrow> v),
              message = (case rd_message request_data of None \<Rightarrow> Some [] | Some v \<Rightarrow> v),
              user_latitude = rd_user_latitude request_data,
              user_longitude = rd_user_longitude request_data,
              user_city = rd_user_city request_data, status = ''pending'' \<rparr>
      in if json_writable m
         then Inr (new_id, m\<lparr>json := Some (requests @ [new_request])\<rparr>)
         else Inl OSError)"


section \<open>Notions used in the statements\<close>

text \<open>
  A row that \<^verbatim>\<open>load_gyms\<close> can turn into a record: it has the eight cells, \<^verbatim>\<open>float\<close>
  accepts its latitude and longitude and \<^verbatim>\<open>int\<close> accepts its amount.
\<close>

definition has_float :: "'f pylib \<Rightarrow> string option \<Rightarrow> bool" where
  "has_float L c = (case c of None \<Rightarrow> False | Some t \<Rightarrow> float_of_str L t \<noteq> None)"

definition has_int :: "'f pylib \<Rightarrow> string option \<Rightarrow> bool" where
  "has_int L c = (case c of None \<Rightarrow> False | Some t \<Rightarrow> int_of_str L t \<noteq> None)"

definition row_parses :: "'f pylib \<Rightarrow> row \<Rightarrow> bool" where
  "row_parses L r =
     (r ''PartnerName'' \<noteq> None \<and> r ''GymName'' \<noteq> None \<and> r ''Address'' \<noteq> None \<and>
      r ''Pincode'' \<noteq> None \<and> r ''Amenities'' \<noteq> None \<and>
      has_float L (r ''Latitude'') \<and> has_float L (r ''Longitude'') \<and>
      has_int L (r ''SubscriptionAmount''))"

text \<open>
  The record that the specification describes for such a row and its position in the file:
  the texts trimmed, the numbers parsed, the position as identifier.
\<close>

definition row_record :: "'f pylib \<Rightarrow> int \<Rightarrow> row \<Rightarrow> 'f gym" where
  "row_record L position r =
     \<lparr> partner_name = str_strip L (the (r ''PartnerName'')),
       gym_name = str_strip L (the (r ''GymName'')),
       address = str_strip L (the (r ''Address'')),
       pincode = str_strip L (the (r ''Pincode'')),
       latitude = the (float_of_str L (the (r ''Latitude''))),
       longitude = the (float_of_str L (the (r ''Longitude''))),
       subscription_amount = the (int_of_str L (the (r ''SubscriptionAmount''))),
       amenities = str_strip L (the (r ''Amenities'')),
       id' = position \<rparr>"

text \<open>
  A text survives being written and read back when the reader yields it as it was written
  (it holds no carriage return and no more than \<open>csv_field_limit\<close> characters, lemma
  \<open>read_cell_same\<close>) and \<^verbatim>\<open>strip\<close> leaves it as it is; a number, when the text that
  \<^verbatim>\<open>str\<close> gives for it is read back and parsed to the same number. A record survives
  when its five texts and three numbers do.
\<close>

definition text_round_trips :: "'f pylib \<Rightarrow> string \<Rightarrow> bool" where
  "text_round_trips L t = (read_cell t = Some t \<and> str_strip L t = t)"

definition round_trips :: "'f pylib \<Rightarrow> 'f gym \<Rightarrow> bool" where
  "round_trips L g =
     (text_round_trips L (partner_name g) \<and> text_round_trips L (gym_name g) \<and>
      text_round_trips L (address g) \<and> text_round_trips L (pincode g) \<and>
      text_round_trips L (amenities g) \<and>
      Option.bind (read_cell (str_of_float L (latitude g))) (float_of_str L) = Some (latitude g) \<and>
      Option.bind (read_cell (str_of_float L (longitude g))) (float_of_str L) = Some (longitude g) \<and>
      Option.bind (read_cell (str_of_int L (subscription_amount g))) (int_of_str L)
        = Some (subscription_amount g))"

text \<open>
  The laws of float arithmetic behind the symmetry of the distance: multiplication commutes,
  and the squared sine of half a difference is the same for both orders of the difference
  (when \<open>x\<close> and \<open>y\<close> differ, \<open>y - x\<close> is the negation of \<open>x - y\<close>, halving keeps that, the
  sine is odd and the square of a number is that of its negation; when they are equal
  both differences are the same zero; an infinite or undefined difference is so in both
  orders).
\<close>

definition sin_half_squared :: "('f, 'k) pymath \<Rightarrow> 'f \<Rightarrow> error + 'f" where
  "sin_half_squared M x =
     bind_err (or_raise ValueError (msin M (fdiv M x (float_2 M))))
       (\<lambda>s. or_raise OverflowError (fpow M s (float_2 M)))"

definition symmetric_arithmetic :: "('f, 'k) pymath \<Rightarrow> bool" where
  "symmetric_arithmetic M =
     ((\<forall>x y. fmul M x y = fmul M y x) \<and>
      (\<forall>x y. sin_half_squared M (fsub M y x) = sin_half_squared M (fsub M x y)))"

text \<open>
  The float \<open>z\<close> is a zero of the runtime: its half, sine, square, root and arcsine are
  \<open>z\<close>, so are its sum with itself, its products with the constants and its rounding.
\<close>

definition zero_float :: "('f, 'k) pymath \<Rightarrow> 'f \<Rightarrow> bool" where
  "zero_float M z =
     (fdiv M z (float_2 M) = z \<and> msin M z = Some z \<and> fpow M z (float_2 M) = Some z \<and>
      fadd M z z = z \<and> msqrt M z = Some z \<and> masin M z = Some z \<and>
      fmul M (float_2 M) z = z \<and> fmul M (float_6371 M) z = z \<and> round2 M z = z)"

text \<open>
  A valid coordinate \<open>x\<close>: its difference with itself is the zero \<open>z\<close> (no infinity, no NaN),
  and as a latitude it has a cosine, the square of which times \<open>z\<close> is \<open>z\<close>.
\<close>

definition valid_longitude :: "('f, 'k) pymath \<Rightarrow> 'f \<Rightarrow> 'f \<Rightarrow> bool" where
  "valid_longitude M z x = (fsub M (radians M x) (radians M x) = z)"

definition valid_latitude :: "('f, 'k) pymath \<Rightarrow> 'f \<Rightarrow> 'f \<Rightarrow> bool" where
  "valid_latitude M z x =
     (fsub M (radians M x) (radians M x) = z \<and>
      (case mcos M (radians M x) of None \<Rightarrow> False | Some c \<Rightarrow> fmul M (fmul M c c) z = z))"

text \<open>The distance of a gym from the query point, and the gyms that \<^verbatim>\<open>get_nearby_gyms\<close> ranks.\<close>

definition gym_distance :: "('f, 'k) pymath \<Rightarrow> 'f \<Rightarrow> 'f \<Rightarrow> 'f gym \<Rightarrow> error + 'f" where
  "gym_distance M user_lat user_lon g =
     haversine_distance M user_lat user_lon (latitude g) (longitude g)"

definition candidates :: "'f pylib \<Rightarrow> 'f GymDatabase \<Rightarrow> string option \<Rightarrow> 'f gym list" where
  "candidates L s partner =
     (case partner of
        None \<Rightarrow> gyms s
      | Some p \<Rightarrow> if p = [] then gyms s
                  else filter (\<lambda>g. str_lower L (partner_name g) = str_lower L p) (gyms s))"

text \<open>
  The place of a gym in the ranking: the key of its distance, \<open>None\<close> when the distance
  raises or is a NaN. The distances of a list are ordered when every gym has a place.
\<close>

definition gym_rank :: "('f, 'k) pymath \<Rightarrow> 'f \<Rightarrow> 'f \<Rightarrow> 'f gym \<Rightarrow> 'k option" where
  "gym_rank M user_lat user_lon g =
     (case gym_distance M user_lat user_lon g of Inl e \<Rightarrow> None | Inr d \<Rightarrow> fkey M d)"

definition distances_ordered :: "('f, 'k) pymath \<Rightarrow> 'f \<Rightarrow> 'f \<Rightarrow> 'f gym list \<Rightarrow> bool" where
  "distances_ordered M user_lat user_lon gs =
     list_all (\<lambda>g. gym_rank M user_lat user_lon g \<noteq> None) gs"


text \<open>
  The store of objects \<open>h'\<close> keeps the store \<open>h\<close>: \<^verbatim>\<open>self.gyms\<close> is the same address, and the
  dictionaries and lists of \<open>h\<close> are there, at their addresses, as they were.
\<close>

definition keeps :: "'f heap \<Rightarrow> 'f heap \<Rightarrow> bool" where
  "keeps h h' =
     (self_gyms h' = self_gyms h \<and> prefix (dict_objs h) (dict_objs h') \<and>
      prefix (list_objs h) (list_objs h'))"

text \<open>The list at \<open>l\<close> holds dictionaries made after the first \<open>n\<close>, each with a distance.\<close>

definition fresh_copies :: "nat \<Rightarrow> 'f heap \<Rightarrow> ref \<Rightarrow> bool" where
  "fresh_copies n h l =
     list_all (\<lambda>c. n \<le> c \<and> c < length (dict_objs h) \<and> obj_distance (dict_objs h ! c) \<noteq> None)
       (list_objs h ! l)"

text \<open>
  Whatever order \<^verbatim>\<open>list.sort\<close> leaves on keys with a NaN, the list holds the elements it
  held.
\<close>

definition sort_keeps_elements :: "('f, 'k) pymath \<Rightarrow> bool" where
  "sort_keeps_elements M = (\<forall>kcs. set (sort_refs_with_nan M kcs) = snd ` set kcs)"

section \<open>Concrete states\<close>

text \<open>
  A runtime for the examples. Its strings are ASCII: \<^verbatim>\<open>strip\<close> removes the ASCII white
  space and \<^verbatim>\<open>lower\<close> folds the letters A to Z. Numbers are written in decimal.
\<close>

definition demo_isspace :: "char \<Rightarrow> bool" where
  "demo_isspace c = (c \<in> set [CHR 0x09, CHR 0x0A, CHR 0x0B, CHR 0x0C, CHR 0x0D,
                               CHR 0x1C, CHR 0x1D, CHR 0x1E, CHR 0x1F, CHR 0x20])"

definition demo_strip :: "string \<Rightarrow> string" where
  "demo_strip s = rev (dropWhile demo_isspace (rev (dropWhile demo_isspace s)))"

definition demo_lower_char :: "char \<Rightarrow> char" where
  "demo_lower_char c =
     (if of_char c \<ge> (65::nat) \<and> of_char c \<le> (90::nat) then char_of (of_char c + (32::nat)) else c)"

definition demo_lower :: "string \<Rightarrow> string" where
  "demo_lower s = map demo_lower_char s"

definition isdigit :: "char \<Rightarrow> bool" where
  "isdigit c = (48 \<le> (of_char c :: nat) \<and> (of_char c :: nat) \<le> 57)"

definition demo_str :: "int \<Rightarrow> string" where
  "demo_str n = (if n < 0 then CHR ''-'' # str_of_nat (nat (- n)) else str_of_nat (nat n))"

definition demo_parse :: "string \<Rightarrow> int option" where
  "demo_parse s =
     (case s of
        [] \<Rightarrow> None
      | c # cs \<Rightarrow>
          if c = CHR ''-''
          then (if cs \<noteq> [] \<and> list_all isdigit cs then Some (- int (nat_of_str cs)) else None)
          else (if list_all isdigit s then Some (int (nat_of_str s)) else None))"

text \<open>
  The floats of the examples: the rational numbers, the two infinities and a NaN, with the
  arithmetic of IEEE 754 on them but no rounding and no overflow.
\<close>

datatype dfloat = Fin rat | PInf | NInf | NaN

fun d_neg :: "dfloat \<Rightarrow> dfloat" where
  "d_neg (Fin x) = Fin (- x)"
| "d_neg PInf = NInf"
| "d_neg NInf = PInf"
| "d_neg NaN = NaN"

fun d_add :: "dfloat \<Rightarrow> dfloat \<Rightarrow> dfloat" where
  "d_add (Fin x) (Fin y) = Fin (x + y)"
| "d_add (Fin x) PInf = PInf"
| "d_add (Fin x) NInf = NInf"
| "d_add PInf (Fin y) = PInf"
| "d_add PInf PInf = PInf"
| "d_add NInf (Fin y) = NInf"
| "d_add NInf NInf = NInf"
| "d_add x y = NaN"

definition d_sub :: "dfloat \<Rightarrow> dfloat \<Rightarrow> dfloat" where
  "d_sub x y = d_add x (d_neg y)"

definition d_inf :: "bool \<Rightarrow> dfloat" where
  "d_inf positive = (if positive then PInf else NInf)"

fun d_mul :: "dfloat \<Rightarrow> dfloat \<Rightarrow> dfloat" where
  "d_mul (Fin x) (Fin y) = Fin (x * y)"
| "d_mul (Fin x) PInf = (if x = 0 then NaN else d_inf (0 < x))"
| "d_mul (Fin x) NInf = (if x = 0 then NaN else d_inf (x < 0))"
| "d_mul PInf (Fin y) = (if y = 0 then NaN else d_inf (0 < y))"
| "d_mul NInf (Fin y) = (if y = 0 then NaN else d_inf (y < 0))"
| "d_mul PInf PInf = PInf"
| "d_mul PInf NInf = NInf"
| "d_mul NInf PInf = NInf"
| "d_mul NInf NInf = PInf"
| "d_mul x y = NaN"

text \<open>The examples divide by 2 and raise to the power 2 only.\<close>

fun d_half :: "dfloat \<Rightarrow> dfloat" where
  "d_half (Fin x) = Fin (x / 2)"
| "d_half x = x"

definition d_div :: "dfloat \<Rightarrow> dfloat \<Rightarrow> dfloat" where
  "d_div x y = (if y = Fin 2 then d_half x else NaN)"

definition d_pow :: "dfloat \<Rightarrow> dfloat \<Rightarrow> dfloat option" where
  "d_pow x y = (if y = Fin 2 then Some (d_mul x x) else Some NaN)"

text \<open>
  The functions of \<^verbatim>\<open>math\<close> have the domains of the real ones and raise outside them; on
  rational numbers they are the approximations \<open>sin x = x\<close>, \<open>cos x = 1\<close>, \<open>asin x = x\<close>, and
  the root is the identity on the numbers that have a root. A degree is 1/64 radian.
\<close>

fun d_radians :: "dfloat \<Rightarrow> dfloat" where
  "d_radians (Fin x) = Fin (x / 64)"
| "d_radians x = x"

fun d_sin :: "dfloat \<Rightarrow> dfloat option" where
  "d_sin (Fin x) = Some (Fin x)"
| "d_sin NaN = Some NaN"
| "d_sin x = None"

fun d_cos :: "dfloat \<Rightarrow> dfloat option" where
  "d_cos (Fin x) = Some (Fin 1)"
| "d_cos NaN = Some NaN"
| "d_cos x = None"

fun d_sqrt :: "dfloat \<Rightarrow> dfloat option" where
  "d_sqrt (Fin x) = (if x < 0 then None else Some (Fin x))"
| "d_sqrt PInf = Some PInf"
| "d_sqrt NInf = None"
| "d_sqrt NaN = Some NaN"

fun d_asin :: "dfloat \<Rightarrow> dfloat option" where
  "d_asin (Fin x) = (if - 1 \<le> x \<and> x \<le> 1 then Some (Fin x) else None)"
| "d_asin NaN = Some NaN"
| "d_asin x = None"

text \<open>The order of \<^verbatim>\<open><\<close>: the infinities below and above the numbers, a NaN nowhere.\<close>

fun d_key :: "dfloat \<Rightarrow> (int \<times> rat) option" where
  "d_key (Fin x) = Some (0, x)"
| "d_key PInf = Some (1, 0)"
| "d_key NInf = Some (- 1, 0)"
| "d_key NaN = None"

text \<open>On keys with a NaN, the sort of the examples leaves the list as it is.\<close>

definition demo_math :: "(dfloat, int \<times> rat) pymath" where
  "demo_math =
     \<lparr> radians = d_radians, msin = d_sin, mcos = d_cos, msqrt = d_sqrt, masin = d_asin,
       fadd = d_add, fsub = d_sub, fmul = d_mul, fdiv = d_div, fpow = d_pow,
       round2 = (\<lambda>x. x), float_2 = Fin 2, float_6371 = Fin 6371, fkey = d_key,
       sort_with_nan = (\<lambda>xs. xs), sort_refs_with_nan = map snd \<rparr>"

text \<open>The texts of the floats of the examples: the whole numbers, the infinities and NaN.\<close>

fun demo_str_float :: "dfloat \<Rightarrow> string" where
  "demo_str_float (Fin x) = (if of_int \<lfloor>x\<rfloor> = x then demo_str \<lfloor>x\<rfloor> else ''?'')"
| "demo_str_float PInf = ''inf''"
| "demo_str_float NInf = ''-inf''"
| "demo_str_float NaN = ''nan''"

definition demo_parse_float :: "string \<Rightarrow> dfloat option" where
  "demo_parse_float s =
     (if s = ''inf'' then Some PInf else if s = ''-inf'' then Some NInf
      else if s = ''nan'' then Some NaN
      else map_option (\<lambda>n. Fin (of_int n)) (demo_parse s))"

definition demo_lib :: "dfloat pylib" where
  "demo_lib = \<lparr> float_of_str = demo_parse_float, int_of_str = demo_parse,
                str_of_float = demo_str_float, str_of_int = demo_str,
                str_strip = demo_strip, str_lower = demo_lower \<rparr>"

definition gym_a :: "dfloat gym" where
  "gym_a = \<lparr> partner_name = ''Cult'', gym_name = ''Cult Andheri'', address = ''Link Road'',
             pincode = ''400053'', latitude = Fin 19, longitude = Fin 72,
             subscription_amount = 2499, amenities = ''Pool, Sauna'', id' = 1 \<rparr>"

definition gym_b :: "dfloat gym" where
  "gym_b = \<lparr> partner_name = ''Golds'', gym_name = ''Golds Bandra'', address = ''Hill Road'',
             pincode = ''400050'', latitude = Fin 19, longitude = Fin 73,
             subscription_amount = 1999, amenities = ''Cardio'', id' = 2 \<rparr>"

definition example_rows :: "row list" where
  "example_rows =
     [ [ ''PartnerName'' \<mapsto> '' Cult '', ''GymName'' \<mapsto> ''Cult Andheri'',
         ''Address'' \<mapsto> ''Link Road'', ''Pincode'' \<mapsto> ''400053'', ''Latitude'' \<mapsto> ''19'',
         ''Longitude'' \<mapsto> ''72'', ''SubscriptionAmount'' \<mapsto> ''2499'',
         ''Amenities'' \<mapsto> ''Pool, Sauna'' ],
       [ ''PartnerName'' \<mapsto> ''Golds'', ''GymName'' \<mapsto> ''Golds Bandra'',
         ''Address'' \<mapsto> ''Hill Road'', ''Pincode'' \<mapsto> ''400050'', ''Latitude'' \<mapsto> ''19'',
         ''Longitude'' \<mapsto> ''73'', ''SubscriptionAmount'' \<mapsto> ''1999'',
         ''Amenities'' \<mapsto> ''Cardio'' ] ]"



text \<open>A store before its first load, and the store that \<^verbatim>\<open>load_gyms\<close> makes of it.\<close>

definition unloaded_db :: "dfloat GymDatabase" where
  "unloaded_db = \<lparr> gyms = [], csv = Content example_rows, writable = True \<rparr>"

definition example_db :: "dfloat GymDatabase" where
  "example_db = \<lparr> gyms = [gym_a, gym_b], csv = Content example_rows, writable = True \<rparr>"

definition example_gym_data :: "dfloat gym_data" where
  "example_gym_data =
     \<lparr> partner_name = ''Cult'', gym_name = ''Cult Powai'', address = ''Lake Road'',
       pincode = ''400076'', latitude = Fin 19, longitude = Fin 74,
       subscription_amount = 2999, amenities = ''Yoga'' \<rparr>"

text \<open>A request, an empty log, and a log that holds 998 requests of one day.\<close>

definition example_request_data :: "int request_data" where
  "example_request_data =
     \<lparr> rd_gym_id = 1, rd_gym_name = ''Cult Andheri'', rd_partner_name = ''Cult'',
       rd_full_name = ''Asha Rao'', rd_email = ''asha@example.com'', rd_phone = ''9876543210'',
       rd_preferred_plan = ''3-month'', rd_billing_address = Some ''Link Road'',
       rd_message = Some (Some []), rd_user_latitude = None, rd_user_longitude = None,
       rd_user_city = None \<rparr>"

definition example_request :: "nat \<Rightarrow> int request" where
  "example_request i =
     \<lparr> request_id = ''REQ_20261104_'' @ format_03d i, timestamp = ''2026-11-04T10:00:00'',
       req_gym_id = 1, req_gym_name = ''Cult Andheri'', req_partner_name = ''Cult'',
       full_name = ''Asha Rao'', email = ''asha@example.com'', phone = ''9876543210'',
       preferred_plan = ''3-month'', billing_address = ''Link Road'', message = Some [],
       user_latitude = None, user_longitude = None, user_city = None, status = ''pending'' \<rparr>"

definition empty_log :: "int SubscriptionManager" where
  "empty_log = \<lparr> json = Some [], json_writable = True \<rparr>"

definition busy_log :: "int SubscriptionManager" where
  "busy_log = \<lparr> json = Some (map example_request [1..<999]), json_writable = True \<rparr>"

text \<open>The two example gyms as objects, and \<^verbatim>\<open>self.gyms\<close> as the list of both.\<close>

definition example_heap :: "dfloat heap" where
  "example_heap = \<lparr> dict_objs = [Gym gym_a, Gym gym_b], list_objs = [[0, 1]], self_gyms = 0 \<rparr>"


section \<open>Properties of the gym store\<close>

subsection \<open>Identifiers\<close>

lemma gyms_save_to_csv: "gyms (save_to_csv L s) = gyms s"
  by (simp add: save_to_csv_def)

lemma py_max_Max: "xs \<noteq> [] \<Longrightarrow> py_max xs d = Max (set xs)"
  by (cases xs) (simp_all add: py_max_def Max.set_eq_fold[symmetric])

lemma py_max_ge: "x \<in> set xs \<Longrightarrow> x \<le> py_max xs d"
  using py_max_Max[of xs d] by (cases "xs = []") auto

lemma add_gym_new_id:
  "fst (add_gym L s d) = (if gyms s = [] then 1 else Max (id' ` set (gyms s)) + 1)"
  by (simp add: add_gym_def Let_def py_max_Max) (simp add: py_max_def)

lemma add_gym_new_id_greater:
  assumes "g \<in> set (gyms s)"
  shows "id' g < fst (add_gym L s d)"
proof -
  from assms have "id' g \<in> set (map id' (gyms s))" by simp
  then have "id' g \<le> py_max (map id' (gyms s)) 0" by (rule py_max_ge)
  then show ?thesis by (simp add: add_gym_def Let_def)
qed

lemma gyms_add_gym:
  "gyms (snd (add_gym L s d)) =
     gyms s @ [gym_data.extend d (gym.fields (fst (add_gym L s d)))]"
  by (simp add: add_gym_def Let_def gyms_save_to_csv gym_data.defs gym.defs)

lemma gyms_delete_gym:
  "gyms (snd (delete_gym L s k)) = filter (\<lambda>g. id' g \<noteq> k) (gyms s)"
  by (simp add: delete_gym_def Let_def gyms_save_to_csv)

text \<open>The rows of the examples, as \<^verbatim>\<open>load_gyms\<close> reads them.\<close>

lemma load_example_rows: "gyms (load_gyms demo_lib unloaded_db) = [gym_a, gym_b]"
  by (simp add: load_gyms_def unloaded_db_def example_rows_def gym_of_row_def demo_lib_def
      demo_parse_float_def demo_parse_def isdigit_def nat_of_str_def digit_val_def
      demo_strip_def demo_isspace_def gym_a_def gym_b_def)

text \<open>
  C1, as the code has it. \<^verbatim>\<open>add_gym\<close> gives the new record the largest identifier of the
  collection plus 1, and 1 when the collection is empty; the new identifier is therefore
  larger than every identifier in the collection, and an identifier that \<^verbatim>\<open>delete_gym\<close>
  removed is not given again as long as an identifier at least as large is in the collection.
\<close>

theorem add_gym_id:
  "fst (add_gym L s d) = (if gyms s = [] then 1 else Max (id' ` set (gyms s)) + 1)
   \<and> (\<forall>g \<in> set (gyms s). id' g < fst (add_gym L s d))
   \<and> (\<forall>k. (\<exists>g \<in> set (gyms s). k \<le> id' g) \<longrightarrow> fst (add_gym L s d) \<noteq> k)"
  using add_gym_new_id[of L s d] add_gym_new_id_greater[of _ s L d] by fastforce

theorem add_gym_id_witness:
  "gym_b \<in> set (gyms example_db) \<and> (2::int) \<le> id' gym_b
   \<and> id' gym_b < fst (add_gym demo_lib example_db example_gym_data)
   \<and> fst (add_gym demo_lib example_db example_gym_data) \<noteq> 2"
proof -
  have mem: "gym_b \<in> set (gyms example_db)" and le: "(2::int) \<le> id' gym_b"
    by (simp_all add: example_db_def gym_b_def)
  note spec = add_gym_id[of demo_lib example_db example_gym_data]
  from spec mem have "id' gym_b < fst (add_gym demo_lib example_db example_gym_data)"
    by blast
  moreover from spec mem le have "fst (add_gym demo_lib example_db example_gym_data) \<noteq> 2"
    by blast
  ultimately show ?thesis using mem le by blast
qed

text \<open>
  C1, as the specification words it, fails: the store loaded from the two example rows holds
  the identifiers 1 and 2; \<^verbatim>\<open>delete_gym(2)\<close> removes 2, and the next \<^verbatim>\<open>add_gym\<close> returns 2.
\<close>

theorem add_gym_reuses_deleted_id:
  "get_gym_by_id (load_gyms demo_lib unloaded_db) 2 \<noteq> None
   \<and> fst (delete_gym demo_lib (load_gyms demo_lib unloaded_db) 2)
   \<and> fst (add_gym demo_lib (snd (delete_gym demo_lib (load_gyms demo_lib unloaded_db) 2))
             example_gym_data) = 2"
  by (simp add: get_gym_by_id_def load_example_rows add_gym_def gyms_delete_gym Let_def)
     (simp add: delete_gym_def Let_def load_example_rows gym_a_def gym_b_def py_max_def)

subsection \<open>delete\_gym\<close>

lemma length_filter_neq_distinct:
  "distinct (map f xs) \<Longrightarrow> k \<in> f ` set xs \<Longrightarrow>
   length (filter (\<lambda>g. f g \<noteq> k) xs) + 1 = length xs"
proof (induction xs)
  case Nil
  then show ?case by simp
next
  case (Cons x xs)
  show ?case
  proof (cases "f x = k")
    case True
    with Cons.prems have "k \<notin> f ` set xs" by auto
    then have "filter (\<lambda>g. f g \<noteq> k) xs = xs" by (auto simp: filter_id_conv)
    with True show ?thesis by simp
  next
    case False
    with Cons show ?thesis by auto
  qed
qed

lemma find_filter_neq: "find (\<lambda>g. f g = k) (filter (\<lambda>g. f g \<noteq> k) xs) = None"
  by (simp add: find_None_iff)

text \<open>
  C7. In a store whose identifiers are distinct, \<^verbatim>\<open>delete_gym(id)\<close> returns True exactly
  when a record with that identifier is present; then the collection is one record
  shorter and \<^verbatim>\<open>get_gym_by_id(id)\<close> finds nothing; otherwise the call returns False and the
  store (collection and file) is what it was.
\<close>

theorem delete_gym_spec:
  assumes "distinct (map id' (gyms s))"
  shows "fst (delete_gym L s k) = (\<exists>g \<in> set (gyms s). id' g = k)
     \<and> (if fst (delete_gym L s k)
         then length (gyms (snd (delete_gym L s k))) + 1 = length (gyms s)
              \<and> get_gym_by_id (snd (delete_gym L s k)) k = None
         else snd (delete_gym L s k) = s)"
proof (cases "k \<in> id' ` set (gyms s)")
  case True
  then have len: "length (filter (\<lambda>g. id' g \<noteq> k) (gyms s)) + 1 = length (gyms s)"
    using assms by (rule length_filter_neq_distinct[rotated])
  then have lt: "length (filter (\<lambda>g. id' g \<noteq> k) (gyms s)) < length (gyms s)" by linarith
  have "fst (delete_gym L s k)"
    using lt by (simp add: delete_gym_def Let_def)
  moreover have "gyms (snd (delete_gym L s k)) = filter (\<lambda>g. id' g \<noteq> k) (gyms s)"
    by (rule gyms_delete_gym)
  ultimately show ?thesis
    using True len by (auto simp: get_gym_by_id_def find_filter_neq)
next
  case False
  then have same: "filter (\<lambda>g. id' g \<noteq> k) (gyms s) = gyms s"
    by (auto simp: filter_id_conv)
  then have "delete_gym L s k = (False, s)"
    by (simp add: delete_gym_def Let_def)
  with False show ?thesis by auto
qed

theorem delete_gym_spec_witness:
  "distinct (map id' (gyms example_db))
   \<and> fst (delete_gym demo_lib example_db 2)
   \<and> length (gyms (snd (delete_gym demo_lib example_db 2))) + 1 = length (gyms example_db)
   \<and> get_gym_by_id (snd (delete_gym demo_lib example_db 2)) 2 = None
   \<and> \<not> fst (delete_gym demo_lib example_db 7)
   \<and> snd (delete_gym demo_lib example_db 7) = example_db"
proof -
  have d: "distinct (map id' (gyms example_db))"
    by (simp add: example_db_def gym_a_def gym_b_def)
  have present: "\<exists>g \<in> set (gyms example_db). id' g = 2"
    and absent: "\<not> (\<exists>g \<in> set (gyms example_db). id' g = 7)"
    by (simp_all add: example_db_def gym_a_def gym_b_def)
  from delete_gym_spec[OF d, of demo_lib 2] present
  have two: "fst (delete_gym demo_lib example_db 2)"
    "length (gyms (snd (delete_gym demo_lib example_db 2))) + 1 = length (gyms example_db)"
    "get_gym_by_id (snd (delete_gym demo_lib example_db 2)) 2 = None"
    by (auto split: if_splits)
  from delete_gym_spec[OF d, of demo_lib 7] absent
  have seven: "\<not> fst (delete_gym demo_lib example_db 7)"
    "snd (delete_gym demo_lib example_db 7) = example_db"
    by (auto split: if_splits)
  from d two seven show ?thesis by blast
qed

subsection \<open>load\_gyms\<close>

lemma gym_of_row_parses: "row_parses L r \<Longrightarrow> gym_of_row L i r = Some (row_record L i r)"
  by (auto simp: row_parses_def has_float_def has_int_def gym_of_row_def row_record_def
      split: option.splits)

lemma gym_of_row_corrupt: "\<not> row_parses L r \<Longrightarrow> gym_of_row L i r = None"
  by (auto simp: row_parses_def has_float_def has_int_def gym_of_row_def
      split: option.splits Option.bind_splits)

lemma upto_Cons_length:
  "[i..i + int (length (x # xs)) - 1] = i # [i + 1..i + 1 + int (length xs) - 1]"
  by (simp add: upto_rec1[of i] add.commute add.left_commute)

lemma load_rows_parses:
  "list_all (row_parses L) rows \<Longrightarrow>
   load_rows L i rows
     = Some (map (\<lambda>(j, r). row_record L j r) (zip [i..i + int (length rows) - 1] rows))"
proof (induction rows arbitrary: i)
  case Nil
  then show ?case by simp
next
  case (Cons r rows)
  from Cons.prems have r: "row_parses L r" and rest: "list_all (row_parses L) rows"
    by simp_all
  show ?case
    unfolding upto_Cons_length using Cons.IH[OF rest, of "i + 1"] gym_of_row_parses[OF r, of i]
    by simp
qed

lemma load_rows_corrupt:
  "\<not> list_all (row_parses L) rows \<Longrightarrow> load_rows L i rows = None"
proof (induction rows arbitrary: i)
  case Nil
  then show ?case by simp
next
  case (Cons r rows)
  show ?case
  proof (cases "row_parses L r")
    case True
    with Cons.prems have "\<not> list_all (row_parses L) rows" by simp
    from Cons.IH[OF this] show ?thesis by (simp split: option.splits)
  next
    case False
    then show ?thesis by (simp add: gym_of_row_corrupt)
  qed
qed

lemma map_id_row_record:
  "length is = length rows \<Longrightarrow> map id' (map (\<lambda>(j, r). row_record L j r) (zip is rows)) = is"
  by (induction "is" rows rule: list_induct2) (simp_all add: row_record_def)

lemma length_upto_nat: "length [i..i + int n - 1] = n"
  by simp

lemma load_gyms_frame: "csv (load_gyms L s) = csv s \<and> writable (load_gyms L s) = writable s"
  by (simp add: load_gyms_def split: csv_file.splits option.splits)







subsection \<open>What the reader yields for what was written\<close>

lemma universal_newlines_no_cr: "CHR 0x0D \<notin> set (universal_newlines t)"
  by (induction t rule: universal_newlines.induct) auto

lemma universal_newlines_id: "CHR 0x0D \<notin> set t \<Longrightarrow> universal_newlines t = t"
  by (induction t rule: universal_newlines.induct) auto

lemma universal_newlines_same: "universal_newlines t = t \<longleftrightarrow> CHR 0x0D \<notin> set t"
  using universal_newlines_no_cr[of t] universal_newlines_id[of t] by auto

lemma length_universal_newlines: "length (universal_newlines t) \<le> length t"
  by (induction t rule: universal_newlines.induct) auto

text \<open>
  A cell is read as it was written exactly when it holds no carriage return and no more
  than 131072 characters.
\<close>

lemma read_cell_same:
  "read_cell t = Some t \<longleftrightarrow> CHR 0x0D \<notin> set t \<and> length t \<le> 131072"
  using universal_newlines_same[of t]
  by (auto simp: read_cell_def Let_def csv_field_limit_def)

lemma read_cell_short:
  "CHR 0x0D \<notin> set t \<Longrightarrow> length t \<le> 100 \<Longrightarrow> read_cell t = Some t"
  by (simp add: read_cell_same)

lemma read_row_row_of_gym:
  assumes "read_cell (partner_name g) = Some pn" "read_cell (gym_name g) = Some gn"
    "read_cell (address g) = Some ad" "read_cell (pincode g) = Some pc"
    "read_cell (str_of_float L (latitude g)) = Some la"
    "read_cell (str_of_float L (longitude g)) = Some lo"
    "read_cell (str_of_int L (subscription_amount g)) = Some sa"
    "read_cell (amenities g) = Some am"
  shows "read_row (row_of_gym L g)
     = Some (map_of [(''PartnerName'', pn), (''GymName'', gn), (''Address'', ad),
                     (''Pincode'', pc), (''Latitude'', la), (''Longitude'', lo),
                     (''SubscriptionAmount'', sa), (''Amenities'', am)])"
  using assms by (simp add: read_row_def row_of_gym_def)

lemma gym_of_row_read_row:
  assumes "round_trips L g"
  shows "\<exists>r. read_row (row_of_gym L g) = Some r \<and> gym_of_row L i r = Some (g\<lparr>id' := i\<rparr>)"
proof -
  from assms obtain la lo sa where
    la: "read_cell (str_of_float L (latitude g)) = Some la" "float_of_str L la = Some (latitude g)"
    and lo: "read_cell (str_of_float L (longitude g)) = Some lo"
      "float_of_str L lo = Some (longitude g)"
    and sa: "read_cell (str_of_int L (subscription_amount g)) = Some sa"
      "int_of_str L sa = Some (subscription_amount g)"
    by (auto simp: round_trips_def split: Option.bind_splits)
  from assms have t: "text_round_trips L (partner_name g)" "text_round_trips L (gym_name g)"
    "text_round_trips L (address g)" "text_round_trips L (pincode g)"
    "text_round_trips L (amenities g)"
    by (simp_all add: round_trips_def)
  have "read_row (row_of_gym L g)
     = Some (map_of [(''PartnerName'', partner_name g), (''GymName'', gym_name g),
                     (''Address'', address g), (''Pincode'', pincode g), (''Latitude'', la),
                     (''Longitude'', lo), (''SubscriptionAmount'', sa),
                     (''Amenities'', amenities g)])"
    using t la(1) lo(1) sa(1) by (intro read_row_row_of_gym) (simp_all add: text_round_trips_def)
  moreover have "gym_of_row L i
       (map_of [(''PartnerName'', partner_name g), (''GymName'', gym_name g),
                (''Address'', address g), (''Pincode'', pincode g), (''Latitude'', la),
                (''Longitude'', lo), (''SubscriptionAmount'', sa),
                (''Amenities'', amenities g)])
     = Some (g\<lparr>id' := i\<rparr>)"
    using t la(2) lo(2) sa(2) by (simp add: gym_of_row_def text_round_trips_def)
  ultimately show ?thesis by blast
qed

lemma load_rows_saved:
  "list_all (round_trips L) gs \<Longrightarrow>
   \<exists>rows gs'. those (map read_row (map (row_of_gym L) gs)) = Some rows
        \<and> load_rows L i rows = Some gs'
        \<and> map gym_data.truncate gs' = map gym_data.truncate gs
        \<and> map id' gs' = [i..i + int (length gs) - 1]"
proof (induction gs arbitrary: i)
  case Nil
  then show ?case by simp
next
  case (Cons g gs)
  from Cons.prems have g: "round_trips L g" and rest: "list_all (round_trips L) gs" by simp_all
  from Cons.IH[OF rest, of "i + 1"] obtain rows gs' where
    gs': "those (map read_row (map (row_of_gym L) gs)) = Some rows"
         "load_rows L (i + 1) rows = Some gs'"
         "map gym_data.truncate gs' = map gym_data.truncate gs"
         "map id' gs' = [i + 1..i + 1 + int (length gs) - 1]"
    by blast
  from gym_of_row_read_row[OF g, of i] obtain r where
    r: "read_row (row_of_gym L g) = Some r" "gym_of_row L i r = Some (g\<lparr>id' := i\<rparr>)"
    by blast
  have tr: "gym_data.truncate (g\<lparr>id' := i\<rparr>) = gym_data.truncate g"
    by (simp add: gym_data.truncate_def)
  have "those (map read_row (map (row_of_gym L) (g # gs))) = Some (r # rows)"
    using r(1) gs'(1) by simp
  moreover have "load_rows L i (r # rows) = Some (g\<lparr>id' := i\<rparr> # gs')"
    using r(2) gs'(2) by simp
  moreover have "map gym_data.truncate (g\<lparr>id' := i\<rparr> # gs') = map gym_data.truncate (g # gs)"
    using tr gs'(3) by simp
  moreover have "map id' (g\<lparr>id' := i\<rparr> # gs') = [i..i + int (length (g # gs)) - 1]"
    unfolding upto_Cons_length using gs'(4) by simp
  ultimately show ?case by blast
qed

subsection \<open>add\_gym and the file\<close>

lemma gym_eqI:
  "gym_data.truncate g = gym_data.truncate g' \<Longrightarrow> id' g = id' g' \<Longrightarrow> g = (g' :: 'f gym)"
  by (cases g, cases g') (simp add: gym_data.truncate_def)

lemma gyms_eqI:
  "map gym_data.truncate gs = map gym_data.truncate gs' \<Longrightarrow> map id' gs = map id' gs' \<Longrightarrow>
   gs = (gs' :: 'f gym list)"
proof (induction gs arbitrary: gs')
  case Nil
  then show ?case by simp
next
  case (Cons g gs)
  then obtain h hs where "gs' = h # hs" by (cases gs') auto
  with Cons show ?case by (auto intro: gym_eqI)
qed

lemma find_append_new:
  "\<forall>x \<in> set xs. \<not> P x \<Longrightarrow> P y \<Longrightarrow> find P (xs @ [y]) = Some y"
  by (induction xs) auto

text \<open>
  C3, as the code has it. After \<^verbatim>\<open>add_gym(record)\<close>, \<^verbatim>\<open>get_gym_by_id(new_id)\<close> returns the
  input with the new identifier, and the collection is one record longer. The file has
  no identifier column, a carriage return in a text is read back as a line feed, a text
  of more than 131072 characters makes the reader raise, and \<^verbatim>\<open>load_gyms\<close> strips the
  texts: when the write succeeded and every record survives being written and read back
  (\<open>round_trips\<close>), \<^verbatim>\<open>load_gyms\<close> on the persisted file gives the same records in the same
  order with the identifiers 1..N, which is the same collection exactly when the
  identifiers already were 1..N.
\<close>

theorem add_gym_spec:
  "(\<exists>g. get_gym_by_id (snd (add_gym L s d)) (fst (add_gym L s d)) = Some g
         \<and> gym_data.truncate g = d \<and> id' g = fst (add_gym L s d))
   \<and> length (gyms (snd (add_gym L s d))) = length (gyms s) + 1
   \<and> (writable s \<and> list_all (round_trips L) (gyms (snd (add_gym L s d))) \<longrightarrow>
        map gym_data.truncate (gyms (load_gyms L (snd (add_gym L s d))))
          = map gym_data.truncate (gyms (snd (add_gym L s d)))
        \<and> map id' (gyms (load_gyms L (snd (add_gym L s d)))) = [1..int (length (gyms s)) + 1]
        \<and> (map id' (gyms (snd (add_gym L s d))) = [1..int (length (gyms s)) + 1] \<longrightarrow>
             gyms (load_gyms L (snd (add_gym L s d))) = gyms (snd (add_gym L s d))))"
proof -
  let ?n = "fst (add_gym L s d)"
  let ?s' = "snd (add_gym L s d)"
  let ?new = "gym_data.extend d (gym.fields ?n)"
  have gyms': "gyms ?s' = gyms s @ [?new]"
    by (rule gyms_add_gym)
  have fresh: "\<forall>g \<in> set (gyms s). \<not> id' g = ?n"
    using add_gym_new_id_greater[of _ s L d] by fastforce
  have "get_gym_by_id ?s' ?n = Some ?new"
    unfolding get_gym_by_id_def gyms'
    by (rule find_append_new[OF fresh]) (simp add: gym_data.defs gym.defs)
  moreover have "gym_data.truncate ?new = d" "id' ?new = ?n"
    by (simp_all add: gym_data.defs gym.defs)
  ultimately have 1: "\<exists>g. get_gym_by_id ?s' ?n = Some g \<and> gym_data.truncate g = d \<and> id' g = ?n"
    by blast
  have 2: "length (gyms ?s') = length (gyms s) + 1"
    by (simp add: gyms')
  have 3: "map gym_data.truncate (gyms (load_gyms L ?s')) = map gym_data.truncate (gyms ?s')
        \<and> map id' (gyms (load_gyms L ?s')) = [1..int (length (gyms s)) + 1]
        \<and> (map id' (gyms ?s') = [1..int (length (gyms s)) + 1] \<longrightarrow>
             gyms (load_gyms L ?s') = gyms ?s')"
    if w: "writable s" and rt: "list_all (round_trips L) (gyms ?s')"
  proof -
    have s': "?s' = save_to_csv L (s\<lparr>gyms := gyms ?s'\<rparr>)"
      by (simp add: add_gym_def Let_def gyms_save_to_csv)
    have csv': "csv ?s' = read_file (map (row_of_gym L) (gyms ?s'))"
      by (subst s') (simp add: save_to_csv_def w)
    from load_rows_saved[OF rt, of 1] obtain rows gs' where
      gs': "those (map read_row (map (row_of_gym L) (gyms ?s'))) = Some rows"
           "load_rows L 1 rows = Some gs'"
           "map gym_data.truncate gs' = map gym_data.truncate (gyms ?s')"
           "map id' gs' = [1..1 + int (length (gyms ?s')) - 1]"
      by blast
    have "csv ?s' = Content rows"
      unfolding csv' read_file_def using gs'(1) by simp
    then have ld: "gyms (load_gyms L ?s') = gs'"
      using gs'(2) by (simp add: load_gyms_def)
    have ids: "map id' gs' = [1..int (length (gyms s)) + 1]"
      using gs'(4) 2 by (simp add: add.commute)
    show ?thesis
      unfolding ld using gs'(3) ids by (auto intro: gyms_eqI)
  qed
  from 1 2 3 show ?thesis by blast
qed

lemma example_after_add:
  "gyms (snd (add_gym demo_lib example_db example_gym_data)) =
     [gym_a, gym_b, gym_data.extend example_gym_data (gym.fields 3)]"
  by (simp add: add_gym_def Let_def gyms_save_to_csv example_db_def py_max_def gym_a_def
      gym_b_def gym_data.defs gym.defs)

lemma demo_strip_same:
  "t \<noteq> [] \<Longrightarrow> \<not> demo_isspace (hd t) \<Longrightarrow> \<not> demo_isspace (last t) \<Longrightarrow> demo_strip t = t"
proof -
  assume t: "t \<noteq> []" and h: "\<not> demo_isspace (hd t)" and l: "\<not> demo_isspace (last t)"
  from t h have 1: "dropWhile demo_isspace t = t" by (cases t) simp_all
  from t l have 2: "dropWhile demo_isspace (rev t) = rev t"
    by (cases "rev t") (simp_all add: last_rev[symmetric] hd_rev)
  show ?thesis by (simp add: demo_strip_def 1 2)
qed

lemma example_texts_round_trip:
  "list_all (text_round_trips demo_lib)
     [''Cult'', ''Cult Andheri'', ''Link Road'', ''400053'', ''Pool, Sauna'', ''Golds'',
      ''Golds Bandra'', ''Hill Road'', ''400050'', ''Cardio'', ''Cult Powai'', ''Lake Road'',
      ''400076'', ''Yoga'']"
  by (simp add: text_round_trips_def read_cell_short demo_lib_def demo_strip_same
      demo_isspace_def)

lemma example_numbers_round_trip:
  "list_all (\<lambda>n. Option.bind (read_cell (demo_str n)) demo_parse = Some n) [2499, 1999, 2999]
   \<and> list_all (\<lambda>x. Option.bind (read_cell (demo_str_float x)) demo_parse_float = Some x)
       [Fin 19, Fin 72, Fin 73, Fin 74]"
  by (simp add: read_cell_def csv_field_limit_def demo_str_def demo_parse_float_def
      demo_parse_def isdigit_def nat_of_str_def digit_val_def digit_char_def)

theorem add_gym_spec_witness:
  "writable example_db
   \<and> list_all (round_trips demo_lib) (gyms (snd (add_gym demo_lib example_db example_gym_data)))
   \<and> map id' (gyms (snd (add_gym demo_lib example_db example_gym_data)))
       = [1..int (length (gyms example_db)) + 1]
   \<and> gyms (load_gyms demo_lib (snd (add_gym demo_lib example_db example_gym_data)))
       = gyms (snd (add_gym demo_lib example_db example_gym_data))
   \<and> length (gyms (snd (add_gym demo_lib example_db example_gym_data)))
       = length (gyms example_db) + 1"
proof -
  have w: "writable example_db" by (simp add: example_db_def)
  have rt: "list_all (round_trips demo_lib)
              (gyms (snd (add_gym demo_lib example_db example_gym_data)))"
    unfolding example_after_add
    using example_texts_round_trip example_numbers_round_trip
    by (simp add: round_trips_def gym_a_def gym_b_def example_gym_data_def gym_data.defs
        gym.defs demo_lib_def)
  have ids: "map id' (gyms (snd (add_gym demo_lib example_db example_gym_data)))
               = [1..int (length (gyms example_db)) + 1]"
    unfolding example_after_add
    by (simp add: gym_a_def gym_b_def gym_data.defs gym.defs example_db_def upto_rec1)
  from add_gym_spec[of demo_lib example_db example_gym_data] w rt ids
  show ?thesis by blast
qed

lemma writable_save_to_csv: "writable (save_to_csv L s) = writable s"
  by (simp add: save_to_csv_def)

lemma writable_delete_gym: "writable (snd (delete_gym L s k)) = writable s"
  by (simp add: delete_gym_def Let_def writable_save_to_csv)

lemma gyms_load_gyms:
  "gyms (load_gyms L s)
     = (case csv s of
          Content rows \<Rightarrow> (case load_rows L 1 rows of None \<Rightarrow> [] | Some gs \<Rightarrow> gs)
        | _ \<Rightarrow> [])"
  by (simp add: load_gyms_def split: csv_file.splits option.splits)

lemma csv_add_gym:
  "writable s \<Longrightarrow>
   csv (snd (add_gym L s d)) = read_file (map (row_of_gym L) (gyms (snd (add_gym L s d))))"
  by (simp add: add_gym_def Let_def save_to_csv_def)

text \<open>
  C3, as the specification words it, fails: load the two example rows, delete the record 1
  and add a record. The collection then holds the identifiers 2 and 3; loading the file
  that \<^verbatim>\<open>add_gym\<close> wrote gives the identifiers 1 and 2.
\<close>

theorem load_after_add_renumbers:
  "map id' (gyms (snd (add_gym demo_lib
        (snd (delete_gym demo_lib (load_gyms demo_lib unloaded_db) 1)) example_gym_data)))
     = [2, 3]
   \<and> map id' (gyms (load_gyms demo_lib (snd (add_gym demo_lib
        (snd (delete_gym demo_lib (load_gyms demo_lib unloaded_db) 1)) example_gym_data))))
     = [1, 2]
   \<and> gyms (load_gyms demo_lib (snd (add_gym demo_lib
        (snd (delete_gym demo_lib (load_gyms demo_lib unloaded_db) 1)) example_gym_data)))
     \<noteq> gyms (snd (add_gym demo_lib
        (snd (delete_gym demo_lib (load_gyms demo_lib unloaded_db) 1)) example_gym_data))"
proof -
  let ?s = "snd (delete_gym demo_lib (load_gyms demo_lib unloaded_db) 1)"
  let ?s' = "snd (add_gym demo_lib ?s example_gym_data)"
  have del: "gyms ?s = [gym_b]"
    by (simp add: gyms_delete_gym load_example_rows gym_a_def gym_b_def)
  have w: "writable ?s"
    by (simp add: writable_delete_gym load_gyms_frame unloaded_db_def)
  have n: "fst (add_gym demo_lib ?s example_gym_data) = 3"
    by (simp add: add_gym_new_id del gym_b_def)
  have g: "gyms ?s' = [gym_b, gym_data.extend example_gym_data (gym.fields 3)]"
    by (simp add: gyms_add_gym del n)
  have ids: "map id' (gyms ?s') = [2, 3]"
    by (simp add: g gym_b_def gym_data.defs gym.defs)
  have c: "csv ?s' = read_file (map (row_of_gym demo_lib)
                                  [gym_b, gym_data.extend example_gym_data (gym.fields 3)])"
    using csv_add_gym[OF w, of demo_lib example_gym_data] unfolding g .
  have "map id' (gyms (load_gyms demo_lib ?s')) = [1, 2]"
    unfolding gyms_load_gyms c
    by (simp add: read_file_def read_row_def read_cell_def csv_field_limit_def
        row_of_gym_def gym_b_def example_gym_data_def gym_data.defs gym.defs gym_of_row_def
        demo_lib_def demo_str_def demo_parse_float_def demo_parse_def isdigit_def
        nat_of_str_def digit_val_def digit_char_def)
  with ids show ?thesis by auto
qed

text \<open>
  Two records that do not survive: a carriage return in a text is read back as a line
  feed, and after a text of more than 131072 characters was written \<^verbatim>\<open>load_gyms\<close> gives
  the empty collection.
\<close>

lemma carriage_return_read_as_line_feed:
  "map address (gyms (load_gyms demo_lib
       (snd (add_gym demo_lib example_db
               (example_gym_data\<lparr>address := ''Lake'' @ [CHR 0x0D] @ ''Road''\<rparr>)))))
     = [''Link Road'', ''Hill Road'', ''Lake'' @ [CHR 0x0A] @ ''Road'']"
proof -
  let ?d = "example_gym_data\<lparr>address := ''Lake'' @ [CHR 0x0D] @ ''Road''\<rparr>"
  have w: "writable example_db" by (simp add: example_db_def)
  have g: "gyms (snd (add_gym demo_lib example_db ?d))
             = [gym_a, gym_b, gym_data.extend ?d (gym.fields 3)]"
    by (simp add: gyms_add_gym add_gym_new_id example_db_def gym_a_def gym_b_def)
  have c: "csv (snd (add_gym demo_lib example_db ?d))
             = read_file (map (row_of_gym demo_lib) [gym_a, gym_b, gym_data.extend ?d (gym.fields 3)])"
    using csv_add_gym[OF w, of demo_lib ?d] unfolding g .
  show ?thesis
    unfolding gyms_load_gyms c
    by (simp add: read_file_def read_row_def read_cell_def
        csv_field_limit_def row_of_gym_def gym_a_def gym_b_def example_gym_data_def
        gym_data.defs gym.defs gym_of_row_def demo_lib_def demo_str_def demo_parse_float_def
        demo_parse_def isdigit_def nat_of_str_def digit_val_def digit_char_def demo_strip_def
        demo_isspace_def)
qed

lemma those_append_None: "those ys = None \<Longrightarrow> those (xs @ ys) = None"
  by (induction xs) (simp_all split: option.splits)

lemma long_text_empties_the_store:
  assumes "writable s" "csv_field_limit < length (universal_newlines (amenities d))"
  shows "csv (snd (add_gym L s d)) = Unreadable"
    and "gyms (load_gyms L (snd (add_gym L s d))) = []"
proof -
  let ?new = "gym_data.extend d (gym.fields (fst (add_gym L s d)))"
  have "read_cell (amenities ?new) = None"
    using assms(2) by (simp add: read_cell_def Let_def gym_data.defs gym.defs)
  then have "read_row (row_of_gym L ?new) = None"
    by (simp add: read_row_def row_of_gym_def split: option.splits)
  then have "those (map read_row (map (row_of_gym L) (gyms s @ [?new]))) = None"
    by (simp add: those_append_None)
  then show "csv (snd (add_gym L s d)) = Unreadable"
    by (simp add: csv_add_gym[OF assms(1)] gyms_add_gym read_file_def)
  then show "gyms (load_gyms L (snd (add_gym L s d))) = []"
    by (simp add: load_gyms_def)
qed

subsection \<open>The identifiers stay distinct\<close>

text \<open>
  The stores that \<^verbatim>\<open>load_gyms\<close>, \<^verbatim>\<open>add_gym\<close> and \<^verbatim>\<open>delete_gym\<close> produce have distinct
  identifiers: the condition under which \<^verbatim>\<open>delete_gym\<close> removes exactly one record.
\<close>

lemma distinct_ids_load: "distinct (map id' (gyms (load_gyms L s)))"
proof (cases "csv s")
  case (Content rows)
  show ?thesis
  proof (cases "list_all (row_parses L) rows")
    case True
    have "map id' (map (\<lambda>(j, r). row_record L j r) (zip [1..1 + int (length rows) - 1] rows))
            = [1..1 + int (length rows) - 1]"
      by (rule map_id_row_record) simp
    with load_rows_parses[OF True, of 1] Content show ?thesis by (simp add: load_gyms_def)
  next
    case False
    then have "load_rows L 1 rows = None" by (rule load_rows_corrupt)
    with Content show ?thesis by (simp add: load_gyms_def)
  qed
qed (simp_all add: load_gyms_def)

lemma distinct_ids_add:
  assumes "distinct (map id' (gyms s))"
  shows "distinct (map id' (gyms (snd (add_gym L s d))))"
proof -
  have "fst (add_gym L s d) \<notin> id' ` set (gyms s)"
    using add_gym_new_id_greater[of _ s L d] by fastforce
  with assms show ?thesis
    by (simp add: gyms_add_gym gym_data.defs gym.defs)
qed

lemma distinct_ids_delete:
  assumes "distinct (map id' (gyms s))"
  shows "distinct (map id' (gyms (snd (delete_gym L s k))))"
  using assms by (simp add: gyms_delete_gym distinct_map_filter)


section \<open>Properties of the distance function\<close>

lemma haversine_distance_steps:
  "haversine_distance M lat1 lon1 lat2 lon2 =
     bind_err (sin_half_squared M (fsub M (radians M lat2) (radians M lat1))) (\<lambda>p1.
     bind_err (or_raise ValueError (mcos M (radians M lat1))) (\<lambda>c1.
     bind_err (or_raise ValueError (mcos M (radians M lat2))) (\<lambda>c2.
     bind_err (sin_half_squared M (fsub M (radians M lon2) (radians M lon1))) (\<lambda>p2.
     bind_err (or_raise ValueError (msqrt M (fadd M p1 (fmul M (fmul M c1 c2) p2)))) (\<lambda>q.
     bind_err (or_raise ValueError (masin M q)) (\<lambda>t.
     Inr (round2 M (fmul M (float_6371 M) (fmul M (float_2 M) t)))))))))"
  by (simp add: haversine_distance_def sin_half_squared_def bind_err_def or_raise_def Let_def
      split: option.splits sum.splits)

lemma or_raise_cases:
  obtains "or_raise e x = Inl e" | v where "or_raise e x = Inr v"
  by (cases x) (simp_all add: or_raise_def)

lemma cosines_swap:
  assumes "\<And>x y. fmul M x y = fmul M y x"
  shows "bind_err (or_raise ValueError (mcos M a)) (\<lambda>c1.
           bind_err (or_raise ValueError (mcos M b)) (\<lambda>c2. f (fmul M c1 c2)))
       = bind_err (or_raise ValueError (mcos M b)) (\<lambda>c1.
           bind_err (or_raise ValueError (mcos M a)) (\<lambda>c2. f (fmul M c1 c2)))"
  by (cases "mcos M a"; cases "mcos M b") (simp_all add: or_raise_def bind_err_def assms)

lemma haversine_distance_symmetric:
  assumes "symmetric_arithmetic M"
  shows "haversine_distance M lat1 lon1 lat2 lon2 = haversine_distance M lat2 lon2 lat1 lon1"
proof -
  from assms have comm: "\<And>x y. fmul M x y = fmul M y x"
    and even: "\<And>x y. sin_half_squared M (fsub M y x) = sin_half_squared M (fsub M x y)"
    by (simp_all add: symmetric_arithmetic_def)
  define tail where "tail = (\<lambda>p1 p2 c.
     bind_err (or_raise ValueError (msqrt M (fadd M p1 (fmul M c p2)))) (\<lambda>q.
     bind_err (or_raise ValueError (masin M q)) (\<lambda>t.
     Inr (round2 M (fmul M (float_6371 M) (fmul M (float_2 M) t))))))"
  define dlon where "dlon = sin_half_squared M (fsub M (radians M lon2) (radians M lon1))"
  have form: "haversine_distance M la1 lo1 la2 lo2 =
     bind_err (sin_half_squared M (fsub M (radians M la2) (radians M la1))) (\<lambda>p1.
     bind_err (or_raise ValueError (mcos M (radians M la1))) (\<lambda>c1.
     bind_err (or_raise ValueError (mcos M (radians M la2))) (\<lambda>c2.
     bind_err (sin_half_squared M (fsub M (radians M lo2) (radians M lo1))) (\<lambda>p2.
       tail p1 p2 (fmul M c1 c2)))))" for la1 lo1 la2 lo2
    unfolding tail_def by (rule haversine_distance_steps)
  have "haversine_distance M lat2 lon2 lat1 lon1 =
     bind_err (sin_half_squared M (fsub M (radians M lat2) (radians M lat1))) (\<lambda>p1.
     bind_err (or_raise ValueError (mcos M (radians M lat2))) (\<lambda>c1.
     bind_err (or_raise ValueError (mcos M (radians M lat1))) (\<lambda>c2.
     bind_err dlon (\<lambda>p2. tail p1 p2 (fmul M c1 c2)))))"
    unfolding form dlon_def
    by (simp only: even[of "radians M lat2" "radians M lat1"]
        even[of "radians M lon2" "radians M lon1"])
  also have "\<dots> =
     bind_err (sin_half_squared M (fsub M (radians M lat2) (radians M lat1))) (\<lambda>p1.
     bind_err (or_raise ValueError (mcos M (radians M lat1))) (\<lambda>c1.
     bind_err (or_raise ValueError (mcos M (radians M lat2))) (\<lambda>c2.
     bind_err dlon (\<lambda>p2. tail p1 p2 (fmul M c1 c2)))))"
    by (simp only: cosines_swap[of M "radians M lat2" "radians M lat1"
          "\<lambda>c. bind_err dlon (\<lambda>p2. tail _ p2 c)", OF comm])
  also have "\<dots> = haversine_distance M lat1 lon1 lat2 lon2"
    unfolding form dlon_def ..
  finally show ?thesis ..
qed

lemma haversine_distance_zero:
  assumes z: "zero_float M z" and lat: "valid_latitude M z lat" and lon: "valid_longitude M z lon"
  shows "haversine_distance M lat lon lat lon = Inr z"
proof -
  from lat obtain c where c: "mcos M (radians M lat) = Some c" "fmul M (fmul M c c) z = z"
    and dlat: "fsub M (radians M lat) (radians M lat) = z"
    by (auto simp: valid_latitude_def split: option.splits)
  from lon have dlon: "fsub M (radians M lon) (radians M lon) = z"
    by (simp add: valid_longitude_def)
  from z have shs: "sin_half_squared M z = Inr z"
    by (simp add: zero_float_def sin_half_squared_def or_raise_def bind_err_def)
  show ?thesis
    unfolding haversine_distance_steps dlat dlon shs
    using z c by (simp add: zero_float_def or_raise_def bind_err_def)
qed

text \<open>
  C6. For a runtime the multiplication of which commutes and in which the squared sine of
  half a difference does not depend on the order of the difference, the distance from a
  to b is the distance from b to a: the same float, or the same exception. For a zero
  \<open>z\<close> of the runtime, and a point the coordinates of which are valid (their difference
  with themselves is \<open>z\<close>, the latitude has a cosine), the distance from the point to
  itself is \<open>z\<close>.
\<close>

theorem haversine_distance_spec:
  "(symmetric_arithmetic M \<longrightarrow>
      haversine_distance M lat1 lon1 lat2 lon2 = haversine_distance M lat2 lon2 lat1 lon1)
   \<and> (zero_float M z \<and> valid_latitude M z lat1 \<and> valid_longitude M z lon1 \<longrightarrow>
        haversine_distance M lat1 lon1 lat1 lon1 = Inr z)"
  using haversine_distance_symmetric[of M lat1 lon1 lat2 lon2]
    haversine_distance_zero[of M z lat1 lon1] by blast

lemma d_mul_commute: "d_mul x y = d_mul y x"
  by (cases x; cases y) (simp_all add: mult.commute)

lemma d_sin_half_squared:
  "sin_half_squared demo_math x =
     (case x of Fin q \<Rightarrow> Inr (Fin ((q / 2) * (q / 2))) | NaN \<Rightarrow> Inr NaN | _ \<Rightarrow> Inl ValueError)"
  by (cases x)
     (simp_all add: sin_half_squared_def demo_math_def d_div_def d_pow_def or_raise_def
        bind_err_def)

lemma d_sub_swap: "d_sub y x = d_neg (d_sub x y)"
  by (cases x; cases y) (simp_all add: d_sub_def)

lemma d_sin_half_squared_neg:
  "sin_half_squared demo_math (d_neg x) = sin_half_squared demo_math x"
  by (cases x) (simp_all add: d_sin_half_squared)

lemma symmetric_demo_math: "symmetric_arithmetic demo_math"
proof -
  have fs: "fsub demo_math = d_sub" and fm: "fmul demo_math = d_mul"
    by (simp_all add: demo_math_def)
  have "sin_half_squared demo_math (d_sub y x) = sin_half_squared demo_math (d_sub x y)" for x y
    by (subst d_sub_swap) (rule d_sin_half_squared_neg)
  then show ?thesis
    unfolding symmetric_arithmetic_def fs fm using d_mul_commute by blast
qed

lemma zero_demo_math: "zero_float demo_math (Fin 0)"
  by (simp add: zero_float_def demo_math_def d_div_def d_pow_def)

lemma valid_demo_coordinate:
  "valid_latitude demo_math (Fin 0) (Fin q)" "valid_longitude demo_math (Fin 0) (Fin q)"
  by (simp_all add: valid_latitude_def valid_longitude_def demo_math_def d_sub_def)

lemma demo_distance:
  "haversine_distance demo_math (Fin 19) (Fin 72) (Fin 19) (Fin 73) = Inr (Fin (6371 / 8192))"
  unfolding haversine_distance_steps d_sin_half_squared
  by (simp add: demo_math_def d_sub_def or_raise_def bind_err_def)

theorem haversine_distance_spec_witness:
  "symmetric_arithmetic demo_math
   \<and> haversine_distance demo_math (Fin 19) (Fin 72) (Fin 19) (Fin 73)
       = haversine_distance demo_math (Fin 19) (Fin 73) (Fin 19) (Fin 72)
   \<and> haversine_distance demo_math (Fin 19) (Fin 72) (Fin 19) (Fin 73) = Inr (Fin (6371 / 8192))
   \<and> zero_float demo_math (Fin 0)
   \<and> valid_latitude demo_math (Fin 0) (Fin 19) \<and> valid_longitude demo_math (Fin 0) (Fin 72)
   \<and> haversine_distance demo_math (Fin 19) (Fin 72) (Fin 19) (Fin 72) = Inr (Fin 0)"
proof -
  note spec = haversine_distance_spec[of demo_math "Fin 19" "Fin 72" "Fin 19" "Fin 73" "Fin 0"]
  have v: "valid_latitude demo_math (Fin 0) (Fin 19)" "valid_longitude demo_math (Fin 0) (Fin 72)"
    by (rule valid_demo_coordinate)+
  from spec symmetric_demo_math
  have s: "haversine_distance demo_math (Fin 19) (Fin 72) (Fin 19) (Fin 73)
             = haversine_distance demo_math (Fin 19) (Fin 73) (Fin 19) (Fin 72)"
    by blast
  from spec zero_demo_math v
  have z: "haversine_distance demo_math (Fin 19) (Fin 72) (Fin 19) (Fin 72) = Inr (Fin 0)"
    by blast
  have d: "haversine_distance demo_math (Fin 19) (Fin 72) (Fin 19) (Fin 73) = Inr (Fin (6371 / 8192))"
    by (rule demo_distance)
  from symmetric_demo_math s d zero_demo_math v z show ?thesis by blast
qed


section \<open>Properties of the nearest-gym ranking\<close>

lemma distance_with_distance: "distance (with_distance g d) = d"
  by (simp add: with_distance_def gym.defs gym_with_distance.defs)

lemma truncate_with_distance: "gym.truncate (with_distance g d) = g"
  by (simp add: with_distance_def gym.defs gym_with_distance.defs)



lemma candidates_eq:
  "(case partner of
      None \<Rightarrow> gyms s
    | Some p \<Rightarrow> if p \<noteq> [] then get_gyms_by_partner L s p else gyms s)
     = candidates L s partner"
  by (simp add: candidates_def get_gyms_by_partner_def split: option.splits)

lemma get_nearby_gyms_eq:
  "get_nearby_gyms M L s lat lon partner limit =
     (case gyms_with_distance M lat lon (candidates L s partner) of
        Inl e \<Rightarrow> Inl e
      | Inr xs \<Rightarrow> Inr (py_slice_to (sort_by_distance M xs) limit))"
  by (simp add: get_nearby_gyms_def Let_def candidates_eq)


lemma gyms_with_distance_Inr:
  "gyms_with_distance M lat lon gs = Inr xs \<Longrightarrow>
     map gym.truncate xs = gs
   \<and> (\<forall>x \<in> set xs. gym_distance M lat lon (gym.truncate x) = Inr (distance x))"
proof (induction gs arbitrary: xs)
  case Nil
  then show ?case by simp
next
  case (Cons g gs)
  from Cons.prems obtain d rest where
    d: "gym_distance M lat lon g = Inr d"
    and rest: "gyms_with_distance M lat lon gs = Inr rest"
    and xs: "xs = with_distance g d # rest"
    by (auto simp: gym_distance_def split: sum.splits)
  from Cons.IH[OF rest] d show ?case
    by (simp add: xs truncate_with_distance distance_with_distance)
qed




lemma demo_math_sel:
  "radians demo_math = d_radians" "msin demo_math = d_sin" "mcos demo_math = d_cos"
  "msqrt demo_math = d_sqrt" "masin demo_math = d_asin" "fadd demo_math = d_add"
  "fsub demo_math = d_sub" "fmul demo_math = d_mul" "fdiv demo_math = d_div"
  "fpow demo_math = d_pow" "round2 demo_math = (\<lambda>x. x)" "float_2 demo_math = Fin 2"
  "float_6371 demo_math = Fin 6371" "fkey demo_math = d_key"
  "sort_with_nan demo_math = (\<lambda>xs. xs)" "sort_refs_with_nan demo_math = map snd"
  by (simp_all add: demo_math_def)

lemma demo_lower_golds:
  "demo_lower ''Golds'' = demo_lower ''golds''" "demo_lower ''Cult'' \<noteq> demo_lower ''golds''"
  by code_simp+

lemma example_distances:
  "gym_distance demo_math (Fin 19) (Fin 73) gym_a = Inr (Fin (6371 / 8192))"
  "gym_distance demo_math (Fin 19) (Fin 73) gym_b = Inr (Fin 0)"
  unfolding gym_distance_def haversine_distance_steps d_sin_half_squared
  by (simp_all add: gym_a_def gym_b_def demo_math_sel d_sub_def or_raise_def bind_err_def)

lemma example_candidates:
  "candidates demo_lib example_db None = [gym_a, gym_b]"
  "candidates demo_lib example_db (Some ''golds'') = [gym_b]"
  using demo_lower_golds
  by (simp_all add: candidates_def example_db_def demo_lib_def gym_a_def gym_b_def)

lemma example_gyms_with_distance:
  "gyms_with_distance demo_math (Fin 19) (Fin 73) [gym_a, gym_b]
     = Inr [with_distance gym_a (Fin (6371 / 8192)), with_distance gym_b (Fin 0)]"
  "gyms_with_distance demo_math (Fin 19) (Fin 73) [gym_b] = Inr [with_distance gym_b (Fin 0)]"
  using example_distances by (simp_all add: gym_distance_def)

lemma example_sort:
  "sort_by_distance demo_math [with_distance gym_a (Fin (6371 / 8192)), with_distance gym_b (Fin 0)]
     = [with_distance gym_b (Fin 0), with_distance gym_a (Fin (6371 / 8192))]"
  "sort_by_distance demo_math [with_distance gym_b (Fin 0)] = [with_distance gym_b (Fin 0)]"
  by (simp_all add: sort_by_distance_def distance_with_distance demo_math_sel del: not_None_eq)




text \<open>
  A latitude that is a NaN comes from the file (\<^verbatim>\<open>float('nan')\<close>), the distance of that gym
  is a NaN, and the ranking of a list with such a distance is that of the merge strategy.
  A negative limit, which the route does not pass, counts from the end: two gyms and the
  limit -1 give one record.
\<close>

lemma nan_is_loaded:
  "map latitude (gyms (load_gyms demo_lib
     (example_db\<lparr>csv := Content [ [ ''PartnerName'' \<mapsto> ''Cult'', ''GymName'' \<mapsto> ''Cult Powai'',
         ''Address'' \<mapsto> ''Lake Road'', ''Pincode'' \<mapsto> ''400076'', ''Latitude'' \<mapsto> ''nan'',
         ''Longitude'' \<mapsto> ''74'', ''SubscriptionAmount'' \<mapsto> ''2999'',
         ''Amenities'' \<mapsto> ''Yoga'' ] ]\<rparr>))) = [NaN]"
  by (simp add: load_gyms_def gym_of_row_def demo_lib_def demo_parse_float_def demo_parse_def
      isdigit_def nat_of_str_def digit_val_def)

lemma nan_distance:
  "gym_rank demo_math (Fin 19) (Fin 73) (gym_a\<lparr>latitude := NaN\<rparr>) = None"
  unfolding gym_rank_def gym_distance_def haversine_distance_steps d_sin_half_squared
  by (simp add: gym_a_def demo_math_sel d_sub_def or_raise_def bind_err_def)

lemma negative_limit:
  "get_nearby_gyms demo_math demo_lib example_db (Fin 19) (Fin 73) None (- 1)
     = Inr [with_distance gym_b (Fin 0)]"
  unfolding get_nearby_gyms_eq example_candidates example_gyms_with_distance
  by (simp add: example_sort py_slice_to_def)

section \<open>Properties of the subscription plans\<close>

lemma round53_nonneg: "0 \<le> n \<Longrightarrow> 0 \<le> round53 n"
  by (auto simp: round53_def Let_def sgn_if pos_imp_zdiv_nonneg_iff)

lemma round53_le_power:
  assumes "0 \<le> n" "n < 2 ^ k"
  shows "round53 n \<le> 2 ^ k"
proof (cases "bitlen \<bar>n\<bar> \<le> 53")
  case True
  with assms show ?thesis by (simp add: round53_def Let_def)
next
  case False
  define b where "b = bitlen n"
  define s where "s = nat (b - 53)"
  define q where "q = n div 2 ^ s"
  from False assms have b53: "53 < b" by (simp add: b_def)
  from assms b53 have npos: "0 < n" by (cases "n = 0") (auto simp: b_def)
  have nb: "n < 2 ^ nat b" using bitlen_bounds[OF npos] by (simp add: b_def)
  have bk: "b \<le> int k" using assms by (simp add: b_def bitlen_le_iff_power)
  have eqb: "nat b = 53 + s" using b53 by (simp add: s_def)
  have "n < 2 ^ 53 * 2 ^ s" using nb by (simp add: eqb power_add)
  moreover have "q * 2 ^ s \<le> n"
  proof -
    have "0 \<le> n mod 2 ^ s" by simp
    moreover have "n div 2 ^ s * 2 ^ s + n mod 2 ^ s = n" by (rule div_mult_mod_eq)
    ultimately show ?thesis unfolding q_def by linarith
  qed
  ultimately have "q * 2 ^ s < 2 ^ 53 * 2 ^ s" by linarith
  then have ql: "q < 2 ^ 53" by simp
  have "round53 n \<le> (q + 1) * 2 ^ s"
    using False assms npos
    by (auto simp: round53_def Let_def b_def[symmetric] s_def[symmetric] q_def[symmetric] sgn_if)
  also have "\<dots> \<le> 2 ^ 53 * 2 ^ s" using ql by (intro mult_right_mono) auto
  also have "\<dots> = 2 ^ nat b" by (simp add: eqb power_add)
  also have "\<dots> \<le> 2 ^ k" using bk by (intro power_increasing) auto
  finally show ?thesis .
qed

lemma int_mul_float_ok:
  assumes "0 \<le> n" "n < 2 ^ 1023" "0 \<le> M" "M < 2 ^ 53" "53 \<le> K"
  shows "int_mul_float n (Dyadic M K) = Inr (round53 (round53 n * M) div 2 ^ K)"
proof -
  have r0: "0 \<le> round53 n" using assms(1) by (rule round53_nonneg)
  have r1: "round53 n \<le> 2 ^ 1023" using assms(1,2) by (rule round53_le_power)
  then have f: "float_of_int n = Inr (Dyadic (round53 n) 0)"
    using r0 by (simp add: float_of_int_def Let_def)
  have p0: "0 \<le> round53 n * M" using r0 assms(3) by simp
  have "round53 n * M \<le> 2 ^ 1023 * M" using r1 assms(3) by (rule mult_right_mono)
  also have "\<dots> < 2 ^ 1023 * 2 ^ 53" using assms(4) by simp
  finally have p1: "round53 n * M < 2 ^ 1076" by (simp add: power_add[symmetric])
  have q0: "0 \<le> round53 (round53 n * M)" using p0 by (rule round53_nonneg)
  have q1: "round53 (round53 n * M) \<le> 2 ^ 1076" using p0 p1 by (rule round53_le_power)
  have "(2::int) ^ 1076 < 2 ^ (1024 + K)"
  proof -
    have "(2::int) ^ 1076 < 2 ^ 1077" by simp
    moreover have "(2::int) ^ 1077 \<le> 2 ^ (1024 + K)"
      using assms(5) by (intro power_increasing) auto
    ultimately show ?thesis by linarith
  qed
  with q1 q0 have "\<not> 2 ^ (1024 + 0 + K) \<le> \<bar>round53 (round53 n * M)\<bar>" by simp
  then have "float_mul (Dyadic (round53 n) 0) (Dyadic M K) = Dyadic (round53 (round53 n * M)) K"
    by (simp add: Let_def)
  with f q0 show ?thesis by (simp add: int_mul_float_def sgn_if)
qed

lemma c_bounds:
  "(0::int) \<le> 8376695306909123" "(8376695306909123::int) < 2 ^ 53"
  "(0::int) \<le> 7475975381435023" "(7475975381435023::int) < 2 ^ 53"
  "(0::int) \<le> 1261007895663739" "(1261007895663739::int) < 2 ^ 53"
  "(0::int) \<le> 6124895493223875" "(6124895493223875::int) < 2 ^ 53"
  by simp_all

text \<open>
  C4, as the code has it. For a base price that is not negative and whose twelvefold is
  within the range of a double (below \<open>2 ^ 1023\<close> is enough), the function returns the
  three plans 1-month, 3-month and 12-month in this order; the total of the first is the
  base price, the totals of the others are \<^verbatim>\<open>int(base*3*0.93)\<close> and \<^verbatim>\<open>int(base*12*0.83)\<close>,
  and the savings are \<^verbatim>\<open>int(base*3*0.07)\<close> and \<^verbatim>\<open>int(base*12*0.17)\<close>, each a product
  rounded to a double and truncated on its own. The closed forms say what these
  expressions are: the integer is rounded to 53 bits, multiplied by the numerator of the
  constant, rounded to 53 bits again and divided by the power of two of the constant.
\<close>

theorem calculate_subscription_plans_spec:
  assumes "0 \<le> base" and "12 * base < 2 ^ 1023"
  shows "\<exists>total3 monthly3 savings3 total12 monthly12 savings12.
    calculate_subscription_plans base =
      Inr [ (''1-month'', \<lparr> duration = ''1 month'', total = base, monthly = base, savings = 0 \<rparr>),
            (''3-month'', \<lparr> duration = ''3 months'', total = total3, monthly = monthly3,
                            savings = savings3 \<rparr>),
            (''12-month'', \<lparr> duration = ''12 months'', total = total12, monthly = monthly12,
                             savings = savings12 \<rparr>) ]
    \<and> int_mul_float (base * 3) c_0_93 = Inr total3
    \<and> total3 = round53 (round53 (base * 3) * 8376695306909123) div 2 ^ 53
    \<and> int_mul_float (base * 12) c_0_83 = Inr total12
    \<and> total12 = round53 (round53 (base * 12) * 7475975381435023) div 2 ^ 53
    \<and> int_mul_float (base * 3) c_0_07 = Inr savings3
    \<and> savings3 = round53 (round53 (base * 3) * 1261007895663739) div 2 ^ 54
    \<and> int_mul_float (base * 12) c_0_17 = Inr savings12
    \<and> savings12 = round53 (round53 (base * 12) * 6124895493223875) div 2 ^ 55"
proof -
  from assms have b1: "0 \<le> base" "base < 2 ^ 1023"
    and b3: "0 \<le> base * 3" "base * 3 < 2 ^ 1023"
    and b12: "0 \<le> base * 12" "base * 12 < 2 ^ 1023"
    by simp_all
  note ok = int_mul_float_ok
  have t3: "int_mul_float (base * 3) c_0_93 = Inr (round53 (round53 (base * 3) * 8376695306909123) div 2 ^ 53)"
    unfolding c_0_93_def by (rule ok[OF b3 c_bounds(1,2)]) simp
  have m3: "int_mul_float base c_0_93 = Inr (round53 (round53 base * 8376695306909123) div 2 ^ 53)"
    unfolding c_0_93_def by (rule ok[OF b1 c_bounds(1,2)]) simp
  have s3: "int_mul_float (base * 3) c_0_07 = Inr (round53 (round53 (base * 3) * 1261007895663739) div 2 ^ 54)"
    unfolding c_0_07_def by (rule ok[OF b3 c_bounds(5,6)]) simp
  have t12: "int_mul_float (base * 12) c_0_83 = Inr (round53 (round53 (base * 12) * 7475975381435023) div 2 ^ 53)"
    unfolding c_0_83_def by (rule ok[OF b12 c_bounds(3,4)]) simp
  have m12: "int_mul_float base c_0_83 = Inr (round53 (round53 base * 7475975381435023) div 2 ^ 53)"
    unfolding c_0_83_def by (rule ok[OF b1 c_bounds(3,4)]) simp
  have s12: "int_mul_float (base * 12) c_0_17 = Inr (round53 (round53 (base * 12) * 6124895493223875) div 2 ^ 55)"
    unfolding c_0_17_def by (rule ok[OF b12 c_bounds(7,8)]) simp
  show ?thesis
    unfolding calculate_subscription_plans_def t3 m3 s3 t12 m12 s12 bind_err_def
    by simp
qed

lemma plans_2499:
  "int_mul_float (2499 * 3) c_0_93 = Inr 6972" "int_mul_float (2499 * 12) c_0_83 = Inr 24890"
  "int_mul_float (2499 * 3) c_0_07 = Inr 524" "int_mul_float (2499 * 12) c_0_17 = Inr 5097"
  by code_simp+

text \<open>
  At 2499 the totals are 2499, 6972 and 24890; the saving of the 3-month plan is 524,
  while the price without discount less the total is 7497 - 6972 = 525.
\<close>

theorem calculate_subscription_plans_spec_witness:
  "(0::int) \<le> 2499 \<and> (12::int) * 2499 < 2 ^ 1023
   \<and> (\<exists>monthly3 monthly12. calculate_subscription_plans 2499 =
      Inr [ (''1-month'', \<lparr> duration = ''1 month'', total = 2499, monthly = 2499, savings = 0 \<rparr>),
            (''3-month'', \<lparr> duration = ''3 months'', total = 6972, monthly = monthly3,
                            savings = 524 \<rparr>),
            (''12-month'', \<lparr> duration = ''12 months'', total = 24890, monthly = monthly12,
                             savings = 5097 \<rparr>) ])
   \<and> (524::int) \<noteq> 2499 * 3 - 6972"
proof -
  have h1: "(0::int) \<le> 2499" and h2: "(12::int) * 2499 < 2 ^ 1023" by simp_all
  from calculate_subscription_plans_spec[OF h1 h2] plans_2499
  show ?thesis using h1 h2 by auto
qed

lemma round53_ge_power:
  assumes "2 ^ k \<le> n"
  shows "2 ^ k \<le> round53 n"
proof (cases "bitlen \<bar>n\<bar> \<le> 53")
  case True
  with assms show ?thesis by (simp add: round53_def Let_def)
next
  case False
  have npos: "0 < n" using assms by (smt (verit) zero_less_power)
  define b where "b = bitlen n"
  define s where "s = nat (b - 53)"
  define q where "q = n div 2 ^ s"
  from False npos have b53: "53 < b" by (simp add: b_def)
  have eqb: "nat (b - 1) = 52 + s" using b53 by (simp add: s_def)
  have lo: "2 ^ nat (b - 1) \<le> n" using bitlen_bounds[OF npos] by (simp add: b_def)
  have "\<not> bitlen n \<le> int k"
    using assms npos by (simp add: bitlen_le_iff_power)
  then have kb: "k \<le> nat (b - 1)" by (simp add: b_def)
  have "(2::int) ^ 52 = (2 ^ 52 * 2 ^ s) div 2 ^ s" by simp
  also have "\<dots> \<le> n div 2 ^ s"
    using lo by (intro zdiv_mono1) (simp_all add: eqb power_add)
  finally have q52: "2 ^ 52 \<le> q" by (simp add: q_def)
  have "(2::int) ^ k \<le> 2 ^ nat (b - 1)" using kb by (intro power_increasing) auto
  also have "\<dots> = 2 ^ 52 * 2 ^ s" by (simp add: eqb power_add)
  also have "\<dots> \<le> q * 2 ^ s" using q52 by (intro mult_right_mono) auto
  also have "\<dots> \<le> round53 n"
    using False npos
    by (auto simp: round53_def Let_def b_def[symmetric] s_def[symmetric] q_def[symmetric] sgn_if)
  finally show ?thesis .
qed

lemma float_of_int_overflow: "2 ^ 1024 \<le> n \<Longrightarrow> float_of_int n = Inl OverflowError"
  using round53_ge_power[of 1024 n] by (simp add: float_of_int_def Let_def)

text \<open>
  C4, as the specification words it, fails for a base price beyond the range of a double:
  \<^verbatim>\<open>2**1024 * 3 * 0.93\<close> raises \<^verbatim>\<open>OverflowError\<close> (int too large to convert to float), and
  no plan is returned.
\<close>

theorem calculate_subscription_plans_overflow:
  "(0::int) \<le> 2 ^ 1024 \<and> calculate_subscription_plans (2 ^ 1024) = Inl OverflowError"
proof -
  have "(2::int) ^ 1024 \<le> 2 ^ 1024 * 3" by simp
  then have "float_of_int (2 ^ 1024 * 3) = Inl OverflowError" by (rule float_of_int_overflow)
  then show ?thesis
    by (simp add: calculate_subscription_plans_def bind_err_def int_mul_float_def)
qed

section \<open>Properties of the request log\<close>

lemma digit_val_digit_char: "d < 10 \<Longrightarrow> digit_val (digit_char d) = d"
proof -
  assume "d < 10"
  then have "d \<in> {0,1,2,3,4,5,6,7,8,9}" by auto
  then show ?thesis by (auto simp: digit_val_def digit_char_def)
qed

lemma nat_of_str_snoc: "nat_of_str (s @ [c]) = 10 * nat_of_str s + digit_val c"
  by (simp add: nat_of_str_def)

lemma nat_of_str_str_of_nat: "nat_of_str (str_of_nat n) = n"
proof (induction n rule: str_of_nat.induct)
  case (1 n)
  show ?case
  proof (cases "n < 10")
    case True
    then show ?thesis
      using nat_of_str_snoc[of "[]" "digit_char n"]
      by (simp add: digit_val_digit_char nat_of_str_def)
  next
    case False
    then have "str_of_nat n = str_of_nat (n div 10) @ [digit_char (n mod 10)]"
      by (subst str_of_nat.simps) simp
    with 1 False show ?thesis
      by (simp add: nat_of_str_snoc digit_val_digit_char del: str_of_nat.simps)
  qed
qed

lemma nat_of_str_zeros: "nat_of_str (replicate j (CHR ''0'') @ s) = nat_of_str s"
proof -
  have "foldl (\<lambda>acc c. 10 * acc + digit_val c) 0 (replicate j (CHR ''0'')) = 0"
    by (induction j) (simp_all add: digit_val_def)
  then show ?thesis by (simp add: nat_of_str_def)
qed

lemma nat_of_str_format_03d: "nat_of_str (format_03d n) = n"
  by (simp add: format_03d_def nat_of_str_zeros nat_of_str_str_of_nat del: str_of_nat.simps)

lemma length_str_of_nat_le3: "n < 1000 \<Longrightarrow> length (str_of_nat n) \<le> 3"
proof -
  assume n: "n < 1000"
  have a: "length (str_of_nat k) = 1" if "k < 10" for k using that by simp
  have b: "length (str_of_nat k) \<le> 2" if "k < 100" for k
  proof (cases "k < 10")
    case True then show ?thesis using a by simp
  next
    case False
    then have "str_of_nat k = str_of_nat (k div 10) @ [digit_char (k mod 10)]"
      by (subst str_of_nat.simps) simp
    moreover have "k div 10 < 10" using that by simp
    ultimately show ?thesis using a[of "k div 10"] by (simp del: str_of_nat.simps)
  qed
  show ?thesis
  proof (cases "n < 10")
    case True then show ?thesis using a by simp
  next
    case False
    then have "str_of_nat n = str_of_nat (n div 10) @ [digit_char (n mod 10)]"
      by (subst str_of_nat.simps) simp
    moreover have "n div 10 < 100" using n by simp
    ultimately show ?thesis using b[of "n div 10"] by (simp del: str_of_nat.simps)
  qed
qed

lemma length_format_03d: "n < 1000 \<Longrightarrow> length (format_03d n) = 3"
  using length_str_of_nat_le3[of n] by (simp add: format_03d_def del: str_of_nat.simps)

lemma save_request_writable:
  "json_writable m \<Longrightarrow>
   save_request d t m rd =
     Inr (''REQ_'' @ d @ ''_'' @
            format_03d (length (filter (\<lambda>r. prefix (''REQ_'' @ d) (request_id r))
                                  (get_all_requests m)) + 1),
          snd (projr (save_request d t m rd)))"
  by (simp add: save_request_def Let_def del: str_of_nat.simps)

lemma save_request_state:
  "json_writable m \<Longrightarrow>
   json_writable (snd (projr (save_request d t m rd)))
   \<and> length (filter (\<lambda>r. prefix (''REQ_'' @ d) (request_id r))
              (get_all_requests (snd (projr (save_request d t m rd)))))
     = length (filter (\<lambda>r. prefix (''REQ_'' @ d) (request_id r)) (get_all_requests m)) + 1"
  by (simp add: save_request_def Let_def get_all_requests_def del: str_of_nat.simps)

text \<open>
  C9, as the code has it. When the log file can be written, two calls of \<^verbatim>\<open>save_request\<close>
  on one day both return; with k the number of requests in the log whose identifier
  starts with \<^verbatim>\<open>REQ_\<close> and the date, the identifiers are that prefix, an underscore and
  the numbers k+1 and k+2 written with \<^verbatim>\<open>:03d\<close>. They differ in this suffix only, the
  suffixes read back as k+1 and k+2, and both have three digits as long as k+2 is below 1000.
\<close>

theorem save_request_twice:
  assumes "json_writable m"
  shows "\<exists>id1 m1 id2 m2.
      save_request date_str now1 m rd1 = Inr (id1, m1)
    \<and> save_request date_str now2 m1 rd2 = Inr (id2, m2)
    \<and> id1 = ''REQ_'' @ date_str @ ''_'' @
         format_03d (length (filter (\<lambda>r. prefix (''REQ_'' @ date_str) (request_id r))
                               (get_all_requests m)) + 1)
    \<and> id2 = ''REQ_'' @ date_str @ ''_'' @
         format_03d (length (filter (\<lambda>r. prefix (''REQ_'' @ date_str) (request_id r))
                               (get_all_requests m)) + 2)
    \<and> nat_of_str (drop (length (''REQ_'' @ date_str @ ''_'')) id1) + 1
        = nat_of_str (drop (length (''REQ_'' @ date_str @ ''_'')) id2)
    \<and> (length (filter (\<lambda>r. prefix (''REQ_'' @ date_str) (request_id r))
                  (get_all_requests m)) + 2 < 1000 \<longrightarrow>
          length (drop (length (''REQ_'' @ date_str @ ''_'')) id1) = 3
        \<and> length (drop (length (''REQ_'' @ date_str @ ''_'')) id2) = 3)"
proof -
  let ?k = "length (filter (\<lambda>r. prefix (''REQ_'' @ date_str) (request_id r)) (get_all_requests m))"
  let ?m1 = "snd (projr (save_request date_str now1 m rd1))"
  let ?m2 = "snd (projr (save_request date_str now2 ?m1 rd2))"
  let ?p = "''REQ_'' @ date_str @ ''_''"
  let ?i1 = "''REQ_'' @ date_str @ ''_'' @ format_03d (?k + 1)"
  let ?i2 = "''REQ_'' @ date_str @ ''_'' @ format_03d (?k + 2)"
  have st: "json_writable ?m1"
    "length (filter (\<lambda>r. prefix (''REQ_'' @ date_str) (request_id r)) (get_all_requests ?m1)) = ?k + 1"
    using save_request_state[OF assms, of date_str now1 rd1] by simp_all
  have 1: "save_request date_str now1 m rd1 = Inr (?i1, ?m1)"
    using save_request_writable[OF assms, of date_str now1 rd1] by simp
  have 2: "save_request date_str now2 ?m1 rd2 = Inr (?i2, ?m2)"
    using save_request_writable[OF st(1), of date_str now2 rd2] st(2) by simp
  have d1: "drop (length ?p) ?i1 = format_03d (?k + 1)"
    and d2: "drop (length ?p) ?i2 = format_03d (?k + 2)"
    by simp_all
  have 3: "nat_of_str (drop (length ?p) ?i1) + 1 = nat_of_str (drop (length ?p) ?i2)"
    unfolding d1 d2 by (simp add: nat_of_str_format_03d)
  have 4: "?k + 2 < 1000 \<longrightarrow>
             length (drop (length ?p) ?i1) = 3 \<and> length (drop (length ?p) ?i2) = 3"
    unfolding d1 d2 using length_format_03d[of "?k + 1"] length_format_03d[of "?k + 2"] by simp
  show ?thesis
    by (rule exI[of _ ?i1], rule exI[of _ ?m1], rule exI[of _ ?i2], rule exI[of _ ?m2])
       (use 1 2 3 4 in blast)
qed

lemma format_03d_values:
  "format_03d 1 = ''001''" "format_03d 2 = ''002''"
  "format_03d 999 = ''999''" "format_03d 1000 = ''1000''"
  "format_03d (Suc 0) = ''001''" "format_03d (Suc (Suc 0)) = ''002''"
  by code_simp+

theorem save_request_twice_witness:
  "json_writable empty_log
   \<and> map_sum id fst (save_request ''20261104'' ''2026-11-04T10:00:00'' empty_log
        example_request_data) = Inr ''REQ_20261104_001''
   \<and> map_sum id fst (save_request ''20261104'' ''2026-11-04T10:05:00''
        (snd (projr (save_request ''20261104'' ''2026-11-04T10:00:00'' empty_log
           example_request_data))) example_request_data) = Inr ''REQ_20261104_002''"
proof -
  have w: "json_writable empty_log" by (simp add: empty_log_def)
  have k: "length (filter (\<lambda>r. prefix (''REQ_'' @ ''20261104'') (request_id r))
             (get_all_requests empty_log)) = 0"
    by (simp add: empty_log_def get_all_requests_def)
  from save_request_twice[OF w, of "''20261104''" "''2026-11-04T10:00:00''"
      example_request_data "''2026-11-04T10:05:00''" example_request_data]
  obtain id1 m1 id2 m2 where
    r: "save_request ''20261104'' ''2026-11-04T10:00:00'' empty_log example_request_data
          = Inr (id1, m1)"
       "save_request ''20261104'' ''2026-11-04T10:05:00'' m1 example_request_data = Inr (id2, m2)"
       "id1 = ''REQ_'' @ ''20261104'' @ ''_'' @ format_03d (0 + 1)"
       "id2 = ''REQ_'' @ ''20261104'' @ ''_'' @ format_03d (0 + 2)"
    unfolding k by blast
  from r w show ?thesis by (simp add: format_03d_values del: str_of_nat.simps)
qed

lemma busy_log_count:
  "length (filter (\<lambda>r. prefix (''REQ_'' @ ''20261104'') (request_id r))
     (get_all_requests busy_log)) = 998"
proof -
  have "filter (\<lambda>r. prefix (''REQ_'' @ ''20261104'') (request_id r)) (map example_request xs)
          = map example_request xs" for xs
    by (induction xs) (simp_all add: example_request_def del: str_of_nat.simps)
  then show ?thesis by (simp add: busy_log_def get_all_requests_def)
qed

text \<open>
  C9, as the specification words it, fails at the thousandth request of a day: on a log
  with 998 requests of the day the two identifiers end in \<^verbatim>\<open>999\<close> and \<^verbatim>\<open>1000\<close>, and the
  second suffix has four digits (\<^verbatim>\<open>:03d\<close> is a minimum width).
\<close>

theorem save_request_four_digits:
  "map_sum id fst (save_request ''20261104'' ''2026-11-04T10:00:00'' busy_log
        example_request_data) = Inr ''REQ_20261104_999''
   \<and> map_sum id fst (save_request ''20261104'' ''2026-11-04T10:05:00''
        (snd (projr (save_request ''20261104'' ''2026-11-04T10:00:00'' busy_log
           example_request_data))) example_request_data) = Inr ''REQ_20261104_1000''
   \<and> length (drop (length ''REQ_20261104_'') ''REQ_20261104_1000'') \<noteq> 3"
proof -
  have w: "json_writable busy_log" by (simp add: busy_log_def)
  note st = save_request_state[OF w, of "''20261104''" "''2026-11-04T10:00:00''"
      example_request_data, unfolded busy_log_count]
  have 1: "save_request ''20261104'' ''2026-11-04T10:00:00'' busy_log example_request_data
        = Inr (''REQ_20261104_999'',
               snd (projr (save_request ''20261104'' ''2026-11-04T10:00:00'' busy_log
                 example_request_data)))"
    using save_request_writable[OF w, of "''20261104''" "''2026-11-04T10:00:00''"
        example_request_data, unfolded busy_log_count]
    by (simp add: format_03d_values del: str_of_nat.simps)
  have 2: "save_request ''20261104'' ''2026-11-04T10:05:00''
        (snd (projr (save_request ''20261104'' ''2026-11-04T10:00:00'' busy_log
           example_request_data))) example_request_data
        = Inr (''REQ_20261104_1000'',
               snd (projr (save_request ''20261104'' ''2026-11-04T10:05:00''
                 (snd (projr (save_request ''20261104'' ''2026-11-04T10:00:00'' busy_log
                    example_request_data))) example_request_data)))"
    using save_request_writable[OF conjunct1[OF st], of "''20261104''" "''2026-11-04T10:05:00''"
        example_request_data] conjunct2[OF st]
    by (simp add: format_03d_values del: str_of_nat.simps)
  show ?thesis
    by (subst 1, subst 2) simp
qed


section \<open>Properties of the store of objects\<close>

subsection \<open>get\_nearby\_gyms leaves the store alone\<close>

lemma prefix_nth: "prefix xs ys \<Longrightarrow> i < length xs \<Longrightarrow> ys ! i = xs ! i"
  by (auto simp: prefix_def nth_append)

lemma prefix_list_update: "prefix xs ys \<Longrightarrow> length xs \<le> l \<Longrightarrow> prefix xs (ys[l := v])"
  by (auto simp: prefix_def list_update_append)

lemma keeps_refl: "keeps h h"
  by (simp add: keeps_def)

lemma keeps_new_list: "keeps h0 h \<Longrightarrow> keeps h0 (fst (new_list h xs))"
  by (auto simp: keeps_def new_list_def intro: prefix_order.trans)

lemma keeps_append_dict: "keeps h0 h \<Longrightarrow> keeps h0 (h\<lparr>dict_objs := dict_objs h @ obs\<rparr>)"
  by (auto simp: keeps_def intro: prefix_order.trans)

lemma keeps_list_update:
  "keeps h0 h \<Longrightarrow> length (list_objs h0) \<le> l \<Longrightarrow>
   keeps h0 (h\<lparr>list_objs := (list_objs h)[l := xs]\<rparr>)"
  by (simp add: keeps_def prefix_list_update)

lemma keeps_dict: "keeps h0 h \<Longrightarrow> a < length (dict_objs h0) \<Longrightarrow> dict_objs h ! a = dict_objs h0 ! a"
  by (simp add: keeps_def prefix_nth)

lemma keeps_length: "keeps h0 h \<Longrightarrow> length (dict_objs h0) \<le> length (dict_objs h)"
  by (simp add: keeps_def prefix_length_le)

lemma keeps_stored_gyms:
  assumes wf: "wf_heap h" and k: "keeps h h'"
  shows "stored_gyms h' = stored_gyms h"
proof -
  have sg: "self_gyms h < length (list_objs h)" using wf by (simp add: wf_heap_def)
  have valid: "\<forall>a \<in> set (list_objs h ! self_gyms h). a < length (dict_objs h)"
    using wf sg by (auto simp: wf_heap_def)
  have own: "list_objs h' ! self_gyms h = list_objs h ! self_gyms h"
    using k sg by (simp add: keeps_def prefix_nth)
  have self: "self_gyms h' = self_gyms h" using k by (simp add: keeps_def)
  show ?thesis
    unfolding stored_gyms_def self own using valid keeps_dict[OF k] by simp
qed

lemma obj_distance_copy: "obj_distance (copy_with_distance ob d) \<noteq> None"
  by (simp add: copy_with_distance_def obj_distance_def)

lemma haversine_distance_error:
  "haversine_distance M lat1 lon1 lat2 lon2 = Inl e \<Longrightarrow> e = ValueError \<or> e = OverflowError"
  by (auto simp: haversine_distance_def bind_err_def or_raise_def Let_def
      split: option.splits)

text \<open>
  The loop keeps the store it started from, appends fresh copies to its list, and ends
  with the exception of a distance or with none.
\<close>

lemma nearby_loop_inv:
  assumes k: "keeps h0 h"
      and lo: "length (list_objs h0) \<le> gwd"
      and hi: "gwd < length (list_objs h)"
      and bound: "\<forall>a \<in> set as. a < length (dict_objs h0)"
      and fresh: "fresh_copies (length (dict_objs h0)) h gwd"
  shows "\<exists>h' err. nearby_loop M lat lon gwd as h = (h', err)
      \<and> keeps h0 h' \<and> length (list_objs h') = length (list_objs h)
      \<and> fresh_copies (length (dict_objs h0)) h' gwd
      \<and> (\<forall>e. err = Some e \<longrightarrow>
            (\<exists>a \<in> set as. gym_distance M lat lon (obj_gym (dict_objs h0 ! a)) = Inl e))
      \<and> ((\<forall>a \<in> set as. \<exists>d. gym_distance M lat lon (obj_gym (dict_objs h0 ! a)) = Inr d)
            \<longrightarrow> err = None)"
  using k hi fresh bound
proof (induction as arbitrary: h)
  case Nil
  then show ?case by simp
next
  case (Cons a as)
  note k = Cons.prems(1) and hi = Cons.prems(2) and fresh = Cons.prems(3)
  from Cons.prems(4) have a: "a < length (dict_objs h0)"
    and rest: "\<forall>a \<in> set as. a < length (dict_objs h0)" by simp_all
  have ob: "dict_objs h ! a = dict_objs h0 ! a" using k a by (rule keeps_dict)
  define ob where "ob = dict_objs h0 ! a"
  have gd: "haversine_distance M lat lon (latitude (obj_gym ob)) (longitude (obj_gym ob))
              = gym_distance M lat lon (obj_gym ob)"
    by (simp add: gym_distance_def)
  show ?case
  proof (cases "gym_distance M lat lon (obj_gym ob)")
    case (Inl e)
    then have "nearby_loop M lat lon gwd (a # as) h = (h, Some e)"
      using gd by (simp add: \<open>dict_objs h ! a = dict_objs h0 ! a\<close> ob_def Let_def)
    moreover have "\<exists>a' \<in> set (a # as). gym_distance M lat lon (obj_gym (dict_objs h0 ! a')) = Inl e"
      using Inl by (simp add: ob_def)
    moreover have "\<not> (\<forall>a' \<in> set (a # as). \<exists>d. gym_distance M lat lon (obj_gym (dict_objs h0 ! a')) = Inr d)"
      using Inl by (simp add: ob_def)
    ultimately show ?thesis using k fresh by blast
  next
    case (Inr d)
    define n where "n = length (dict_objs h)"
    define h1 where "h1 = h\<lparr>dict_objs := dict_objs h @ [copy_with_distance ob d],
                          list_objs := (list_objs h)[gwd := list_objs h ! gwd @ [n]]\<rparr>"
    have step: "nearby_loop M lat lon gwd (a # as) h = nearby_loop M lat lon gwd as h1"
      using Inr gd
      by (simp add: \<open>dict_objs h ! a = dict_objs h0 ! a\<close> ob_def[symmetric] Let_def new_dict_def
          list_append_def h1_def n_def)
    have d1: "dict_objs h1 = dict_objs h @ [copy_with_distance ob d]"
      and l1: "list_objs h1 = (list_objs h)[gwd := list_objs h ! gwd @ [n]]"
      by (simp_all add: h1_def)
    have k1: "keeps h0 h1"
      unfolding h1_def
      using keeps_list_update[OF keeps_append_dict[OF k, of "[copy_with_distance ob d]"] lo,
          of "list_objs h ! gwd @ [n]"]
      by simp
    have hi1: "gwd < length (list_objs h1)" using hi by (simp add: l1)
    have n0: "length (dict_objs h0) \<le> n" unfolding n_def using k by (rule keeps_length)
    have fresh1: "fresh_copies (length (dict_objs h0)) h1 gwd"
    proof -
      have g1: "list_objs h1 ! gwd = list_objs h ! gwd @ [n]" using hi by (simp add: l1)
      have old: "length (dict_objs h0) \<le> c \<and> c < length (dict_objs h1)
                 \<and> obj_distance (dict_objs h1 ! c) \<noteq> None"
        if "c \<in> set (list_objs h ! gwd)" for c
      proof -
        from that fresh have c: "length (dict_objs h0) \<le> c" "c < length (dict_objs h)"
          "obj_distance (dict_objs h ! c) \<noteq> None"
          by (simp_all add: fresh_copies_def list_all_iff)
        then show ?thesis by (simp add: d1 nth_append)
      qed
      have new: "length (dict_objs h0) \<le> n \<and> n < length (dict_objs h1)
                 \<and> obj_distance (dict_objs h1 ! n) \<noteq> None"
        using n0 by (simp add: d1 n_def obj_distance_copy)
      show ?thesis
        unfolding fresh_copies_def g1 list_all_iff using old new by auto
    qed
    from Cons.IH[OF k1 hi1 fresh1 rest] obtain h' err where
      run: "nearby_loop M lat lon gwd as h1 = (h', err)"
      and k': "keeps h0 h'"
      and len: "length (list_objs h') = length (list_objs h1)"
      and fresh': "fresh_copies (length (dict_objs h0)) h' gwd"
      and err1: "\<forall>e. err = Some e \<longrightarrow>
            (\<exists>a \<in> set as. gym_distance M lat lon (obj_gym (dict_objs h0 ! a)) = Inl e)"
      and err2: "(\<forall>a \<in> set as. \<exists>d. gym_distance M lat lon (obj_gym (dict_objs h0 ! a)) = Inr d)
            \<longrightarrow> err = None"
      by blast
    have "nearby_loop M lat lon gwd (a # as) h = (h', err)" using step run by simp
    moreover have "length (list_objs h') = length (list_objs h)" using len by (simp add: l1)
    moreover have "\<forall>e. err = Some e \<longrightarrow>
            (\<exists>a' \<in> set (a # as). gym_distance M lat lon (obj_gym (dict_objs h0 ! a')) = Inl e)"
      using err1 by auto
    moreover have "(\<forall>a' \<in> set (a # as). \<exists>d. gym_distance M lat lon (obj_gym (dict_objs h0 ! a')) = Inr d)
            \<longrightarrow> err = None"
      using err2 by auto
    ultimately show ?thesis using k' fresh' by blast
  qed
qed

lemma those_map_the:
  "\<forall>x \<in> set xs. f x \<noteq> None \<Longrightarrow> those (map f xs) = Some (map (\<lambda>x. the (f x)) xs)"
  by (induction xs) auto

lemma set_sort_refs:
  fixes M :: "('f, 'k::linorder) pymath"
  assumes "length ks = length cs"
      and "list_all (\<lambda>k. fkey M k \<noteq> None) ks \<or> sort_keeps_elements M"
  shows "set (sort_refs M (zip ks cs)) = set cs"
proof -
  have z: "snd ` set (zip ks cs) = set cs"
    using assms(1) by (metis map_snd_zip set_map)
  show ?thesis
  proof (cases "list_all (\<lambda>(k, c). fkey M k \<noteq> None) (zip ks cs)")
    case True
    then show ?thesis by (simp add: sort_refs_def z)
  next
    case False
    have "\<not> list_all (\<lambda>k. fkey M k \<noteq> None) ks"
    proof
      assume "list_all (\<lambda>k. fkey M k \<noteq> None) ks"
      then have "list_all (\<lambda>(k, c). fkey M k \<noteq> None) (zip ks cs)"
        by (auto simp: list_all_iff dest: set_zip_leftD)
      with False show False by contradiction
    qed
    with assms(2) have "sort_keeps_elements M" by blast
    then show ?thesis using False by (simp add: sort_refs_def sort_keeps_elements_def z)
  qed
qed

text \<open>The sort finds the key in every dictionary of a list of fresh copies.\<close>

lemma sort_by_distance_obj_inv:
  fixes M :: "('f, 'k::linorder) pymath"
  assumes k: "keeps h0 h"
      and lo: "length (list_objs h0) \<le> gwd"
      and hi: "gwd < length (list_objs h)"
      and fresh: "fresh_copies n h gwd"
  shows "\<exists>h'. sort_by_distance_obj M h gwd = (h', None)
      \<and> keeps h0 h' \<and> length (list_objs h') = length (list_objs h)
      \<and> dict_objs h' = dict_objs h
      \<and> (sort_keeps_elements M \<longrightarrow> fresh_copies n h' gwd)"
proof -
  define cs where "cs = list_objs h ! gwd"
  define ks where "ks = map (\<lambda>c. the (obj_distance (dict_objs h ! c))) cs"
  define h' where "h' = h\<lparr>list_objs := (list_objs h)[gwd := sort_refs M (zip ks cs)]\<rparr>"
  have "\<forall>c \<in> set cs. obj_distance (dict_objs h ! c) \<noteq> None"
    using fresh by (simp add: fresh_copies_def list_all_iff cs_def)
  from those_map_the[OF this]
  have "those (map (\<lambda>c. obj_distance (dict_objs h ! c)) (list_objs h ! gwd)) = Some ks"
    by (simp add: ks_def cs_def)
  then have run: "sort_by_distance_obj M h gwd = (h', None)"
    by (simp add: sort_by_distance_obj_def h'_def cs_def)
  have k': "keeps h0 h'"
    unfolding h'_def using k lo by (rule keeps_list_update)
  have len: "length (list_objs h') = length (list_objs h)" and d: "dict_objs h' = dict_objs h"
    by (simp_all add: h'_def)
  have f: "fresh_copies n h' gwd" if "sort_keeps_elements M"
  proof -
    have "length ks = length cs" by (simp add: ks_def)
    from set_sort_refs[OF this, of M] that
    have "set (sort_refs M (zip ks cs)) = set cs" by blast
    moreover have "list_objs h' ! gwd = sort_refs M (zip ks cs)"
      using hi by (simp add: h'_def)
    ultimately show ?thesis
      using fresh by (simp add: fresh_copies_def list_all_iff d cs_def)
  qed
  from run k' len d f show ?thesis by blast
qed

lemma set_py_slice_to: "set (py_slice_to xs k) \<subseteq> set xs"
  by (auto simp: py_slice_to_def dest: in_set_takeD)

text \<open>The function from the list of candidates on.\<close>

lemma nearby_from:
  fixes M :: "('f, 'k::linorder) pymath"
  assumes k: "keeps h h1"
      and gs: "gs < length (list_objs h1)"
      and bound: "\<forall>a \<in> set (list_objs h1 ! gs). a < length (dict_objs h)"
  shows "\<exists>h' res.
      (let (h2, gwd) = new_list h1 []
       in case nearby_loop M lat lon gwd (list_objs h2 ! gs) h2 of
            (h3, Some e) \<Rightarrow> (h3, Inl e)
          | (h3, None) \<Rightarrow>
              (case sort_by_distance_obj M h3 gwd of
                 (h4, Some e) \<Rightarrow> (h4, Inl e)
               | (h4, None) \<Rightarrow>
                   (let (h5, r) = new_list h4 (py_slice_to (list_objs h4 ! gwd) limit)
                    in (h5, Inr r)))) = (h', res)
    \<and> keeps h h'
    \<and> (\<forall>e. res = Inl e \<longrightarrow>
          (\<exists>a \<in> set (list_objs h1 ! gs). gym_distance M lat lon (obj_gym (dict_objs h ! a)) = Inl e))
    \<and> ((\<forall>a \<in> set (list_objs h1 ! gs). \<exists>d. gym_distance M lat lon (obj_gym (dict_objs h ! a)) = Inr d)
          \<longrightarrow> (\<exists>r. res = Inr r))
    \<and> (\<forall>r. res = Inr r \<longrightarrow>
          length (list_objs h) \<le> r \<and> r < length (list_objs h')
        \<and> (sort_keeps_elements M \<longrightarrow> fresh_copies (length (dict_objs h)) h' r))"
proof -
  define gwd where "gwd = length (list_objs h1)"
  define h2 where "h2 = h1\<lparr>list_objs := list_objs h1 @ [[]]\<rparr>"
  define cands where "cands = list_objs h1 ! gs"
  have nl: "new_list h1 [] = (h2, gwd)" by (simp add: new_list_def h2_def gwd_def)
  have c2: "list_objs h2 ! gs = cands" using gs by (simp add: h2_def cands_def nth_append)
  have k2: "keeps h h2" using keeps_new_list[OF k, of "[]"] by (simp add: new_list_def h2_def)
  have lo: "length (list_objs h) \<le> gwd"
    using k by (simp add: gwd_def keeps_def prefix_length_le)
  have hi2: "gwd < length (list_objs h2)" by (simp add: h2_def gwd_def)
  have fresh2: "fresh_copies (length (dict_objs h)) h2 gwd"
    by (simp add: fresh_copies_def h2_def gwd_def)
  have b: "\<forall>a \<in> set cands. a < length (dict_objs h)" using bound by (simp add: cands_def)
  from nearby_loop_inv[OF k2 lo hi2 b fresh2, of M lat lon] obtain h3 err where
    run: "nearby_loop M lat lon gwd cands h2 = (h3, err)"
    and k3: "keeps h h3"
    and len3: "length (list_objs h3) = length (list_objs h2)"
    and fresh3: "fresh_copies (length (dict_objs h)) h3 gwd"
    and err1: "\<forall>e. err = Some e \<longrightarrow>
          (\<exists>a \<in> set cands. gym_distance M lat lon (obj_gym (dict_objs h ! a)) = Inl e)"
    and err2: "(\<forall>a \<in> set cands. \<exists>d. gym_distance M lat lon (obj_gym (dict_objs h ! a)) = Inr d)
          \<longrightarrow> err = None"
    by blast
  let ?rest = "\<lambda>h3 err. case (h3, err) of
            (h3, Some e) \<Rightarrow> (h3, Inl e)
          | (h3, None) \<Rightarrow>
              (case sort_by_distance_obj M h3 gwd of
                 (h4, Some e) \<Rightarrow> (h4, Inl e)
               | (h4, None) \<Rightarrow>
                   (let (h5, r) = new_list h4 (py_slice_to (list_objs h4 ! gwd) limit)
                    in (h5, Inr r)))"
  have whole: "(let (h2, gwd) = new_list h1 []
       in case nearby_loop M lat lon gwd (list_objs h2 ! gs) h2 of
            (h3, Some e) \<Rightarrow> (h3, Inl e)
          | (h3, None) \<Rightarrow>
              (case sort_by_distance_obj M h3 gwd of
                 (h4, Some e) \<Rightarrow> (h4, Inl e)
               | (h4, None) \<Rightarrow>
                   (let (h5, r) = new_list h4 (py_slice_to (list_objs h4 ! gwd) limit)
                    in (h5, Inr r)))) = ?rest h3 err"
    by (simp add: nl c2 run)
  show ?thesis
  proof (cases err)
    case (Some e)
    then have "?rest h3 err = (h3, Inl e)" by simp
    moreover have "\<exists>a \<in> set cands. gym_distance M lat lon (obj_gym (dict_objs h ! a)) = Inl e"
      using err1 Some by blast
    moreover have "\<not> (\<forall>a \<in> set cands. \<exists>d. gym_distance M lat lon (obj_gym (dict_objs h ! a)) = Inr d)"
      using err2 Some by auto
    ultimately show ?thesis
      unfolding whole cands_def[symmetric] using k3 by auto
  next
    case None
    have hi3: "gwd < length (list_objs h3)" using hi2 len3 by simp
    from sort_by_distance_obj_inv[OF k3 lo hi3 fresh3, of M] obtain h4 where
      srt: "sort_by_distance_obj M h3 gwd = (h4, None)"
      and k4: "keeps h h4"
      and len4: "length (list_objs h4) = length (list_objs h3)"
      and d4: "dict_objs h4 = dict_objs h3"
      and fresh4: "sort_keeps_elements M \<longrightarrow> fresh_copies (length (dict_objs h)) h4 gwd"
      by blast
    define r where "r = length (list_objs h4)"
    define h5 where "h5 = h4\<lparr>list_objs := list_objs h4 @ [py_slice_to (list_objs h4 ! gwd) limit]\<rparr>"
    have res: "?rest h3 err = (h5, Inr r)"
      using None by (simp add: srt new_list_def h5_def r_def)
    have k5: "keeps h h5"
      using keeps_new_list[OF k4, of "py_slice_to (list_objs h4 ! gwd) limit"]
      by (simp add: new_list_def h5_def)
    have r1: "length (list_objs h) \<le> r"
      using k4 by (simp add: r_def keeps_def prefix_length_le)
    have r2: "r < length (list_objs h5)" by (simp add: h5_def r_def)
    have f5: "fresh_copies (length (dict_objs h)) h5 r" if "sort_keeps_elements M"
    proof -
      from that fresh4 have f4: "fresh_copies (length (dict_objs h)) h4 gwd" by blast
      have "list_objs h5 ! r = py_slice_to (list_objs h4 ! gwd) limit"
        by (simp add: h5_def r_def)
      moreover have "dict_objs h5 = dict_objs h4" by (simp add: h5_def)
      ultimately show ?thesis
        using f4 set_py_slice_to[of "list_objs h4 ! gwd" limit]
        by (auto simp: fresh_copies_def list_all_iff)
    qed
    from res k5 r1 r2 f5 show ?thesis
      unfolding whole by auto
  qed
qed

lemma get_gyms_by_partner_obj_new:
  "partner \<noteq> [] \<Longrightarrow>
   get_gyms_by_partner_obj L h partner =
     (h\<lparr>list_objs := list_objs h @
          [filter (\<lambda>a. str_lower L (partner_name (obj_gym (dict_objs h ! a))) = str_lower L partner)
                  (list_objs h ! self_gyms h)]\<rparr>,
      length (list_objs h))"
  by (simp add: get_gyms_by_partner_obj_def new_list_def)

text \<open>The candidates are a list of stored dictionaries, in a store that keeps the old one.\<close>

lemma nearby_candidates:
  assumes wf: "wf_heap h"
  shows "\<exists>h1 gs.
      (case partner of
         None \<Rightarrow> (h, self_gyms h)
       | Some p \<Rightarrow> if p \<noteq> [] then get_gyms_by_partner_obj L h p else (h, self_gyms h)) = (h1, gs)
    \<and> keeps h h1 \<and> gs < length (list_objs h1)
    \<and> set (list_objs h1 ! gs) \<subseteq> set (list_objs h ! self_gyms h)"
proof -
  have sg: "self_gyms h < length (list_objs h)" using wf by (simp add: wf_heap_def)
  show ?thesis
  proof (cases "\<exists>p. partner = Some p \<and> p \<noteq> []")
    case False
    then have "(case partner of
         None \<Rightarrow> (h, self_gyms h)
       | Some p \<Rightarrow> if p \<noteq> [] then get_gyms_by_partner_obj L h p else (h, self_gyms h))
         = (h, self_gyms h)"
      by (auto split: option.splits)
    with sg keeps_refl[of h] show ?thesis by auto
  next
    case True
    then obtain p where p: "partner = Some p" "p \<noteq> []" by blast
    define flt where "flt = filter (\<lambda>a. str_lower L (partner_name (obj_gym (dict_objs h ! a)))
                                          = str_lower L p) (list_objs h ! self_gyms h)"
    define h1 where "h1 = h\<lparr>list_objs := list_objs h @ [flt]\<rparr>"
    have "(case partner of
         None \<Rightarrow> (h, self_gyms h)
       | Some p \<Rightarrow> if p \<noteq> [] then get_gyms_by_partner_obj L h p else (h, self_gyms h))
         = (h1, length (list_objs h))"
      using p by (simp add: get_gyms_by_partner_obj_new h1_def flt_def)
    moreover have "keeps h h1" by (simp add: keeps_def h1_def)
    moreover have "length (list_objs h) < length (list_objs h1)" by (simp add: h1_def)
    moreover have "set (list_objs h1 ! length (list_objs h)) \<subseteq> set (list_objs h ! self_gyms h)"
      by (simp add: h1_def flt_def)
    ultimately show ?thesis by blast
  qed
qed

text \<open>
  C10. On a store without dangling references, whether \<^verbatim>\<open>get_nearby_gyms\<close> returns a list
  or raises: \<^verbatim>\<open>self.gyms\<close> is the same list, every dictionary and every list that existed
  is unchanged (the objects of the new store begin with the old ones), so the stored
  records are what they were and none has gained a distance. An exception that leaves
  the call is the exception of the distance of a stored record (the sort raises no
  \<^verbatim>\<open>KeyError\<close>), and the call returns when every such distance is computed. The result is
  then a new list, and each of its elements is a new dictionary that has a distance.
\<close>

theorem get_nearby_gyms_obj_frame:
  fixes M :: "('f, 'k::linorder) pymath"
  assumes wf: "wf_heap h"
  shows "\<exists>h' res.
      get_nearby_gyms_obj M L h lat lon partner limit = (h', res)
    \<and> self_gyms h' = self_gyms h
    \<and> prefix (dict_objs h) (dict_objs h') \<and> prefix (list_objs h) (list_objs h')
    \<and> stored_gyms h' = stored_gyms h
    \<and> (\<forall>e. res = Inl e \<longrightarrow>
          (\<exists>ob \<in> set (stored_gyms h). gym_distance M lat lon (obj_gym ob) = Inl e))
    \<and> ((\<forall>ob \<in> set (stored_gyms h). \<exists>d. gym_distance M lat lon (obj_gym ob) = Inr d)
          \<longrightarrow> (\<exists>r. res = Inr r))
    \<and> (\<forall>r. res = Inr r \<longrightarrow>
          length (list_objs h) \<le> r \<and> r < length (list_objs h')
        \<and> (sort_keeps_elements M \<longrightarrow>
             (\<forall>c \<in> set (list_objs h' ! r).
                 length (dict_objs h) \<le> c \<and> c < length (dict_objs h')
               \<and> obj_distance (dict_objs h' ! c) \<noteq> None)))"
proof -
  have sg: "self_gyms h < length (list_objs h)" using wf by (simp add: wf_heap_def)
  have valid: "\<forall>a \<in> set (list_objs h ! self_gyms h). a < length (dict_objs h)"
    using wf sg by (auto simp: wf_heap_def)
  from nearby_candidates[OF wf, where partner = partner and L = L] obtain h1 gs where
    first: "(case partner of
         None \<Rightarrow> (h, self_gyms h)
       | Some p \<Rightarrow> if p \<noteq> [] then get_gyms_by_partner_obj L h p else (h, self_gyms h)) = (h1, gs)"
    and k1: "keeps h h1" and gs: "gs < length (list_objs h1)"
    and sub: "set (list_objs h1 ! gs) \<subseteq> set (list_objs h ! self_gyms h)"
    by blast
  have bound: "\<forall>a \<in> set (list_objs h1 ! gs). a < length (dict_objs h)"
    using sub valid by blast
  have call: "get_nearby_gyms_obj M L h lat lon partner limit =
      (let (h2, gwd) = new_list h1 []
       in case nearby_loop M lat lon gwd (list_objs h2 ! gs) h2 of
            (h3, Some e) \<Rightarrow> (h3, Inl e)
          | (h3, None) \<Rightarrow>
              (case sort_by_distance_obj M h3 gwd of
                 (h4, Some e) \<Rightarrow> (h4, Inl e)
               | (h4, None) \<Rightarrow>
                   (let (h5, r) = new_list h4 (py_slice_to (list_objs h4 ! gwd) limit)
                    in (h5, Inr r))))"
    unfolding get_nearby_gyms_obj_def first Let_def prod.case by (rule refl)
  from nearby_from[OF k1 gs bound, where M = M and lat = lat and lon = lon and limit = limit]
  obtain h' res where
    run: "get_nearby_gyms_obj M L h lat lon partner limit = (h', res)"
    and k: "keeps h h'"
    and e1: "\<forall>e. res = Inl e \<longrightarrow>
          (\<exists>a \<in> set (list_objs h1 ! gs). gym_distance M lat lon (obj_gym (dict_objs h ! a)) = Inl e)"
    and e2: "(\<forall>a \<in> set (list_objs h1 ! gs). \<exists>d. gym_distance M lat lon (obj_gym (dict_objs h ! a)) = Inr d)
          \<longrightarrow> (\<exists>r. res = Inr r)"
    and r: "\<forall>r. res = Inr r \<longrightarrow>
          length (list_objs h) \<le> r \<and> r < length (list_objs h')
        \<and> (sort_keeps_elements M \<longrightarrow> fresh_copies (length (dict_objs h)) h' r)"
    unfolding call by blast
  have stored: "dict_objs h ! a \<in> set (stored_gyms h)" if "a \<in> set (list_objs h1 ! gs)" for a
    using that sub by (auto simp: stored_gyms_def)
  have 1: "self_gyms h' = self_gyms h" "prefix (dict_objs h) (dict_objs h')"
    "prefix (list_objs h) (list_objs h')"
    using k by (simp_all add: keeps_def)
  have 2: "stored_gyms h' = stored_gyms h" using wf k by (rule keeps_stored_gyms)
  have 3: "\<exists>ob \<in> set (stored_gyms h). gym_distance M lat lon (obj_gym ob) = Inl e"
    if "res = Inl e" for e
    using e1 that stored by blast
  have 4: "\<exists>r. res = Inr r"
    if "\<forall>ob \<in> set (stored_gyms h). \<exists>d. gym_distance M lat lon (obj_gym ob) = Inr d"
    using e2 that stored by blast
  have 5: "length (list_objs h) \<le> r' \<and> r' < length (list_objs h')
        \<and> (sort_keeps_elements M \<longrightarrow>
             (\<forall>c \<in> set (list_objs h' ! r').
                 length (dict_objs h) \<le> c \<and> c < length (dict_objs h')
               \<and> obj_distance (dict_objs h' ! c) \<noteq> None))"
    if "res = Inr r'" for r'
    using r that by (simp add: fresh_copies_def list_all_iff)
  from run 1 2 3 4 5 show ?thesis by blast
qed

lemma wf_example_heap: "wf_heap example_heap"
  by (simp add: wf_heap_def example_heap_def)

lemma stored_example_heap: "stored_gyms example_heap = [Gym gym_a, Gym gym_b]"
  by (simp add: stored_gyms_def example_heap_def)

lemma infinite_latitude_distance:
  "haversine_distance demo_math PInf (Fin 73) (latitude gym_a) (longitude gym_a) = Inl ValueError"
  unfolding haversine_distance_steps d_sin_half_squared
  by (simp add: gym_a_def demo_math_sel d_sub_def bind_err_def)

lemma infinite_latitude_obj:
  "snd (get_nearby_gyms_obj demo_math demo_lib example_heap PInf (Fin 73) None 5) = Inl ValueError"
  using infinite_latitude_distance
  by (simp add: get_nearby_gyms_obj_def new_list_def example_heap_def obj_gym_def Let_def)

lemma sort_keeps_elements_demo: "sort_keeps_elements demo_math"
  by (simp add: sort_keeps_elements_def demo_math_sel)

theorem get_nearby_gyms_obj_frame_witness:
  "wf_heap example_heap
   \<and> sort_keeps_elements demo_math
   \<and> (\<exists>h' r. get_nearby_gyms_obj demo_math demo_lib example_heap (Fin 19) (Fin 73)
                (Some ''golds'') 5 = (h', Inr r)
         \<and> stored_gyms h' = stored_gyms example_heap
         \<and> prefix (dict_objs example_heap) (dict_objs h')
         \<and> length (list_objs example_heap) \<le> r
         \<and> list_all (\<lambda>c. length (dict_objs example_heap) \<le> c
                            \<and> obj_distance (dict_objs h' ! c) \<noteq> None) (list_objs h' ! r))
   \<and> (\<exists>h'. get_nearby_gyms_obj demo_math demo_lib example_heap PInf (Fin 73) None 5
                = (h', Inl ValueError)
         \<and> stored_gyms h' = stored_gyms example_heap
         \<and> prefix (dict_objs example_heap) (dict_objs h'))"
proof -
  have all: "\<forall>ob \<in> set (stored_gyms example_heap).
               \<exists>d. gym_distance demo_math (Fin 19) (Fin 73) (obj_gym ob) = Inr d"
    by (simp add: stored_example_heap obj_gym_def example_distances)
  from get_nearby_gyms_obj_frame[OF wf_example_heap, where M = demo_math and L = demo_lib
      and lat = "Fin 19" and lon = "Fin 73" and partner = "Some ''golds''" and limit = 5]
    all sort_keeps_elements_demo
  have a: "\<exists>h' r. get_nearby_gyms_obj demo_math demo_lib example_heap (Fin 19) (Fin 73)
                (Some ''golds'') 5 = (h', Inr r)
         \<and> stored_gyms h' = stored_gyms example_heap
         \<and> prefix (dict_objs example_heap) (dict_objs h')
         \<and> length (list_objs example_heap) \<le> r
         \<and> list_all (\<lambda>c. length (dict_objs example_heap) \<le> c
                            \<and> obj_distance (dict_objs h' ! c) \<noteq> None) (list_objs h' ! r)"
    unfolding list_all_iff by blast
  from get_nearby_gyms_obj_frame[OF wf_example_heap, where M = demo_math and L = demo_lib
      and lat = PInf and lon = "Fin 73" and partner = None and limit = 5]
  obtain h' res where
    run: "get_nearby_gyms_obj demo_math demo_lib example_heap PInf (Fin 73) None 5 = (h', res)"
    and st: "stored_gyms h' = stored_gyms example_heap"
    and pre: "prefix (dict_objs example_heap) (dict_objs h')"
    by blast
  from run infinite_latitude_obj have "res = Inl ValueError" by simp
  with run st pre
  have b: "\<exists>h'. get_nearby_gyms_obj demo_math demo_lib example_heap PInf (Fin 73) None 5
                = (h', Inl ValueError)
         \<and> stored_gyms h' = stored_gyms example_heap
         \<and> prefix (dict_objs example_heap) (dict_objs h')"
    by blast
  from wf_example_heap sort_keeps_elements_demo a b show ?thesis by blast
qed

subsection \<open>The reads return references\<close>

lemma find_Some_in: "find P xs = Some a \<Longrightarrow> a \<in> set xs \<and> P a"
  by (auto simp: find_Some_iff)

text \<open>
  C2, as the code has it. The reads leave the store as it is, and what they return are
  references into it, not copies. \<^verbatim>\<open>get_gym_by_id\<close> returns the stored dictionary with
  that identifier: what a caller assigns to it is then among the stored records.
  \<^verbatim>\<open>get_gyms_by_partner\<close> with an empty filter returns the list \<^verbatim>\<open>self.gyms\<close> itself: what a
  caller assigns to it is the store's list. With a filter it returns a new list, which
  holds the stored dictionaries that match the filter, in their order: a caller that
  changes this list does not change the stored records.
\<close>

theorem reads_return_references:
  assumes wf: "wf_heap h"
  shows "(\<forall>a. get_gym_by_id_obj h gym_id = Some a \<longrightarrow>
            a \<in> set (list_objs h ! self_gyms h)
          \<and> id' (obj_gym (dict_objs h ! a)) = gym_id
          \<and> (\<forall>ob. ob \<in> set (stored_gyms (caller_sets_dict h a ob))))
       \<and> get_gyms_by_partner_obj L h [] = (h, self_gyms h)
       \<and> (\<forall>xs. list_objs (caller_sets_list h (self_gyms h) xs) ! self_gyms h = xs)
       \<and> (partner \<noteq> [] \<longrightarrow>
            (\<exists>h' r. get_gyms_by_partner_obj L h partner = (h', r)
               \<and> r = length (list_objs h) \<and> r \<noteq> self_gyms h
               \<and> dict_objs h' = dict_objs h \<and> self_gyms h' = self_gyms h
               \<and> stored_gyms h' = stored_gyms h
               \<and> list_objs h' ! r
                   = filter (\<lambda>a. str_lower L (partner_name (obj_gym (dict_objs h ! a)))
                                   = str_lower L partner)
                       (list_objs h ! self_gyms h)
               \<and> set (list_objs h' ! r) \<subseteq> set (list_objs h ! self_gyms h)
               \<and> (\<forall>a \<in> set (list_objs h' ! r).
                     str_lower L (partner_name (obj_gym (dict_objs h ! a))) = str_lower L partner)
               \<and> (\<forall>xs. stored_gyms (caller_sets_list h' r xs) = stored_gyms h)))"
proof -
  have sg: "self_gyms h < length (list_objs h)" using wf by (simp add: wf_heap_def)
  have valid: "\<forall>a \<in> set (list_objs h ! self_gyms h). a < length (dict_objs h)"
    using wf sg by (auto simp: wf_heap_def)
  have 1: "a \<in> set (list_objs h ! self_gyms h)
          \<and> id' (obj_gym (dict_objs h ! a)) = gym_id
          \<and> (\<forall>ob. ob \<in> set (stored_gyms (caller_sets_dict h a ob)))"
    if "get_gym_by_id_obj h gym_id = Some a" for a
  proof -
    from that have mem: "a \<in> set (list_objs h ! self_gyms h)"
      and idk: "id' (obj_gym (dict_objs h ! a)) = gym_id"
      unfolding get_gym_by_id_obj_def by (auto dest: find_Some_in)
    from mem valid have lt: "a < length (dict_objs h)" by blast
    have "ob \<in> set (stored_gyms (caller_sets_dict h a ob))" for ob
    proof -
      have "(dict_objs h)[a := ob] ! a = ob" using lt by simp
      then have "ob \<in> (\<lambda>x. (dict_objs h)[a := ob] ! x) ` set (list_objs h ! self_gyms h)"
        using mem by (metis imageI)
      then show ?thesis by (simp add: stored_gyms_def caller_sets_dict_def)
    qed
    with mem idk show ?thesis by blast
  qed
  have 2: "get_gyms_by_partner_obj L h [] = (h, self_gyms h)"
    by (simp add: get_gyms_by_partner_obj_def)
  have 3: "list_objs (caller_sets_list h (self_gyms h) xs) ! self_gyms h = xs" for xs
    using sg by (simp add: caller_sets_list_def)
  have 4: "\<exists>h' r. get_gyms_by_partner_obj L h partner = (h', r)
               \<and> r = length (list_objs h) \<and> r \<noteq> self_gyms h
               \<and> dict_objs h' = dict_objs h \<and> self_gyms h' = self_gyms h
               \<and> stored_gyms h' = stored_gyms h
               \<and> list_objs h' ! r
                   = filter (\<lambda>a. str_lower L (partner_name (obj_gym (dict_objs h ! a)))
                                   = str_lower L partner)
                       (list_objs h ! self_gyms h)
               \<and> set (list_objs h' ! r) \<subseteq> set (list_objs h ! self_gyms h)
               \<and> (\<forall>a \<in> set (list_objs h' ! r).
                     str_lower L (partner_name (obj_gym (dict_objs h ! a))) = str_lower L partner)
               \<and> (\<forall>xs. stored_gyms (caller_sets_list h' r xs) = stored_gyms h)"
    if ne: "partner \<noteq> []"
  proof -
    define flt where "flt = filter (\<lambda>a. str_lower L (partner_name (obj_gym (dict_objs h ! a)))
                                          = str_lower L partner)
                  (list_objs h ! self_gyms h)"
    define h' where "h' = h\<lparr>list_objs := list_objs h @ [flt]\<rparr>"
    define r where "r = length (list_objs h)"
    have g: "get_gyms_by_partner_obj L h partner = (h', r)"
      unfolding h'_def r_def flt_def using ne by (rule get_gyms_by_partner_obj_new)
    have a: "r \<noteq> self_gyms h" using sg by (simp add: r_def)
    have b: "dict_objs h' = dict_objs h" "self_gyms h' = self_gyms h" by (simp_all add: h'_def)
    have own: "list_objs h' ! self_gyms h = list_objs h ! self_gyms h"
      using sg by (simp add: h'_def nth_append)
    have c: "stored_gyms h' = stored_gyms h"
      by (simp add: stored_gyms_def b own)
    have rr: "list_objs h' ! r = flt" by (simp add: h'_def r_def)
    have d: "set (list_objs h' ! r) \<subseteq> set (list_objs h ! self_gyms h)"
      unfolding rr flt_def by simp
    have e: "\<forall>a \<in> set (list_objs h' ! r).
               str_lower L (partner_name (obj_gym (dict_objs h ! a))) = str_lower L partner"
      unfolding rr flt_def by simp
    have f: "stored_gyms (caller_sets_list h' r xs) = stored_gyms h" for xs
    proof -
      have "list_objs (caller_sets_list h' r xs) ! self_gyms h = list_objs h ! self_gyms h"
        using a own by (simp add: caller_sets_list_def)
      then show ?thesis
        by (simp add: stored_gyms_def caller_sets_list_def b)
    qed
    from g a b c rr d e f show ?thesis unfolding r_def[symmetric] flt_def[symmetric] by blast
  qed
  from 1 2 3 4 show ?thesis by blast
qed

theorem reads_return_references_witness:
  "wf_heap example_heap
   \<and> get_gym_by_id_obj example_heap 2 = Some 1
   \<and> Gym (gym_b\<lparr>gym_name := ''Closed''\<rparr>)
       \<in> set (stored_gyms (caller_sets_dict example_heap 1 (Gym (gym_b\<lparr>gym_name := ''Closed''\<rparr>))))
   \<and> get_gyms_by_partner_obj demo_lib example_heap [] = (example_heap, 0)
   \<and> (\<exists>h'. get_gyms_by_partner_obj demo_lib example_heap ''golds'' = (h', 1)
          \<and> list_objs h' ! 1 = [1]
          \<and> stored_gyms (caller_sets_list h' 1 []) = stored_gyms example_heap)"
proof -
  have g: "get_gym_by_id_obj example_heap 2 = Some 1"
    by (simp add: get_gym_by_id_obj_def example_heap_def obj_gym_def gym_a_def gym_b_def)
  note spec = reads_return_references[OF wf_example_heap, of 2 demo_lib "''golds''"]
  from spec g
  have "Gym (gym_b\<lparr>gym_name := ''Closed''\<rparr>)
       \<in> set (stored_gyms (caller_sets_dict example_heap 1 (Gym (gym_b\<lparr>gym_name := ''Closed''\<rparr>))))"
    by blast
  moreover from spec have "get_gyms_by_partner_obj demo_lib example_heap [] = (example_heap, 0)"
    by (simp add: example_heap_def)
  moreover have flt: "filter (\<lambda>a. str_lower demo_lib (partner_name (obj_gym (dict_objs example_heap ! a)))
                                = str_lower demo_lib ''golds'')
                  (list_objs example_heap ! self_gyms example_heap) = [1]"
    using demo_lower_golds
    by (simp add: example_heap_def obj_gym_def gym_a_def gym_b_def demo_lib_def)
  have ne: "''golds'' \<noteq> []" by simp
  from spec ne obtain h' r where
    run: "get_gyms_by_partner_obj demo_lib example_heap ''golds'' = (h', r)"
    and r: "r = length (list_objs example_heap)"
    and l: "list_objs h' ! r
              = filter (\<lambda>a. str_lower demo_lib (partner_name (obj_gym (dict_objs example_heap ! a)))
                              = str_lower demo_lib ''golds'')
                  (list_objs example_heap ! self_gyms example_heap)"
    and c: "\<forall>xs. stored_gyms (caller_sets_list h' r xs) = stored_gyms example_heap"
    by blast
  have r1: "r = 1" using r by (simp add: example_heap_def)
  have "\<exists>h'. get_gyms_by_partner_obj demo_lib example_heap ''golds'' = (h', 1)
          \<and> list_objs h' ! 1 = [1]
          \<and> stored_gyms (caller_sets_list h' 1 []) = stored_gyms example_heap"
    using run l c unfolding flt r1 by blast
  ultimately show ?thesis using wf_example_heap g by blast
qed

text \<open>
  C2, as the specification words it, fails: \<^verbatim>\<open>get_gym_by_id(2)\<close> returns the dictionary at
  address 1, and after the caller has set its \<^verbatim>\<open>gym_name\<close> the store holds other records.
\<close>

theorem caller_mutation_reaches_store:
  "get_gym_by_id_obj example_heap 2 = Some 1
   \<and> stored_gyms (caller_sets_dict example_heap 1 (Gym (gym_b\<lparr>gym_name := ''Closed''\<rparr>)))
       \<noteq> stored_gyms example_heap"
  by (simp add: get_gym_by_id_obj_def caller_sets_dict_def stored_gyms_def example_heap_def
      obj_gym_def gym_a_def gym_b_def)

subsection \<open>The store of objects and the store of values\<close>

text \<open>
  Read through the references, the reads on the store of objects return what the reads
  on the list of records return.
\<close>

lemma find_map: "find P (map f xs) = map_option f (find (\<lambda>x. P (f x)) xs)"
  by (induction xs) auto

lemma get_gym_by_id_obj_value:
  "map_option (\<lambda>a. obj_gym (dict_objs h ! a)) (get_gym_by_id_obj h k)
     = get_gym_by_id \<lparr> gyms = map obj_gym (stored_gyms h), csv = c, writable = w \<rparr> k"
  by (simp add: get_gym_by_id_obj_def get_gym_by_id_def stored_gyms_def find_map comp_def)

lemma get_gyms_by_partner_obj_value:
  assumes "wf_heap h" and "get_gyms_by_partner_obj L h partner = (h', r)"
  shows "map (\<lambda>a. obj_gym (dict_objs h' ! a)) (list_objs h' ! r)
     = get_gyms_by_partner L \<lparr> gyms = map obj_gym (stored_gyms h), csv = c, writable = w \<rparr> partner"
proof (cases "partner = []")
  case True
  with assms(2) show ?thesis
    by (auto simp: get_gyms_by_partner_obj_def get_gyms_by_partner_def stored_gyms_def comp_def)
next
  case False
  with assms(2) show ?thesis
    by (auto simp: get_gyms_by_partner_obj_def new_list_def get_gyms_by_partner_def
        stored_gyms_def filter_map comp_def)
qed


lemma copy_with_distance_eq:
  "copy_with_distance ob d = GymWithDistance (with_distance (obj_gym ob) d)"
  by (cases ob)
     (simp_all add: copy_with_distance_def obj_gym_def with_distance_def gym.defs
        gym_with_distance.defs)

lemma map_insort_key_cong:
  "k' (g x) = k x \<Longrightarrow> \<forall>z \<in> set zs. k' (g z) = k z \<Longrightarrow>
   map g (insort_key k x zs) = insort_key k' (g x) (map g zs)"
  by (induction zs) auto

lemma map_sort_key_cong:
  "\<forall>z \<in> set zs. k' (g z) = k z \<Longrightarrow> map g (sort_key k zs) = sort_key k' (map g zs)"
proof (induction zs)
  case Nil
  then show ?case by simp
next
  case (Cons a zs)
  from Cons.prems have a: "k' (g a) = k a" and rest: "\<forall>z \<in> set zs. k' (g z) = k z" by simp_all
  from rest have srt: "\<forall>z \<in> set (sort_key k zs). k' (g z) = k z" by simp
  have "map g (sort_key k (a # zs)) = map g (insort_key k a (sort_key k zs))" by simp
  also have "\<dots> = insort_key k' (g a) (map g (sort_key k zs))"
    using a srt by (rule map_insort_key_cong)
  also have "\<dots> = sort_key k' (map g (a # zs))" by (simp add: Cons.IH[OF rest])
  finally show ?case .
qed

lemma map_py_slice_to: "map f (py_slice_to xs k) = py_slice_to (map f xs) k"
  by (simp add: py_slice_to_def take_map)

text \<open>The loop on the store of objects and the loop on the list of records.\<close>

lemma nearby_loop_value:
  assumes k: "keeps h0 h"
      and lo: "length (list_objs h0) \<le> gwd"
      and hi: "gwd < length (list_objs h)"
      and bound: "\<forall>a \<in> set as. a < length (dict_objs h0)"
      and fresh: "fresh_copies (length (dict_objs h0)) h gwd"
  shows "case gyms_with_distance M lat lon (map (\<lambda>a. obj_gym (dict_objs h0 ! a)) as) of
           Inl e \<Rightarrow> snd (nearby_loop M lat lon gwd as h) = Some e
         | Inr xs \<Rightarrow>
             snd (nearby_loop M lat lon gwd as h) = None
           \<and> map (\<lambda>c. dict_objs (fst (nearby_loop M lat lon gwd as h)) ! c)
               (list_objs (fst (nearby_loop M lat lon gwd as h)) ! gwd)
               = map (\<lambda>c. dict_objs h ! c) (list_objs h ! gwd) @ map GymWithDistance xs"
  using k hi fresh bound
proof (induction as arbitrary: h)
  case Nil
  then show ?case by simp
next
  case (Cons a as)
  note k = Cons.prems(1) and hi = Cons.prems(2) and fresh = Cons.prems(3)
  from Cons.prems(4) have a: "a < length (dict_objs h0)"
    and rest: "\<forall>a \<in> set as. a < length (dict_objs h0)" by simp_all
  have oba: "dict_objs h ! a = dict_objs h0 ! a" using k a by (rule keeps_dict)
  define ob where "ob = dict_objs h0 ! a"
  define vs where "vs = map (\<lambda>a. obj_gym (dict_objs h0 ! a)) as"
  show ?case
  proof (cases "haversine_distance M lat lon (latitude (obj_gym ob)) (longitude (obj_gym ob))")
    case (Inl e)
    then show ?thesis
      by (simp add: oba ob_def Let_def)
  next
    case (Inr d)
    define n where "n = length (dict_objs h)"
    define h1 where "h1 = h\<lparr>dict_objs := dict_objs h @ [copy_with_distance ob d],
                          list_objs := (list_objs h)[gwd := list_objs h ! gwd @ [n]]\<rparr>"
    have step: "nearby_loop M lat lon gwd (a # as) h = nearby_loop M lat lon gwd as h1"
      using Inr
      by (simp add: oba ob_def[symmetric] Let_def new_dict_def list_append_def h1_def n_def)
    have d1: "dict_objs h1 = dict_objs h @ [copy_with_distance ob d]"
      and l1: "list_objs h1 = (list_objs h)[gwd := list_objs h ! gwd @ [n]]"
      by (simp_all add: h1_def)
    have k1: "keeps h0 h1"
      unfolding h1_def
      using keeps_list_update[OF keeps_append_dict[OF k, of "[copy_with_distance ob d]"] lo,
          of "list_objs h ! gwd @ [n]"]
      by simp
    have hi1: "gwd < length (list_objs h1)" using hi by (simp add: l1)
    have n0: "length (dict_objs h0) \<le> n" unfolding n_def using k by (rule keeps_length)
    have g1: "list_objs h1 ! gwd = list_objs h ! gwd @ [n]" using hi by (simp add: l1)
    have old: "length (dict_objs h0) \<le> c \<and> c < length (dict_objs h)
                 \<and> obj_distance (dict_objs h ! c) \<noteq> None"
      if "c \<in> set (list_objs h ! gwd)" for c
      using that fresh by (simp add: fresh_copies_def list_all_iff)
    have fresh1: "fresh_copies (length (dict_objs h0)) h1 gwd"
    proof -
      have old1: "length (dict_objs h0) \<le> c \<and> c < length (dict_objs h1)
                 \<and> obj_distance (dict_objs h1 ! c) \<noteq> None"
        if "c \<in> set (list_objs h ! gwd)" for c
      proof -
        from old[OF that] have c: "length (dict_objs h0) \<le> c" "c < length (dict_objs h)"
          "obj_distance (dict_objs h ! c) \<noteq> None"
          by blast+
        then show ?thesis by (simp add: d1 nth_append)
      qed
      have new: "length (dict_objs h0) \<le> n \<and> n < length (dict_objs h1)
                 \<and> obj_distance (dict_objs h1 ! n) \<noteq> None"
        using n0 by (simp add: d1 n_def obj_distance_copy)
      show ?thesis
        unfolding fresh_copies_def g1 list_all_iff using old1 new by auto
    qed
    have m1: "map (\<lambda>c. dict_objs h1 ! c) (list_objs h1 ! gwd)
                = map (\<lambda>c. dict_objs h ! c) (list_objs h ! gwd) @ [copy_with_distance ob d]"
      unfolding g1 using old by (simp add: d1 nth_append n_def)
    note IH = Cons.IH[OF k1 hi1 fresh1 rest, folded vs_def]
    have gw: "gyms_with_distance M lat lon (map (\<lambda>a. obj_gym (dict_objs h0 ! a)) (a # as))
                = (case gyms_with_distance M lat lon vs of
                     Inl e \<Rightarrow> Inl e
                   | Inr rest \<Rightarrow> Inr (with_distance (obj_gym ob) d # rest))"
      using Inr unfolding ob_def vs_def by simp
    show ?thesis
      unfolding gw step using IH
      by (cases "gyms_with_distance M lat lon vs") (simp_all add: m1 copy_with_distance_eq)
  qed
qed


lemma sort_by_distance_obj_eq:
  fixes M :: "('f, 'k::linorder) pymath"
  assumes "fresh_copies n h gwd"
  shows "sort_by_distance_obj M h gwd =
     (h\<lparr>list_objs := (list_objs h)[gwd :=
          sort_refs M (zip (map (\<lambda>c. the (obj_distance (dict_objs h ! c))) (list_objs h ! gwd))
                           (list_objs h ! gwd))]\<rparr>, None)"
proof -
  have "\<forall>c \<in> set (list_objs h ! gwd). obj_distance (dict_objs h ! c) \<noteq> None"
    using assms by (simp add: fresh_copies_def list_all_iff)
  from those_map_the[OF this] show ?thesis
    by (simp add: sort_by_distance_obj_def)
qed

text \<open>Sorting the addresses by the keys of their dictionaries sorts the dictionaries.\<close>

lemma sort_refs_value:
  fixes M :: "('f, 'k::linorder) pymath"
  assumes cs: "map (\<lambda>c. D ! c) cs = map GymWithDistance xs"
      and keys: "list_all (\<lambda>x. fkey M (distance x) \<noteq> None) xs"
  shows "map (\<lambda>c. D ! c) (sort_refs M (zip (map (\<lambda>c. the (obj_distance (D ! c))) cs) cs))
           = map GymWithDistance (sort_by_distance M xs)"
proof -
  define ks where "ks = map (\<lambda>c. the (obj_distance (D ! c))) cs"
  have z: "zip ks cs = map (\<lambda>c. (the (obj_distance (D ! c)), c)) cs"
    unfolding ks_def by (simp add: zip_map1 zip_same_conv_map)
  have el: "\<exists>x \<in> set xs. D ! c = GymWithDistance x" if "c \<in> set cs" for c
  proof -
    from that have "D ! c \<in> set (map (\<lambda>c. D ! c) cs)" by simp
    then show ?thesis unfolding cs by auto
  qed
  have key: "fkey M (the (obj_distance (D ! c))) \<noteq> None" if c: "c \<in> set cs" for c
  proof -
    from el[OF c] obtain x where x: "x \<in> set xs" "D ! c = GymWithDistance x" by blast
    from keys x(1) have "fkey M (distance x) \<noteq> None" unfolding list_all_iff by blast
    then show ?thesis unfolding x(2) obj_distance_def by simp
  qed
  have nn: "list_all (\<lambda>(k, c). fkey M k \<noteq> None) (zip ks cs)"
    unfolding z list_all_iff using key by (simp del: not_None_eq)
  have "map (\<lambda>c. D ! c) (sort_refs M (zip ks cs))
          = map (\<lambda>z. D ! snd z) (sort_key (\<lambda>(k, c). the (fkey M k)) (zip ks cs))"
    using nn by (simp add: sort_refs_def comp_def)
  also have "\<dots> = sort_key (\<lambda>ob. the (fkey M (the (obj_distance ob))))
                      (map (\<lambda>z. D ! snd z) (zip ks cs))"
    by (rule map_sort_key_cong) (auto simp: z)
  also have "map (\<lambda>z. D ! snd z) (zip ks cs) = map (\<lambda>c. D ! c) cs"
    unfolding z by (simp add: comp_def)
  also have "sort_key (\<lambda>ob. the (fkey M (the (obj_distance ob)))) (map (\<lambda>c. D ! c) cs)
               = map GymWithDistance (sort_key (\<lambda>x. the (fkey M (distance x))) xs)"
    unfolding cs by (rule map_sort_key_cong[symmetric]) (simp add: obj_distance_def)
  also have "sort_key (\<lambda>x. the (fkey M (distance x))) xs = sort_by_distance M xs"
    using keys by (simp add: sort_by_distance_def)
  finally show ?thesis unfolding ks_def .
qed

lemma nearby_from_value:
  fixes M :: "('f, 'k::linorder) pymath"
  assumes k: "keeps h h1"
      and gs: "gs < length (list_objs h1)"
      and bound: "\<forall>a \<in> set (list_objs h1 ! gs). a < length (dict_objs h)"
  shows "case gyms_with_distance M lat lon
                (map (\<lambda>a. obj_gym (dict_objs h ! a)) (list_objs h1 ! gs)) of
      Inl e \<Rightarrow>
        snd (let (h2, gwd) = new_list h1 []
             in case nearby_loop M lat lon gwd (list_objs h2 ! gs) h2 of
                  (h3, Some e) \<Rightarrow> (h3, Inl e)
                | (h3, None) \<Rightarrow>
                    (case sort_by_distance_obj M h3 gwd of
                       (h4, Some e) \<Rightarrow> (h4, Inl e)
                     | (h4, None) \<Rightarrow>
                         (let (h5, r) = new_list h4 (py_slice_to (list_objs h4 ! gwd) limit)
                          in (h5, Inr r)))) = Inl e
    | Inr xs \<Rightarrow>
        list_all (\<lambda>x. fkey M (distance x) \<noteq> None) xs \<longrightarrow>
        (\<exists>h' r.
           (let (h2, gwd) = new_list h1 []
            in case nearby_loop M lat lon gwd (list_objs h2 ! gs) h2 of
                 (h3, Some e) \<Rightarrow> (h3, Inl e)
               | (h3, None) \<Rightarrow>
                   (case sort_by_distance_obj M h3 gwd of
                      (h4, Some e) \<Rightarrow> (h4, Inl e)
                    | (h4, None) \<Rightarrow>
                        (let (h5, r) = new_list h4 (py_slice_to (list_objs h4 ! gwd) limit)
                         in (h5, Inr r)))) = (h', Inr r)
         \<and> map (\<lambda>c. dict_objs h' ! c) (list_objs h' ! r)
             = map GymWithDistance (py_slice_to (sort_by_distance M xs) limit))"
proof -
  define gwd where "gwd = length (list_objs h1)"
  define h2 where "h2 = h1\<lparr>list_objs := list_objs h1 @ [[]]\<rparr>"
  define cands where "cands = list_objs h1 ! gs"
  define vs where "vs = map (\<lambda>a. obj_gym (dict_objs h ! a)) cands"
  have nl: "new_list h1 [] = (h2, gwd)" by (simp add: new_list_def h2_def gwd_def)
  have c2: "list_objs h2 ! gs = cands" using gs by (simp add: h2_def cands_def nth_append)
  have k2: "keeps h h2" using keeps_new_list[OF k, of "[]"] by (simp add: new_list_def h2_def)
  have lo: "length (list_objs h) \<le> gwd"
    using k by (simp add: gwd_def keeps_def prefix_length_le)
  have hi2: "gwd < length (list_objs h2)" by (simp add: h2_def gwd_def)
  have e2: "list_objs h2 ! gwd = []" by (simp add: h2_def gwd_def)
  have fresh2: "fresh_copies (length (dict_objs h)) h2 gwd"
    by (simp add: fresh_copies_def e2)
  have b: "\<forall>a \<in> set cands. a < length (dict_objs h)" using bound by (simp add: cands_def)
  obtain h3 err where run: "nearby_loop M lat lon gwd cands h2 = (h3, err)"
    by (cases "nearby_loop M lat lon gwd cands h2")
  note val = nearby_loop_value[OF k2 lo hi2 b fresh2, of M lat lon, folded vs_def,
      unfolded run fst_conv snd_conv e2]
  from nearby_loop_inv[OF k2 lo hi2 b fresh2, of M lat lon] run
  have k3: "keeps h h3"
    and len3: "length (list_objs h3) = length (list_objs h2)"
    and fresh3: "fresh_copies (length (dict_objs h)) h3 gwd"
    by auto
  let ?rest = "\<lambda>h3 err. case (h3, err) of
            (h3, Some e) \<Rightarrow> (h3, Inl e)
          | (h3, None) \<Rightarrow>
              (case sort_by_distance_obj M h3 gwd of
                 (h4, Some e) \<Rightarrow> (h4, Inl e)
               | (h4, None) \<Rightarrow>
                   (let (h5, r) = new_list h4 (py_slice_to (list_objs h4 ! gwd) limit)
                    in (h5, Inr r)))"
  have whole: "(let (h2, gwd) = new_list h1 []
       in case nearby_loop M lat lon gwd (list_objs h2 ! gs) h2 of
            (h3, Some e) \<Rightarrow> (h3, Inl e)
          | (h3, None) \<Rightarrow>
              (case sort_by_distance_obj M h3 gwd of
                 (h4, Some e) \<Rightarrow> (h4, Inl e)
               | (h4, None) \<Rightarrow>
                   (let (h5, r) = new_list h4 (py_slice_to (list_objs h4 ! gwd) limit)
                    in (h5, Inr r)))) = ?rest h3 err"
    by (simp add: nl c2 run)
  show ?thesis
  proof (cases "gyms_with_distance M lat lon vs")
    case (Inl e)
    with val have "err = Some e" by simp
    then have "snd (?rest h3 err) = Inl e" by simp
    with Inl show ?thesis unfolding whole vs_def cands_def by simp
  next
    case (Inr xs)
    with val have err: "err = None"
      and content: "map (\<lambda>c. dict_objs h3 ! c) (list_objs h3 ! gwd) = map GymWithDistance xs"
      by simp_all
    have "\<exists>h' r. ?rest h3 err = (h', Inr r)
         \<and> map (\<lambda>c. dict_objs h' ! c) (list_objs h' ! r)
             = map GymWithDistance (py_slice_to (sort_by_distance M xs) limit)"
      if keys: "list_all (\<lambda>x. fkey M (distance x) \<noteq> None) xs"
    proof -
      define srt where "srt = sort_refs M
          (zip (map (\<lambda>c. the (obj_distance (dict_objs h3 ! c))) (list_objs h3 ! gwd))
               (list_objs h3 ! gwd))"
      define h5 where "h5 = h3\<lparr>list_objs := (list_objs h3)[gwd := srt] @ [py_slice_to srt limit]\<rparr>"
      define r where "r = length (list_objs h3)"
      have hi3: "gwd < length (list_objs h3)" using hi2 len3 by simp
      have res: "?rest h3 err = (h5, Inr r)"
        using hi3
        by (simp add: err sort_by_distance_obj_eq[OF fresh3] new_list_def h5_def r_def srt_def)
      have "map (\<lambda>c. dict_objs h3 ! c) srt = map GymWithDistance (sort_by_distance M xs)"
        unfolding srt_def using content keys by (rule sort_refs_value)
      moreover have "list_objs h5 ! r = py_slice_to srt limit"
        by (simp add: h5_def r_def nth_append)
      moreover have "dict_objs h5 = dict_objs h3" by (simp add: h5_def)
      ultimately have "map (\<lambda>c. dict_objs h5 ! c) (list_objs h5 ! r)
                   = map GymWithDistance (py_slice_to (sort_by_distance M xs) limit)"
        by (simp add: map_py_slice_to)
      with res show ?thesis by blast
    qed
    with Inr show ?thesis unfolding whole vs_def cands_def by simp
  qed
qed


lemma nearby_candidates_value:
  assumes wf: "wf_heap h"
  shows "\<exists>h1 gs.
      (case partner of
         None \<Rightarrow> (h, self_gyms h)
       | Some p \<Rightarrow> if p \<noteq> [] then get_gyms_by_partner_obj L h p else (h, self_gyms h)) = (h1, gs)
    \<and> keeps h h1 \<and> gs < length (list_objs h1)
    \<and> set (list_objs h1 ! gs) \<subseteq> set (list_objs h ! self_gyms h)
    \<and> map (\<lambda>a. obj_gym (dict_objs h ! a)) (list_objs h1 ! gs)
        = candidates L \<lparr> gyms = map obj_gym (stored_gyms h), csv = cf, writable = wr \<rparr> partner"
proof -
  have sg: "self_gyms h < length (list_objs h)" using wf by (simp add: wf_heap_def)
  show ?thesis
  proof (cases "\<exists>p. partner = Some p \<and> p \<noteq> []")
    case False
    then have "(case partner of
         None \<Rightarrow> (h, self_gyms h)
       | Some p \<Rightarrow> if p \<noteq> [] then get_gyms_by_partner_obj L h p else (h, self_gyms h))
         = (h, self_gyms h)"
      by (auto split: option.splits)
    moreover from False have "map (\<lambda>a. obj_gym (dict_objs h ! a)) (list_objs h ! self_gyms h)
        = candidates L \<lparr> gyms = map obj_gym (stored_gyms h), csv = cf, writable = wr \<rparr> partner"
      by (auto simp: candidates_def stored_gyms_def comp_def split: option.splits)
    ultimately show ?thesis using sg keeps_refl[of h] by auto
  next
    case True
    then obtain p where p: "partner = Some p" "p \<noteq> []" by blast
    define flt where "flt = filter (\<lambda>a. str_lower L (partner_name (obj_gym (dict_objs h ! a)))
                                          = str_lower L p) (list_objs h ! self_gyms h)"
    define h1 where "h1 = h\<lparr>list_objs := list_objs h @ [flt]\<rparr>"
    have "(case partner of
         None \<Rightarrow> (h, self_gyms h)
       | Some p \<Rightarrow> if p \<noteq> [] then get_gyms_by_partner_obj L h p else (h, self_gyms h))
         = (h1, length (list_objs h))"
      using p by (simp add: get_gyms_by_partner_obj_new h1_def flt_def)
    moreover have "keeps h h1" by (simp add: keeps_def h1_def)
    moreover have "length (list_objs h) < length (list_objs h1)" by (simp add: h1_def)
    moreover have "set (list_objs h1 ! length (list_objs h)) \<subseteq> set (list_objs h ! self_gyms h)"
      by (simp add: h1_def flt_def)
    moreover have "map (\<lambda>a. obj_gym (dict_objs h ! a)) (list_objs h1 ! length (list_objs h))
        = candidates L \<lparr> gyms = map obj_gym (stored_gyms h), csv = cf, writable = wr \<rparr> partner"
      using p by (simp add: h1_def flt_def candidates_def stored_gyms_def filter_map comp_def)
    ultimately show ?thesis by blast
  qed
qed

text \<open>
  Read through the references, \<^verbatim>\<open>get_nearby_gyms\<close> on the store of objects raises what it
  raises on the list of records, and returns the dictionaries that it returns there (for
  distances that are ordered: on keys with a NaN the two sorts are two parameters).
\<close>

lemma get_nearby_gyms_obj_value:
  fixes M :: "('f, 'k::linorder) pymath"
  assumes wf: "wf_heap h"
  shows "case get_nearby_gyms M L \<lparr> gyms = map obj_gym (stored_gyms h), csv = cf, writable = wr \<rparr>
                lat lon partner limit of
      Inl e \<Rightarrow> snd (get_nearby_gyms_obj M L h lat lon partner limit) = Inl e
    | Inr res \<Rightarrow>
        distances_ordered M lat lon
          (candidates L \<lparr> gyms = map obj_gym (stored_gyms h), csv = cf, writable = wr \<rparr> partner)
        \<longrightarrow> (\<exists>h' r. get_nearby_gyms_obj M L h lat lon partner limit = (h', Inr r)
               \<and> map (\<lambda>c. dict_objs h' ! c) (list_objs h' ! r) = map GymWithDistance res)"
proof -
  let ?V = "\<lparr> gyms = map obj_gym (stored_gyms h), csv = cf, writable = wr \<rparr>"
  have sg: "self_gyms h < length (list_objs h)" using wf by (simp add: wf_heap_def)
  have valid: "\<forall>a \<in> set (list_objs h ! self_gyms h). a < length (dict_objs h)"
    using wf sg by (auto simp: wf_heap_def)
  from nearby_candidates_value[OF wf, where partner = partner and L = L and cf = cf and wr = wr]
  obtain h1 gs where
    first: "(case partner of
         None \<Rightarrow> (h, self_gyms h)
       | Some p \<Rightarrow> if p \<noteq> [] then get_gyms_by_partner_obj L h p else (h, self_gyms h)) = (h1, gs)"
    and k1: "keeps h h1" and gs: "gs < length (list_objs h1)"
    and sub: "set (list_objs h1 ! gs) \<subseteq> set (list_objs h ! self_gyms h)"
    and cands: "map (\<lambda>a. obj_gym (dict_objs h ! a)) (list_objs h1 ! gs) = candidates L ?V partner"
    by blast
  have bound: "\<forall>a \<in> set (list_objs h1 ! gs). a < length (dict_objs h)"
    using sub valid by blast
  have call: "get_nearby_gyms_obj M L h lat lon partner limit =
      (let (h2, gwd) = new_list h1 []
       in case nearby_loop M lat lon gwd (list_objs h2 ! gs) h2 of
            (h3, Some e) \<Rightarrow> (h3, Inl e)
          | (h3, None) \<Rightarrow>
              (case sort_by_distance_obj M h3 gwd of
                 (h4, Some e) \<Rightarrow> (h4, Inl e)
               | (h4, None) \<Rightarrow>
                   (let (h5, r) = new_list h4 (py_slice_to (list_objs h4 ! gwd) limit)
                    in (h5, Inr r))))"
    unfolding get_nearby_gyms_obj_def first Let_def prod.case by (rule refl)
  note rest = nearby_from_value[OF k1 gs bound, where M = M and lat = lat and lon = lon
      and limit = limit, folded call, unfolded cands]
  note eq = get_nearby_gyms_eq[of M L ?V lat lon partner limit]
  show ?thesis
  proof (cases "gyms_with_distance M lat lon (candidates L ?V partner)")
    case (Inl e)
    with rest eq show ?thesis by simp
  next
    case (Inr xs)
    from gyms_with_distance_Inr[OF Inr]
    have m: "map gym.truncate xs = candidates L ?V partner"
      and d: "\<forall>x \<in> set xs. gym_distance M lat lon (gym.truncate x) = Inr (distance x)"
      by blast+
    have keys: "list_all (\<lambda>x. fkey M (distance x) \<noteq> None) xs"
      if ord: "distances_ordered M lat lon (candidates L ?V partner)"
      unfolding list_all_iff
    proof
      fix x assume x: "x \<in> set xs"
      then have "gym.truncate x \<in> set (candidates L ?V partner)" unfolding m[symmetric] by simp
      with ord have "gym_rank M lat lon (gym.truncate x) \<noteq> None"
        by (simp add: distances_ordered_def list_all_iff)
      with d x show "fkey M (distance x) \<noteq> None" by (simp add: gym_rank_def)
    qed
    from rest Inr keys eq show ?thesis by simp
  qed
qed

end
